(* ===== verification/Prelude.thy ===== *)
theory Prelude
  imports Main "HOL-Library.Word" "HOL-Library.AList" "HOL-Library.Multiset"
begin

text \<open>
  The vocabulary every component of the development shares: results of Go calls, errors,
  calls that act on the outside world, machine integers written with their wrap-around, and
  Go maps with their unspecified iteration order.

  A Go function that returns \<open>(T, error)\<close> is modelled by a value of type \<open>'a go\<close>. A
  run-time panic (an index out of range, a nil dereference) is its own outcome, because it
  passes every \<open>if err != nil\<close> of the callers. An error is the format string and the
  arguments of the \<open>fmt.Errorf\<close> that made it, with the wrapped cause for a \<open>%w\<close>.
\<close>

named_theorems go_defs \<open>definitions of the result and effect combinators\<close>
named_theorems io_simps \<open>how the combinators evaluate on known outcomes\<close>

section \<open>Errors and results\<close>

datatype go_arg = AStr string | AInt int

datatype go_error =
    Foreign string
  | Errorf string "go_arg list"
  | Wrapf string "go_arg list" go_error

text \<open>\<open>errors.Is\<close> walks the chain of wrapped causes.\<close>

fun errors_is :: "go_error \<Rightarrow> go_error \<Rightarrow> bool" where
  "errors_is (Foreign s) t \<longleftrightarrow> Foreign s = t"
| "errors_is (Errorf f as) t \<longleftrightarrow> Errorf f as = t"
| "errors_is (Wrapf f as e) t \<longleftrightarrow> Wrapf f as e = t \<or> errors_is e t"

datatype 'a go = Val 'a | Err go_error | Panic

fun go_bind :: "'a go \<Rightarrow> ('a \<Rightarrow> 'b go) \<Rightarrow> 'b go" where
  "go_bind (Val a) f = f a"
| "go_bind (Err e) f = Err e"
| "go_bind Panic f = Panic"

text \<open>\<open>return fmt.Errorf("... %w", err)\<close>: the error is wrapped, a panic is not.\<close>

fun go_wrap :: "(go_error \<Rightarrow> go_error) \<Rightarrow> 'a go \<Rightarrow> 'a go" where
  "go_wrap w (Val a) = Val a"
| "go_wrap w (Err e) = Err (w e)"
| "go_wrap w Panic = Panic"

fun of_option :: "go_error \<Rightarrow> 'a option \<Rightarrow> 'a go" where
  "of_option e None = Err e"
| "of_option e (Some a) = Val a"

lemma go_bind_Val_iff: "go_bind m f = Val b \<longleftrightarrow> (\<exists>a. m = Val a \<and> f a = Val b)"
  by (cases m) auto

lemma go_wrap_Val_iff [simp]: "go_wrap w m = Val b \<longleftrightarrow> m = Val b"
  by (cases m) auto

lemma go_wrap_Panic_iff [simp]: "go_wrap w m = Panic \<longleftrightarrow> m = Panic"
  by (cases m) auto

lemma go_bind_Panic_iff: "go_bind m f = Panic \<longleftrightarrow> m = Panic \<or> (\<exists>a. m = Val a \<and> f a = Panic)"
  by (cases m) auto

lemma go_bind_Err_iff: "go_bind m f = Err e \<longleftrightarrow> m = Err e \<or> (\<exists>a. m = Val a \<and> f a = Err e)"
  by (cases m) auto

lemma of_option_no_panic [simp]: "of_option e x \<noteq> Panic"
  by (cases x) auto

lemma of_option_Val_iff [simp]: "of_option e x = Val b \<longleftrightarrow> x = Some b"
  by (cases x) auto

lemma go_bind_cong [fundef_cong]:
  "m = m' \<Longrightarrow> (\<And>a. m' = Val a \<Longrightarrow> f a = f' a) \<Longrightarrow> go_bind m f = go_bind m' f'"
  by (cases m') auto

section \<open>Calls on the outside world\<close>

text \<open>
  A call that reads or changes the world (a node, a database, the clock) takes the world and
  returns its outcome with the new world.
\<close>

type_synonym ('w, 'a) io = "'w \<Rightarrow> 'a go \<times> 'w"

definition io_return :: "'a \<Rightarrow> ('w, 'a) io" where
  "io_return a w = (Val a, w)"

definition io_fail :: "go_error \<Rightarrow> ('w, 'a) io" where
  "io_fail e w = (Err e, w)"

definition io_lift :: "'a go \<Rightarrow> ('w, 'a) io" where
  "io_lift r w = (r, w)"

definition io_bind :: "('w, 'a) io \<Rightarrow> ('a \<Rightarrow> ('w, 'b) io) \<Rightarrow> ('w, 'b) io" where
  "io_bind m f w = (case m w of
      (Val a, w') \<Rightarrow> f a w'
    | (Err e, w') \<Rightarrow> (Err e, w')
    | (Panic, w') \<Rightarrow> (Panic, w'))"

definition io_wrap :: "(go_error \<Rightarrow> go_error) \<Rightarrow> ('w, 'a) io \<Rightarrow> ('w, 'a) io" where
  "io_wrap h m w = (case m w of (r, w') \<Rightarrow> (go_wrap h r, w'))"

text \<open>
  \<open>a, err := call(); if err != nil { ... }\<close> with the error handled by the caller: both
  branches are values, only a panic passes.
\<close>

definition io_try :: "('w, 'a) io \<Rightarrow> ('w, go_error + 'a) io" where
  "io_try m w = (case m w of
      (Val a, w') \<Rightarrow> (Val (Inr a), w')
    | (Err e, w') \<Rightarrow> (Val (Inl e), w')
    | (Panic, w') \<Rightarrow> (Panic, w'))"

text \<open>A deferred call runs on every way out of the body; its own result is dropped.\<close>

definition io_defer :: "('w, unit) io \<Rightarrow> ('w, 'a) io \<Rightarrow> ('w, 'a) io" where
  "io_defer d m w = (case m w of (r, w') \<Rightarrow> (r, snd (d w')))"

lemmas io_defs [go_defs] =
  io_return_def io_fail_def io_lift_def io_bind_def io_wrap_def io_try_def io_defer_def

lemma io_return_eval [io_simps, simp]: "io_return a w = (Val a, w)"
  by (simp add: io_return_def)

lemma io_fail_eval [io_simps, simp]: "io_fail e w = (Err e, w)"
  by (simp add: io_fail_def)

lemma io_lift_eval [io_simps, simp]: "io_lift r w = (r, w)"
  by (simp add: io_lift_def)

lemma io_bind_Val [io_simps]: "m w = (Val a, w') \<Longrightarrow> io_bind m f w = f a w'"
  by (simp add: io_bind_def)

lemma io_bind_Err [io_simps]: "m w = (Err e, w') \<Longrightarrow> io_bind m f w = (Err e, w')"
  by (simp add: io_bind_def)

lemma io_bind_Panic [io_simps]: "m w = (Panic, w') \<Longrightarrow> io_bind m f w = (Panic, w')"
  by (simp add: io_bind_def)

lemma io_bind_return [simp]: "io_bind (io_return a) f = f a"
  by (rule ext) (simp add: io_bind_def)

lemma io_bind_fail [simp]: "io_bind (io_fail e) f = io_fail e"
  by (rule ext) (simp add: io_bind_def)

lemma io_bind_lift_Val [simp]: "io_bind (io_lift (Val a)) f = f a"
  by (rule ext) (simp add: io_bind_def)

lemma io_bind_lift_Err [simp]: "io_bind (io_lift (Err e)) f = io_fail e"
  by (rule ext) (simp add: io_bind_def)

lemma io_bind_assoc: "io_bind (io_bind m f) g = io_bind m (\<lambda>a. io_bind (f a) g)"
  by (rule ext) (auto simp: io_bind_def split: prod.splits go.splits)

lemma io_bind_eq_Val_iff:
  "io_bind m f w = (Val b, w'') \<longleftrightarrow> (\<exists>a w'. m w = (Val a, w') \<and> f a w' = (Val b, w''))"
  by (auto simp: io_bind_def split: prod.splits go.splits)

lemma io_wrap_eq_Val_iff [simp]: "io_wrap h m w = (Val b, w') \<longleftrightarrow> m w = (Val b, w')"
  by (auto simp: io_wrap_def split: prod.splits)

lemma io_wrap_eq_Panic_iff [simp]: "io_wrap h m w = (Panic, w') \<longleftrightarrow> m w = (Panic, w')"
  by (auto simp: io_wrap_def split: prod.splits elim: go_wrap.elims)

lemma io_wrap_eq_Err_iff:
  "io_wrap h m w = (Err e, w') \<longleftrightarrow> (\<exists>e'. m w = (Err e', w') \<and> e = h e')"
  by (auto simp: io_wrap_def split: prod.splits elim: go_wrap.elims)

lemma snd_io_wrap [simp]: "snd (io_wrap h m w) = snd (m w)"
  by (simp add: io_wrap_def split: prod.splits)

lemma io_try_eq_Val_iff:
  "io_try m w = (Val x, w') \<longleftrightarrow>
     (case x of Inl e \<Rightarrow> m w = (Err e, w') | Inr a \<Rightarrow> m w = (Val a, w'))"
  by (auto simp: io_try_def split: prod.splits go.splits sum.splits)

lemma io_bind_cases:
  assumes "io_bind m f w = (r, w')"
  obtains (val) a v where "m w = (Val a, v)" "f a v = (r, w')"
        | (err) e where "m w = (Err e, w')" "r = Err e"
        | (panic) "m w = (Panic, w')" "r = Panic"
  using assms by (auto simp: io_bind_def split: prod.splits go.splits)

text \<open>
  What a sequence of calls keeps of the world follows from what each call keeps.
\<close>

definition io_keeps :: "('w \<Rightarrow> bool) \<Rightarrow> ('w, 'a) io \<Rightarrow> bool" where
  "io_keeps I m \<longleftrightarrow> (\<forall>w. I w \<longrightarrow> I (snd (m w)))"

lemma io_keepsD: "io_keeps I m \<Longrightarrow> I w \<Longrightarrow> m w = (r, w') \<Longrightarrow> I w'"
  by (metis io_keeps_def snd_conv)

lemma io_keeps_return [simp]: "io_keeps I (io_return a)"
  by (simp add: io_keeps_def)

lemma io_keeps_fail [simp]: "io_keeps I (io_fail e)"
  by (simp add: io_keeps_def)

lemma io_keeps_lift [simp]: "io_keeps I (io_lift r)"
  by (simp add: io_keeps_def)

lemma io_keeps_wrap [simp]: "io_keeps I (io_wrap h m) \<longleftrightarrow> io_keeps I m"
  by (simp add: io_keeps_def)

lemma io_keeps_bind: "io_keeps I m \<Longrightarrow> (\<And>a. io_keeps I (f a)) \<Longrightarrow> io_keeps I (io_bind m f)"
  unfolding io_keeps_def by (auto simp: io_bind_def split: prod.splits go.splits)

lemma io_keeps_try [simp]: "io_keeps I m \<Longrightarrow> io_keeps I (io_try m)"
  unfolding io_keeps_def by (auto simp: io_try_def split: prod.splits go.splits)

section \<open>Machine integers\<close>

text \<open>
  \<open>int64\<close> and \<open>uint64\<close> convert an integer to Go's 64-bit types: the value modulo
  $2^{64}$, read as two's complement for the signed one. Sums of the code are written with
  them wherever Go computes in 64 bits.
\<close>

definition int64 :: "int \<Rightarrow> int" where
  "int64 x = (x + 2 ^ 63) mod 2 ^ 64 - 2 ^ 63"

definition uint64 :: "int \<Rightarrow> int" where
  "uint64 x = x mod 2 ^ 64"

lemma int64_id: "- (2 ^ 63) \<le> x \<Longrightarrow> x < 2 ^ 63 \<Longrightarrow> int64 x = x"
  by (simp add: int64_def)

lemma int64_range: "- (2 ^ 63) \<le> int64 x \<and> int64 x < 2 ^ 63"
proof -
  have "0 \<le> (x + 2 ^ 63) mod 2 ^ 64" and "(x + 2 ^ 63) mod 2 ^ 64 < 2 ^ 64" by simp_all
  then show ?thesis by (simp add: int64_def)
qed

lemma uint64_id: "0 \<le> x \<Longrightarrow> x < 2 ^ 64 \<Longrightarrow> uint64 x = x"
  by (simp add: uint64_def)

lemma uint64_range: "0 \<le> uint64 x \<and> uint64 x < 2 ^ 64"
  by (simp add: uint64_def)

lemma uint64_int64: "uint64 (int64 x) = uint64 x"
  by (simp add: uint64_def int64_def mod_diff_left_eq)

lemma int64_add_period: "int64 (x + 2 ^ 64) = int64 x"
proof -
  have "x + 2 ^ 64 + 2 ^ 63 = x + 2 ^ 63 + (2::int) ^ 64" by simp
  then show ?thesis unfolding int64_def by (simp only: mod_add_self2)
qed

text \<open>
  \<open>(*big.Int).Int64\<close> and \<open>Uint64\<close>: the low 64 bits of the magnitude; \<open>Int64\<close>
  applies the sign afterwards, \<open>Uint64\<close> does not look at it.
\<close>

definition big_Uint64 :: "int \<Rightarrow> int" where
  "big_Uint64 x = \<bar>x\<bar> mod 2 ^ 64"

definition big_Int64 :: "int \<Rightarrow> int" where
  "big_Int64 x = (let v = int64 (\<bar>x\<bar> mod 2 ^ 64) in if x < 0 then int64 (- v) else v)"

lemma big_Int64_id: "- (2 ^ 63) < x \<Longrightarrow> x < 2 ^ 63 \<Longrightarrow> big_Int64 x = x"
  by (auto simp: big_Int64_def Let_def int64_id abs_if)

lemma big_Uint64_id: "0 \<le> x \<Longrightarrow> x < 2 ^ 64 \<Longrightarrow> big_Uint64 x = x"
  by (simp add: big_Uint64_def)

lemma big_Uint64_range: "0 \<le> big_Uint64 x \<and> big_Uint64 x < 2 ^ 64"
  by (simp add: big_Uint64_def)

section \<open>Bytes and Go maps\<close>

type_synonym bytes = "8 word list"

definition bytes_of :: "string \<Rightarrow> bytes" where
  "bytes_of s = map of_char s"

definition text_of :: "bytes \<Rightarrow> string" where
  "text_of bs = map (\<lambda>b. char_of (unat b)) bs"

lemma unat_of_char: "unat (of_char c :: 8 word) = of_char c"
proof -
  have "(of_char c :: nat) < 256" using nat_of_char_less_256 by simp
  moreover have "(of_char c :: 8 word) = word_of_nat (of_char c)" by (simp add: of_nat_of_char)
  ultimately show ?thesis by (simp add: unat_of_nat)
qed

lemma text_of_bytes [simp]: "text_of (bytes_of s) = s"
  by (induction s) (simp_all add: text_of_def bytes_of_def unat_of_char)

lemma bytes_of_text [simp]: "bytes_of (text_of bs) = bs"
proof -
  have "of_char (char_of (unat b)) = b" for b :: "8 word"
  proof -
    have "unat b < 256" using unsigned_less[of b] by simp
    then have "of_char (char_of (unat b)) = unat b" by (simp add: of_char_of)
    then show ?thesis by (metis of_nat_of_char unat_of_char word_unat_eq_iff)
  qed
  then show ?thesis by (induction bs) (simp_all add: text_of_def bytes_of_def)
qed

text \<open>
  A Go map is an association list with distinct keys, changed with \<open>AList.update\<close>. The
  order in which \<open>range\<close> visits it is not specified, so code that ranges over a map
  takes the order as an argument; \<open>is_order\<close> is what the language guarantees of it.
\<close>

definition is_order :: "('a list \<Rightarrow> 'a list) \<Rightarrow> bool" where
  "is_order ord \<longleftrightarrow> (\<forall>xs. mset (ord xs) = mset xs)"

lemma is_order_id [simp]: "is_order (\<lambda>xs. xs)"
  by (simp add: is_order_def)

lemma is_order_rev [simp]: "is_order rev"
  by (simp add: is_order_def)

lemma is_order_set [simp]: "is_order ord \<Longrightarrow> set (ord xs) = set xs"
  by (metis is_order_def set_mset_mset)

lemma is_order_distinct [simp]: "is_order ord \<Longrightarrow> distinct (ord xs) \<longleftrightarrow> distinct xs"
  by (metis is_order_def mset_eq_imp_distinct_iff)

lemma is_order_length [simp]: "is_order ord \<Longrightarrow> length (ord xs) = length xs"
  by (metis is_order_def size_mset)

lemma is_order_Nil [simp]: "is_order ord \<Longrightarrow> ord [] = []"
  by (metis is_order_length length_0_conv)

text \<open>
  \<open>visit ord\<close> is an iteration order for every \<open>ord\<close>, and every order is one of them: the
  language's guarantee built into the definition, so that a theorem for all \<open>ord\<close> is a theorem
  for all orders.
\<close>

definition visit :: "('a list \<Rightarrow> 'a list) \<Rightarrow> 'a list \<Rightarrow> 'a list" where
  "visit ord xs = (if mset (ord xs) = mset xs then ord xs else xs)"

lemma is_order_visit [simp]: "is_order (visit ord)"
  by (simp add: is_order_def visit_def)

lemma visit_order: "is_order ord \<Longrightarrow> visit ord = ord"
  by (rule ext) (simp add: is_order_def visit_def)

lemma map_update_same:
  assumes "i < length xs \<Longrightarrow> f y = f (xs ! i)"
  shows "map f (xs[i := y]) = map f xs"
proof (cases "i < length xs")
  case True
  have "map f (xs[i := y]) = (map f xs)[i := f y]" by (rule map_update)
  also have "f y = map f xs ! i" using True assms by simp
  finally show ?thesis by (simp only: list_update_id)
qed (simp add: list_update_beyond)

lemma mset_take_subset: "mset (take k xs) \<subseteq># mset xs"
  by (metis append_take_drop_id mset_append mset_subset_eq_add_left)

lemma subset_mset_notin:
  assumes "S \<subseteq># add_mset x M" and "x \<notin># S"
  shows "S \<subseteq># M"
proof (rule mset_subset_eqI)
  fix a
  show "count S a \<le> count M a"
    using assms mset_subset_eq_count[OF assms(1), of a]
    by (cases "a = x") (auto simp: not_in_iff)
qed
section \<open>Tables\<close>

text \<open>
  A table is a list of rows. \<open>upsert\<close> changes the row the predicate finds or adds a new
  one at the end, as \<open>INSERT ... ON CONFLICT DO UPDATE\<close> does.
\<close>

fun upsert :: "('r \<Rightarrow> bool) \<Rightarrow> ('r \<Rightarrow> 'r) \<Rightarrow> 'r \<Rightarrow> 'r list \<Rightarrow> 'r list" where
  "upsert p f r [] = [r]"
| "upsert p f r (x # xs) = (if p x then f x # xs else x # upsert p f r xs)"

lemma find_upsert_same:
  assumes "\<And>x. p x \<Longrightarrow> p (f x)" and "p r"
  shows "find p (upsert p f r xs) = Some (case find p xs of None \<Rightarrow> r | Some x \<Rightarrow> f x)"
  using assms by (induction xs) auto

lemma find_upsert_other:
  assumes "\<And>x. p x \<Longrightarrow> \<not> q x \<and> \<not> q (f x)" and "\<not> q r"
  shows "find q (upsert p f r xs) = find q xs"
  using assms by (induction xs) auto

lemma map_upsert_key:
  assumes "\<And>x. p x \<longleftrightarrow> k x = k0" and "\<And>x. p x \<Longrightarrow> k (f x) = k0" and "k r = k0"
  shows "map k (upsert p f r xs) = (if k0 \<in> k ` set xs then map k xs else map k xs @ [k0])"
  using assms by (induction xs) auto

lemma set_upsert_subset: "set (upsert p f r xs) \<subseteq> insert r (set xs \<union> f ` {x \<in> set xs. p x})"
  by (induction xs) auto

lemma upsert_upsert:
  assumes "\<And>x. p x \<Longrightarrow> p (f x)" and "\<And>x. p x \<Longrightarrow> f (f x) = f x" and "p r" and "f r = r"
  shows "upsert p f r (upsert p f r xs) = upsert p f r xs"
  using assms by (induction xs) auto

lemma find_key_map_of:
  "map_option v (find (\<lambda>x. k x = a) xs) = map_of (map (\<lambda>x. (k x, v x)) xs) a"
  by (induction xs) auto

lemma find_key_iff:
  assumes "distinct (map k xs)"
  shows "find (\<lambda>x. k x = a) xs = Some r \<longleftrightarrow> r \<in> set xs \<and> k r = a"
  using assms by (induction xs) (auto simp: image_iff)

lemma find_key_order:
  assumes "is_order ord" and "distinct (map k xs)"
  shows "find (\<lambda>x. k x = a) (ord xs) = find (\<lambda>x. k x = a) xs"
proof -
  have "mset (map k (ord xs)) = mset (map k xs)"
    using assms(1) by (simp add: is_order_def)
  then have "distinct (map k (ord xs))"
    using assms(2) mset_eq_imp_distinct_iff by blast
  then have "find (\<lambda>x. k x = a) (ord xs) = Some r \<longleftrightarrow> find (\<lambda>x. k x = a) xs = Some r" for r
    using assms by (simp add: find_key_iff)
  then show ?thesis by (metis not_Some_eq)
qed

end
