(* ===== verification/GoText.thy ===== *)
theory GoText
  imports Prelude
begin

text \<open>
  The parts of Go's \<open>strconv\<close>, \<open>strings\<close>, \<open>fmt\<close>, \<open>encoding/hex\<close> and
  \<open>math/big\<close> text conversions the program uses: decimal printing and parsing, splitting,
  prefixes and suffixes, hexadecimal. A Go string is its list of bytes.
\<close>

section \<open>Decimal text\<close>

definition digit_char :: "nat \<Rightarrow> char" where
  "digit_char d = char_of (48 + d)"

definition digit_val :: "char \<Rightarrow> nat option" where
  "digit_val c = (let n = of_char c :: nat in if 48 \<le> n \<and> n \<le> 57 then Some (n - 48) else None)"

fun show_nat :: "nat \<Rightarrow> string" where
  "show_nat n = (if n < 10 then [digit_char n] else show_nat (n div 10) @ [digit_char (n mod 10)])"

declare show_nat.simps [simp del]

text \<open>\<open>%d\<close> and \<open>(*big.Int).String\<close>.\<close>

definition show_int :: "int \<Rightarrow> string" where
  "show_int i = (if i < 0 then ''-'' @ show_nat (nat (- i)) else show_nat (nat i))"

fun digits_acc :: "nat \<Rightarrow> string \<Rightarrow> nat option" where
  "digits_acc n [] = Some n"
| "digits_acc n (c # cs) = (case digit_val c of None \<Rightarrow> None | Some d \<Rightarrow> digits_acc (10 * n + d) cs)"

text \<open>A non-empty run of decimal digits.\<close>

definition parse_digits :: "string \<Rightarrow> nat option" where
  "parse_digits s = (if s = [] then None else digits_acc 0 s)"

text \<open>\<open>strconv.ParseUint(s, 10, bits)\<close>: no sign, no underscore, and the value must fit.\<close>

definition parse_uint :: "nat \<Rightarrow> string \<Rightarrow> nat option" where
  "parse_uint bits s = (case parse_digits s of None \<Rightarrow> None
     | Some n \<Rightarrow> if n < 2 ^ bits then Some n else None)"

text \<open>\<open>(*big.Int).SetString(s, 10)\<close>: an optional sign, then digits to the end.\<close>

fun set_string10 :: "string \<Rightarrow> int option" where
  "set_string10 [] = None"
| "set_string10 (c # cs) =
     (if c = CHR ''-'' then map_option (\<lambda>n. - int n) (parse_digits cs)
      else if c = CHR ''+'' then map_option int (parse_digits cs)
      else map_option int (parse_digits (c # cs)))"

lemma of_char_digit_char: "d < 10 \<Longrightarrow> (of_char (digit_char d) :: nat) = 48 + d"
  by (simp add: digit_char_def)

lemma digit_val_digit_char [simp]: "d < 10 \<Longrightarrow> digit_val (digit_char d) = Some d"
  by (simp add: digit_val_def of_char_digit_char)

lemma digit_char_neq:
  assumes "d < 10" and "(of_char c :: nat) < 48 \<or> 57 < (of_char c :: nat)"
  shows "digit_char d \<noteq> c"
proof
  assume "digit_char d = c"
  then have "(of_char c :: nat) = 48 + d" using assms(1) by (metis of_char_digit_char)
  with assms show False by simp
qed

lemma digits_acc_append:
  "digits_acc n (xs @ ys) = (case digits_acc n xs of None \<Rightarrow> None | Some m \<Rightarrow> digits_acc m ys)"
  by (induction xs arbitrary: n) (auto split: option.splits)

lemma show_nat_not_Nil [simp]: "show_nat n \<noteq> []"
  by (subst show_nat.simps) simp

lemma digits_acc_show_nat: "digits_acc 0 (show_nat n) = Some n"
proof (induction n rule: show_nat.induct)
  case (1 n)
  then show ?case
    by (subst show_nat.simps) (auto simp: digits_acc_append)
qed

lemma parse_digits_show_nat [simp]: "parse_digits (show_nat n) = Some n"
  by (simp add: parse_digits_def digits_acc_show_nat)

lemma show_nat_chars: "c \<in> set (show_nat n) \<Longrightarrow> \<exists>d < 10. c = digit_char d"
proof (induction n rule: show_nat.induct)
  case (1 n)
  show ?case
  proof (cases "n < 10")
    case True
    with "1.prems" show ?thesis by (auto simp: show_nat.simps[of n])
  next
    case False
    with "1.prems" have "c \<in> set (show_nat (n div 10)) \<or> c = digit_char (n mod 10)"
      by (auto simp: show_nat.simps[of n])
    with False "1.IH" show ?thesis by (metis mod_less_divisor zero_less_numeral)
  qed
qed

lemma show_nat_no_char:
  "(of_char c :: nat) < 48 \<or> 57 < (of_char c :: nat) \<Longrightarrow> c \<notin> set (show_nat n)"
  using show_nat_chars digit_char_neq by metis

lemma show_nat_inject [simp]: "show_nat m = show_nat n \<longleftrightarrow> m = n"
  by (metis option.inject parse_digits_show_nat)

lemma parse_uint_show_nat: "n < 2 ^ bits \<Longrightarrow> parse_uint bits (show_nat n) = Some n"
  by (simp add: parse_uint_def)

lemma parse_uint_bound: "parse_uint bits s = Some n \<Longrightarrow> n < 2 ^ bits"
  by (auto simp: parse_uint_def split: option.splits if_splits)

text \<open>Printing a big integer and reading it back gives the same integer.\<close>

lemma set_string10_show_int [simp]: "set_string10 (show_int i) = Some i"
proof (cases "i < 0")
  case True
  then show ?thesis by (simp add: show_int_def)
next
  case False
  obtain c cs where s: "show_nat (nat i) = c # cs" by (cases "show_nat (nat i)") auto
  have "c \<noteq> CHR ''-''" "c \<noteq> CHR ''+''"
    using show_nat_no_char[of "CHR ''-''" "nat i"] show_nat_no_char[of "CHR ''+''" "nat i"]
    by (auto simp: s)
  then have "set_string10 (c # cs) = Some i"
    using False parse_digits_show_nat[of "nat i"] by (simp add: s)
  with False show ?thesis by (simp add: show_int_def s)
qed

lemma show_int_inject [simp]: "show_int i = show_int j \<longleftrightarrow> i = j"
  by (metis option.inject set_string10_show_int)

section \<open>Splitting, prefixes, suffixes\<close>

text \<open>\<open>strings.Split\<close> on a one-byte separator: always at least one part.\<close>

fun split_on :: "char \<Rightarrow> string \<Rightarrow> string list" where
  "split_on c [] = [[]]"
| "split_on c (x # xs) =
     (if x = c then [] # split_on c xs
      else (case split_on c xs of [] \<Rightarrow> [[x]] | p # ps \<Rightarrow> (x # p) # ps))"

fun join_with :: "char \<Rightarrow> string list \<Rightarrow> string" where
  "join_with c [] = []"
| "join_with c [p] = p"
| "join_with c (p # q # ps) = p @ c # join_with c (q # ps)"

definition has_prefix :: "string \<Rightarrow> string \<Rightarrow> bool" where
  "has_prefix s p \<longleftrightarrow> take (length p) s = p"

definition has_suffix :: "string \<Rightarrow> string \<Rightarrow> bool" where
  "has_suffix s p \<longleftrightarrow> length p \<le> length s \<and> drop (length s - length p) s = p"

lemma split_on_not_Nil [simp]: "split_on c s \<noteq> []"
  by (induction s) (auto split: list.splits)

lemma split_on_no_sep: "c \<notin> set s \<Longrightarrow> split_on c s = [s]"
  by (induction s) auto

lemma split_on_append_sep:
  "c \<notin> set p \<Longrightarrow> split_on c (p @ c # s) = p # split_on c s"
  by (induction p) auto

lemma split_on_join:
  assumes "ps \<noteq> []" and "\<forall>p \<in> set ps. c \<notin> set p"
  shows "split_on c (join_with c ps) = ps"
  using assms
proof (induction c ps rule: join_with.induct)
  case (2 c p)
  then show ?case by (simp add: split_on_no_sep)
next
  case (3 c p q ps)
  then show ?case by (simp add: split_on_append_sep)
qed simp

lemma has_prefix_append [simp]: "has_prefix (p @ s) p"
  by (simp add: has_prefix_def)

lemma has_suffix_snoc [simp]: "has_suffix (s @ [x]) [c] \<longleftrightarrow> x = c"
  by (simp add: has_suffix_def)

lemma has_suffix_single: "has_suffix s [c] \<longleftrightarrow> s \<noteq> [] \<and> last s = c"
  by (cases s rule: rev_cases) (auto simp: has_suffix_def)

section \<open>Hexadecimal\<close>

definition hex_digit :: "nat \<Rightarrow> char" where
  "hex_digit n = (if n < 10 then char_of (48 + n) else char_of (87 + n))"

definition from_hex_char :: "char \<Rightarrow> nat option" where
  "from_hex_char c = (let n = of_char c :: nat in
     if 48 \<le> n \<and> n \<le> 57 then Some (n - 48)
     else if 97 \<le> n \<and> n \<le> 102 then Some (n - 87)
     else if 65 \<le> n \<and> n \<le> 70 then Some (n - 55)
     else None)"

text \<open>\<open>hex.EncodeToString\<close>: two lower-case digits per byte. \<open>%02x\<close> on a byte is the same.\<close>

definition hex_byte :: "8 word \<Rightarrow> string" where
  "hex_byte b = [hex_digit (unat b div 16), hex_digit (unat b mod 16)]"

definition hex_encode :: "bytes \<Rightarrow> string" where
  "hex_encode bs = concat (map hex_byte bs)"

text \<open>\<open>hex.DecodeString\<close>: both cases are read; an odd length or another byte is an error.\<close>

fun hex_decode :: "string \<Rightarrow> bytes go" where
  "hex_decode [] = Val []"
| "hex_decode [c] = (case from_hex_char c of
     None \<Rightarrow> Err (Foreign ''encoding/hex: invalid byte'')
   | Some _ \<Rightarrow> Err (Foreign ''encoding/hex: odd length hex string''))"
| "hex_decode (c # d # cs) = (case (from_hex_char c, from_hex_char d) of
     (Some a, Some b) \<Rightarrow> go_bind (hex_decode cs) (\<lambda>bs. Val (of_nat (16 * a + b) # bs))
   | _ \<Rightarrow> Err (Foreign ''encoding/hex: invalid byte''))"

lemma from_hex_hex_digit [simp]: "n < 16 \<Longrightarrow> from_hex_char (hex_digit n) = Some n"
  by (simp add: from_hex_char_def hex_digit_def Let_def)

lemma hex_decode_byte [simp]:
  "hex_decode (hex_byte b @ s) = go_bind (hex_decode s) (\<lambda>bs. Val (b # bs))"
proof -
  have "unat b < 256" using unsigned_less[of b] by simp
  then have "from_hex_char (hex_digit (unat b div 16)) = Some (unat b div 16)"
    and "from_hex_char (hex_digit (unat b mod 16)) = Some (unat b mod 16)" by simp_all
  moreover have "(word_of_nat (16 * (unat b div 16) + unat b mod 16) :: 8 word) = b"
    by (simp only: mult_div_mod_eq) simp
  ultimately show ?thesis by (simp add: hex_byte_def)
qed

lemma hex_decode_encode [simp]: "hex_decode (hex_encode bs) = Val bs"
  by (induction bs) (auto simp: hex_encode_def)

lemma length_hex_encode [simp]: "length (hex_encode bs) = 2 * length bs"
  by (induction bs) (auto simp: hex_encode_def hex_byte_def)

end
