(* ===== verification/Domain.thy ===== *)
theory Domain
  imports GoText
begin

text \<open>
  The chain-agnostic core types of \<^verbatim>\<open>internal/domain\<close>. Go's string types (\<open>ChainID\<close>,
  \<open>TxStatus\<close>, \<open>FeeSpeed\<close>, ...) admit every string, not only the declared constants, and
  the transports fill them from user input; they are strings here too, with the constants as
  definitions. \<open>Amount.Base\<close> is a pointer, so it can be \<open>None\<close>.
\<close>

section \<open>Chains and networks\<close>

type_synonym chain_id = string
type_synonym network_env = string
type_synonym address = string
type_synonym derivation_path = string
type_synonym tx_status = string
type_synonym fee_speed = string
type_synonym tx_event_type = string

text \<open>Instants are nanoseconds since the Unix epoch.\<close>

type_synonym time = int

definition ChainBitcoin :: chain_id where "ChainBitcoin = ''bitcoin''"
definition ChainEthereum :: chain_id where "ChainEthereum = ''ethereum''"
definition ChainBase :: chain_id where "ChainBase = ''base''"
definition ChainSolana :: chain_id where "ChainSolana = ''solana''"
definition ChainTron :: chain_id where "ChainTron = ''tron''"

lemmas chain_defs =
  ChainBitcoin_def ChainEthereum_def ChainBase_def ChainSolana_def ChainTron_def

lemma chains_distinct:
  "distinct [ChainBitcoin, ChainEthereum, ChainBase, ChainSolana, ChainTron]"
  by (simp add: chain_defs)

definition EnvLocal :: network_env where "EnvLocal = ''local''"
definition EnvTestnet :: network_env where "EnvTestnet = ''testnet''"
definition EnvMainnet :: network_env where "EnvMainnet = ''mainnet''"

record network =
  net_chain :: chain_id
  net_env :: network_env

section \<open>Assets and amounts\<close>

record asset =
  asset_symbol :: string
  asset_decimals :: "8 word"
  asset_native :: bool
  asset_contract :: string

record amount =
  amt_asset :: asset
  amt_base :: "int option"

definition zero_asset :: asset where
  "zero_asset = \<lparr>asset_symbol = [], asset_decimals = 0, asset_native = False, asset_contract = []\<rparr>"

definition native_asset :: "string \<Rightarrow> 8 word \<Rightarrow> asset" where
  "native_asset name dec = zero_asset\<lparr>asset_symbol := name, asset_decimals := dec, asset_native := True\<rparr>"

definition zero_amount :: amount where
  "zero_amount = \<lparr>amt_asset = zero_asset, amt_base = None\<rparr>"

text \<open>A method call through the pointer: on a nil pointer it panics.\<close>

definition base_of :: "amount \<Rightarrow> int go" where
  "base_of a = (case amt_base a of None \<Rightarrow> Panic | Some n \<Rightarrow> Val n)"

text \<open>\<open>(*big.Int).String\<close> prints \<open><nil>\<close> for a nil pointer.\<close>

definition base_string :: "amount \<Rightarrow> string" where
  "base_string a = (case amt_base a of None \<Rightarrow> ''<nil>'' | Some n \<Rightarrow> show_int n)"

lemma base_of_Some [simp]: "amt_base a = Some n \<Longrightarrow> base_of a = Val n"
  by (simp add: base_of_def)

section \<open>Fees\<close>

definition SpeedEconomy :: fee_speed where "SpeedEconomy = ''economy''"
definition SpeedStandard :: fee_speed where "SpeedStandard = ''standard''"
definition SpeedFast :: fee_speed where "SpeedFast = ''fast''"

lemmas speed_defs = SpeedEconomy_def SpeedStandard_def SpeedFast_def

record fee_estimate =
  fee_speed :: fee_speed
  fee_total :: amount
  fee_params :: "(string \<times> string) list"

text \<open>Reading a missing key of a \<open>map[string]string\<close> gives the empty string.\<close>

definition param :: "(string \<times> string) list \<Rightarrow> string \<Rightarrow> string" where
  "param ps k = (case map_of ps k of None \<Rightarrow> [] | Some v \<Rightarrow> v)"

section \<open>Wallets\<close>

record account =
  acc_chain :: chain_id
  acc_address :: address
  acc_path :: derivation_path

record wallet =
  w_id :: string
  w_label :: string
  w_created :: time
  w_accounts :: "account list"

fun find_account :: "account list \<Rightarrow> chain_id \<Rightarrow> account option" where
  "find_account [] c = None"
| "find_account (a # as) c = (if acc_chain a = c then Some a else find_account as c)"

definition wallet_account :: "wallet \<Rightarrow> chain_id \<Rightarrow> account option" where
  "wallet_account w c = find_account (w_accounts w) c"

definition zero_account :: account where
  "zero_account = \<lparr>acc_chain = [], acc_address = [], acc_path = []\<rparr>"

lemma find_account_find: "find_account as c = find (\<lambda>a. acc_chain a = c) as"
  by (induction as) auto

lemma find_account_Some: "find_account as c = Some a \<Longrightarrow> a \<in> set as \<and> acc_chain a = c"
  by (induction as) (auto split: if_splits)

lemma find_account_None: "find_account as c = None \<longleftrightarrow> c \<notin> acc_chain ` set as"
  by (induction as) auto

lemma find_account_distinct:
  "distinct (map acc_chain as) \<Longrightarrow> find_account as c = Some a \<longleftrightarrow> a \<in> set as \<and> acc_chain a = c"
  by (simp add: find_account_find find_key_iff)

section \<open>Transactions and events\<close>

definition TxPending :: tx_status where "TxPending = ''pending''"
definition TxConfirmed :: tx_status where "TxConfirmed = ''confirmed''"
definition TxFailed :: tx_status where "TxFailed = ''failed''"
definition TxUnknown :: tx_status where "TxUnknown = ''unknown''"

lemmas status_defs = TxPending_def TxConfirmed_def TxFailed_def TxUnknown_def

record transfer_request =
  req_network :: network
  req_from :: address
  req_to :: address
  req_amount :: amount
  req_speed :: fee_speed

record unsigned_tx =
  utx_chain :: chain_id
  utx_account :: account
  utx_request :: transfer_request
  utx_fee :: fee_estimate
  utx_payload :: bytes

record signed_tx =
  stx_chain :: chain_id
  stx_raw :: bytes
  stx_hash :: string

record transaction =
  tx_chain :: chain_id
  tx_hash :: string
  tx_status :: tx_status
  tx_confirmations :: "64 word"
  tx_block_height :: "64 word"
  tx_fee :: amount

text \<open>A composite literal with only chain, hash and status set.\<close>

definition bare_transaction :: "chain_id \<Rightarrow> string \<Rightarrow> tx_status \<Rightarrow> transaction" where
  "bare_transaction c h s = \<lparr>tx_chain = c, tx_hash = h, tx_status = s, tx_confirmations = 0,
     tx_block_height = 0, tx_fee = zero_amount\<rparr>"

definition EventInbound :: tx_event_type where "EventInbound = ''inbound''"
definition EventOutbound :: tx_event_type where "EventOutbound = ''outbound''"
definition EventConfirmed :: tx_event_type where "EventConfirmed = ''confirmed''"

lemmas event_type_defs = EventInbound_def EventOutbound_def EventConfirmed_def

record tx_event =
  ev_type :: tx_event_type
  ev_chain :: chain_id
  ev_address :: address
  ev_counterparty :: address
  ev_hash :: string
  ev_amount :: amount
  ev_status :: tx_status
  ev_height :: "64 word"
  ev_time :: time

end
