(* ===== verification/Ports.thy ===== *)
theory Ports
  imports Domain
begin

text \<open>
  The ports of \<^verbatim>\<open>internal/port\<close>. A Go interface value is a record of its methods; a
  method that acts on the outside takes and returns the world \<open>'w\<close>. The locales state what
  the clients of a port rely on; each is interpreted on the adapters of the program, in the
  theory of the adapter. \<open>context.Context\<close> only carries cancellation, which shows as an
  error of the call it interrupts; the loops that select on \<open>ctx.Done()\<close> model it.
\<close>

section \<open>Interfaces as records of methods\<close>

record signer =
  sg_sign :: "account \<Rightarrow> bytes \<Rightarrow> bytes go"
  sg_public_key :: "account \<Rightarrow> bytes go"

record 'w key_store =
  ks_create :: "string \<Rightarrow> bytes \<Rightarrow> ('w, bytes) io"
  ks_unlock :: "string \<Rightarrow> bytes \<Rightarrow> ('w, bytes) io"
  ks_signer :: "string \<Rightarrow> bytes \<Rightarrow> ('w, signer) io"

record 'w wallet_repo =
  wr_save :: "wallet \<Rightarrow> ('w, unit) io"
  wr_get :: "string \<Rightarrow> ('w, wallet) io"
  wr_list :: "('w, wallet list) io"

record 'w tx_repo =
  txr_save_event :: "string \<Rightarrow> tx_event \<Rightarrow> ('w, unit) io"

text \<open>\<open>Get\<close> returns \<open>(height, ok, err)\<close>: \<open>None\<close> is \<open>ok = false\<close>.\<close>

record 'w cursor_store =
  cs_get :: "chain_id \<Rightarrow> ('w, 64 word option) io"
  cs_set :: "chain_id \<Rightarrow> 64 word \<Rightarrow> ('w, unit) io"

record 'w publisher =
  pub_publish :: "tx_event \<Rightarrow> ('w, unit) io"

record 'w chain_adapter =
  ca_chain :: chain_id
  ca_derive_account :: "bytes \<Rightarrow> derivation_path \<Rightarrow> account go"
  ca_balance :: "address \<Rightarrow> asset \<Rightarrow> ('w, amount) io"
  ca_estimate_fee :: "transfer_request \<Rightarrow> ('w, fee_estimate) io"
  ca_build_transfer :: "transfer_request \<Rightarrow> ('w, unsigned_tx) io"
  ca_sign :: "unsigned_tx \<Rightarrow> signer \<Rightarrow> signed_tx go"
  ca_broadcast :: "signed_tx \<Rightarrow> ('w, string) io"
  ca_get_transaction :: "string \<Rightarrow> ('w, transaction) io"

text \<open>\<open>Watch\<close> starts the watcher; the channel it returns is identified by \<open>'c\<close>.\<close>

record ('w, 'c) chain_watcher =
  cw_chain :: chain_id
  cw_watch :: "address list \<Rightarrow> ('w, 'c) io"

text \<open>
  \<open>Supported\<close> reads the registry's map in an order that may differ from call to call; the
  record holds the answer of the call that is being looked at.
\<close>

record ('w, 'c) registry_port =
  rg_adapter :: "chain_id \<Rightarrow> 'w chain_adapter go"
  rg_watcher :: "chain_id \<Rightarrow> ('w, 'c) chain_watcher go"
  rg_supported :: "chain_id list"

section \<open>The registry contract\<close>

text \<open>
  \<open>Supported\<close> lists every chain with an adapter, once; an adapter is found under its own
  chain, and the accounts it derives are accounts of that chain.
\<close>

locale registry_laws =
  fixes rg :: "('w, 'c) registry_port"
  assumes supported_distinct: "distinct (rg_supported rg)"
    and supported_iff: "c \<in> set (rg_supported rg) \<longleftrightarrow> (\<exists>a. rg_adapter rg c = Val a)"
    and adapter_chain: "rg_adapter rg c = Val a \<Longrightarrow> ca_chain a = c"
    and derive_chain:
      "\<lbrakk>rg_adapter rg c = Val a; ca_derive_account a s p = Val acc\<rbrakk> \<Longrightarrow> acc_chain acc = c"
begin

lemma supported_adapter: "c \<in> set (rg_supported rg) \<Longrightarrow> \<exists>a. rg_adapter rg c = Val a \<and> ca_chain a = c"
  using supported_iff adapter_chain by blast

lemma unsupported_adapter: "c \<notin> set (rg_supported rg) \<Longrightarrow> rg_adapter rg c \<noteq> Val a"
  using supported_iff by blast

end

section \<open>The wallet repository contract\<close>

text \<open>
  What a repository must give back after a successful save: the identity and the label, and
  for each saved account that account when its chain is looked up. A repository may keep
  accounts saved earlier for chains the new value does not mention.
\<close>

definition distinct_chains :: "wallet \<Rightarrow> bool" where
  "distinct_chains w \<longleftrightarrow> distinct (map acc_chain (w_accounts w))"

definition stored_as :: "wallet \<Rightarrow> wallet \<Rightarrow> bool" where
  "stored_as w v \<longleftrightarrow> w_id v = w_id w \<and> w_label v = w_label w \<and>
     (\<forall>a \<in> set (w_accounts w). wallet_account v (acc_chain a) = Some a)"

lemma stored_as_refl: "distinct_chains w \<Longrightarrow> stored_as w w"
  by (simp add: stored_as_def distinct_chains_def wallet_account_def find_account_distinct)

text \<open>The same wallet but for the order of its accounts, which a table does not keep.\<close>

definition same_wallet :: "wallet \<Rightarrow> wallet \<Rightarrow> bool" where
  "same_wallet v x \<longleftrightarrow> w_id x = w_id v \<and> w_label x = w_label v \<and> w_created x = w_created v \<and>
     (\<forall>c. wallet_account x c = wallet_account v c)"

lemma same_wallet_refl [simp]: "same_wallet v v"
  by (simp add: same_wallet_def)

lemma stored_as_same: "stored_as w v \<Longrightarrow> same_wallet v x \<Longrightarrow> stored_as w x"
  by (simp add: stored_as_def same_wallet_def)

locale wallet_store =
  fixes repo :: "'w wallet_repo"
    and view :: "'w \<Rightarrow> string \<Rightarrow> wallet option"
    and inv :: "'w \<Rightarrow> bool"
  assumes save_ok:
      "\<lbrakk>inv w; distinct_chains x; wr_save repo x w = (Val (), w')\<rbrakk> \<Longrightarrow>
         inv w' \<and> (\<exists>v. view w' (w_id x) = Some v \<and> stored_as x v) \<and>
         (\<forall>i. i \<noteq> w_id x \<longrightarrow> view w' i = view w i)"
    and get_ok:
      "\<lbrakk>inv w; wr_get repo i w = (Val x, w')\<rbrakk> \<Longrightarrow>
         inv w' \<and> view w' = view w \<and> (\<exists>v. view w i = Some v \<and> same_wallet v x)"
    and get_missing:
      "\<lbrakk>inv w; view w i = None\<rbrakk> \<Longrightarrow> \<exists>e w'. wr_get repo i w = (Err e, w')"
    and list_ok:
      "\<lbrakk>inv w; wr_list repo w = (Val xs, w')\<rbrakk> \<Longrightarrow>
         inv w' \<and> view w' = view w \<and> distinct (map w_id xs) \<and>
         (\<forall>i. i \<in> w_id ` set xs \<longleftrightarrow> view w i \<noteq> None) \<and>
         (\<forall>x \<in> set xs. \<exists>v. view w (w_id x) = Some v \<and> same_wallet v x)"
begin

lemma list_account:
  assumes "inv w" and "wr_list repo w = (Val xs, w')"
  shows "(\<exists>x \<in> set xs. w_id x = i \<and> wallet_account x c = Some a) \<longleftrightarrow>
         (\<exists>v. view w i = Some v \<and> wallet_account v c = Some a)"
proof -
  note l = list_ok[OF assms]
  have same: "wallet_account x c = wallet_account v c"
    if "x \<in> set xs" and "view w (w_id x) = Some v" for x v
    using l that by (fastforce simp: same_wallet_def)
  have "\<exists>x \<in> set xs. w_id x = i" if "view w i = Some v" for v
    using l that by (metis image_iff option.distinct(1))
  moreover have "\<exists>v. view w (w_id x) = Some v" if "x \<in> set xs" for x using l that by blast
  ultimately show ?thesis using same by metis
qed

lemma save_get:
  assumes "inv w" and "distinct_chains x" and "wr_save repo x w = (Val (), w1)"
    and "wr_get repo (w_id x) w1 = (Val y, w2)"
  shows "stored_as x y"
proof -
  from save_ok[OF assms(1-3)] obtain v where
    v: "inv w1" "view w1 (w_id x) = Some v" "stored_as x v" by blast
  from get_ok[OF v(1) assms(4)] v(2) have "same_wallet v y" by simp
  with v(3) show ?thesis by (rule stored_as_same)
qed

lemma save_get_other:
  assumes "inv w" and "distinct_chains x" and "wr_save repo x w = (Val (), w1)"
    and "i \<noteq> w_id x" and "wr_get repo i w1 = (Val y, w2)"
  shows "\<exists>v. view w i = Some v \<and> same_wallet v y"
  using save_ok[OF assms(1-3)] get_ok[OF _ assms(5)] assms(4) by auto

lemma save_get_account:
  assumes "inv w" and "distinct_chains x" and "wr_save repo x w = (Val (), w1)"
    and "wr_get repo (w_id x) w1 = (Val y, w2)" and "wallet_account x c = Some a"
  shows "wallet_account y c = Some a"
proof -
  from save_get[OF assms(1-4)] have "stored_as x y" .
  moreover from assms(5) have "a \<in> set (w_accounts x)" "acc_chain a = c"
    by (auto simp: wallet_account_def dest: find_account_Some)
  ultimately show ?thesis by (auto simp: stored_as_def)
qed

end

section \<open>The key store contract\<close>

text \<open>
  \<open>sealed w i p s\<close>: in world \<open>w\<close> the store holds seed \<open>s\<close> for wallet \<open>i\<close>,
  sealed under passphrase \<open>p\<close>. \<open>trusted\<close> says that the cryptography and the randomness
  beneath behave as documented; without it nothing is promised about a created seed.
\<close>

locale sealed_keys =
  fixes ks :: "'w key_store"
    and sealed :: "'w \<Rightarrow> string \<Rightarrow> bytes \<Rightarrow> bytes \<Rightarrow> bool"
    and inv :: "'w \<Rightarrow> bool"
    and trusted :: bool
  assumes create_ok:
      "\<lbrakk>trusted; inv w; ks_create ks i p w = (Val s, w')\<rbrakk> \<Longrightarrow>
         inv w' \<and> sealed w' i p s \<and> (\<forall>j q t. j \<noteq> i \<longrightarrow> sealed w' j q t \<longleftrightarrow> sealed w j q t)"
    and unlock_ok:
      "\<lbrakk>inv w; ks_unlock ks i p w = (Val t, w')\<rbrakk> \<Longrightarrow>
         inv w' \<and> sealed w i p t \<and> sealed w' = sealed w"
    and sealed_unique: "\<lbrakk>sealed w i p s; sealed w i p t\<rbrakk> \<Longrightarrow> s = t"
    and signer_unlocks:
      "\<lbrakk>inv w; ks_signer ks i p w = (Val sg, w')\<rbrakk> \<Longrightarrow> \<exists>s. ks_unlock ks i p w = (Val s, w')"
begin

lemma create_unlock:
  assumes trusted and "inv w" and "ks_create ks i p w = (Val s, w1)" and "ks_unlock ks i p w1 = (Val t, w2)"
  shows "t = s"
  using create_ok[OF assms(1-3)] unlock_ok[OF _ assms(4)] sealed_unique by blast

lemma create_other_unlock:
  assumes trusted and "inv w" and "sealed w j q t" and "ks_create ks i p w = (Val s, w1)" and "j \<noteq> i"
    and "ks_unlock ks j q w1 = (Val u, w2)"
  shows "u = t"
  using create_ok[OF assms(1,2,4)] unlock_ok[OF _ assms(6)] assms(3,5) sealed_unique by blast

end

section \<open>The cursor store contract\<close>

locale cursor_laws =
  fixes cs :: "'w cursor_store"
    and view :: "'w \<Rightarrow> chain_id \<Rightarrow> 64 word option"
    and inv :: "'w \<Rightarrow> bool"
  assumes set_ok:
      "\<lbrakk>inv w; cs_set cs c h w = (Val (), w')\<rbrakk> \<Longrightarrow> inv w' \<and> view w' = (view w)(c \<mapsto> h)"
    and get_ok:
      "\<lbrakk>inv w; cs_get cs c w = (Val r, w')\<rbrakk> \<Longrightarrow> inv w' \<and> view w' = view w \<and> r = view w c"
begin

lemma set_get:
  assumes "inv w" and "cs_set cs c h w = (Val (), w1)" and "cs_get cs c w1 = (Val r, w2)"
  shows "r = Some h"
  using set_ok[OF assms(1,2)] get_ok[OF _ assms(3)] by simp

lemma set_get_other:
  assumes "inv w" and "cs_set cs c h w = (Val (), w1)" and "d \<noteq> c"
    and "cs_get cs d w1 = (Val r, w2)"
  shows "r = view w d"
  using set_ok[OF assms(1,2)] get_ok[OF _ assms(4)] assms(3) by simp

end

end
