(* ===== verification/Sha512.thy ===== *)
theory Sha512
  imports Prelude
begin

text \<open>
  \<open>crypto/sha512\<close> and \<open>crypto/hmac\<close> of Go's standard library, as far as key derivation
  uses them: SHA-512 as FIPS 180-4 defines it and HMAC (RFC 2104) over it, on byte lists.
  Everything is executable; the only facts the rest of the development needs are the lengths.
\<close>

section \<open>SHA-512\<close>

type_synonym u64 = "64 word"

definition sha512_K :: "u64 list" where
  "sha512_K = [
    0x428a2f98d728ae22, 0x7137449123ef65cd, 0xb5c0fbcfec4d3b2f,
    0xe9b5dba58189dbbc, 0x3956c25bf348b538, 0x59f111f1b605d019,
    0x923f82a4af194f9b, 0xab1c5ed5da6d8118, 0xd807aa98a3030242,
    0x12835b0145706fbe, 0x243185be4ee4b28c, 0x550c7dc3d5ffb4e2,
    0x72be5d74f27b896f, 0x80deb1fe3b1696b1, 0x9bdc06a725c71235,
    0xc19bf174cf692694, 0xe49b69c19ef14ad2, 0xefbe4786384f25e3,
    0x0fc19dc68b8cd5b5, 0x240ca1cc77ac9c65, 0x2de92c6f592b0275,
    0x4a7484aa6ea6e483, 0x5cb0a9dcbd41fbd4, 0x76f988da831153b5,
    0x983e5152ee66dfab, 0xa831c66d2db43210, 0xb00327c898fb213f,
    0xbf597fc7beef0ee4, 0xc6e00bf33da88fc2, 0xd5a79147930aa725,
    0x06ca6351e003826f, 0x142929670a0e6e70, 0x27b70a8546d22ffc,
    0x2e1b21385c26c926, 0x4d2c6dfc5ac42aed, 0x53380d139d95b3df,
    0x650a73548baf63de, 0x766a0abb3c77b2a8, 0x81c2c92e47edaee6,
    0x92722c851482353b, 0xa2bfe8a14cf10364, 0xa81a664bbc423001,
    0xc24b8b70d0f89791, 0xc76c51a30654be30, 0xd192e819d6ef5218,
    0xd69906245565a910, 0xf40e35855771202a, 0x106aa07032bbd1b8,
    0x19a4c116b8d2d0c8, 0x1e376c085141ab53, 0x2748774cdf8eeb99,
    0x34b0bcb5e19b48a8, 0x391c0cb3c5c95a63, 0x4ed8aa4ae3418acb,
    0x5b9cca4f7763e373, 0x682e6ff3d6b2b8a3, 0x748f82ee5defb2fc,
    0x78a5636f43172f60, 0x84c87814a1f0ab72, 0x8cc702081a6439ec,
    0x90befffa23631e28, 0xa4506cebde82bde9, 0xbef9a3f7b2c67915,
    0xc67178f2e372532b, 0xca273eceea26619c, 0xd186b8c721c0c207,
    0xeada7dd6cde0eb1e, 0xf57d4f7fee6ed178, 0x06f067aa72176fba,
    0x0a637dc5a2c898a6, 0x113f9804bef90dae, 0x1b710b35131c471b,
    0x28db77f523047d84, 0x32caab7b40c72493, 0x3c9ebe0a15c9bebc,
    0x431d67c49c100d4c, 0x4cc5d4becb3e42b6, 0x597f299cfc657e2a,
    0x5fcb6fab3ad6faec, 0x6c44198c4a475817]"

definition rotr :: "nat \<Rightarrow> u64 \<Rightarrow> u64" where
  "rotr n x = or (drop_bit n x) (push_bit (64 - n) x)"

definition sigma0 :: "u64 \<Rightarrow> u64" where
  "sigma0 x = xor (xor (rotr 1 x) (rotr 8 x)) (drop_bit 7 x)"

definition sigma1 :: "u64 \<Rightarrow> u64" where
  "sigma1 x = xor (xor (rotr 19 x) (rotr 61 x)) (drop_bit 6 x)"

definition Sigma0 :: "u64 \<Rightarrow> u64" where
  "Sigma0 x = xor (xor (rotr 28 x) (rotr 34 x)) (rotr 39 x)"

definition Sigma1 :: "u64 \<Rightarrow> u64" where
  "Sigma1 x = xor (xor (rotr 14 x) (rotr 18 x)) (rotr 41 x)"

definition ch :: "u64 \<Rightarrow> u64 \<Rightarrow> u64 \<Rightarrow> u64" where
  "ch x y z = xor (and x y) (and (not x) z)"

definition maj :: "u64 \<Rightarrow> u64 \<Rightarrow> u64 \<Rightarrow> u64" where
  "maj x y z = xor (xor (and x y) (and x z)) (and y z)"

type_synonym hash_state = "u64 \<times> u64 \<times> u64 \<times> u64 \<times> u64 \<times> u64 \<times> u64 \<times> u64"

definition sha512_init :: hash_state where
  "sha512_init = (
    0x6a09e667f3bcc908, 0xbb67ae8584caa73b, 0x3c6ef372fe94f82b, 0xa54ff53a5f1d36f1, 0x510e527fade682d1, 0x9b05688c2b3e6c1f, 0x1f83d9abfb41bd6b, 0x5be0cd19137e2179)"

definition sha512_round :: "u64 \<Rightarrow> u64 \<Rightarrow> hash_state \<Rightarrow> hash_state" where
  "sha512_round k w st = (case st of (a, b, c, d, e, f, g, h) \<Rightarrow>
     let t1 = h + Sigma1 e + ch e f g + k + w;
         t2 = Sigma0 a + maj a b c
     in (t1 + t2, a, b, c, d + t1, e, f, g))"

text \<open>The window holds the last sixteen words of the message schedule, oldest first.\<close>

definition next_word :: "u64 list \<Rightarrow> u64" where
  "next_word w = sigma1 (w ! 14) + w ! 9 + sigma0 (w ! 1) + w ! 0"

fun sha512_rounds :: "u64 list \<Rightarrow> u64 list \<Rightarrow> hash_state \<Rightarrow> hash_state" where
  "sha512_rounds [] w st = st"
| "sha512_rounds (k # ks) w st =
     sha512_rounds ks (tl w @ [next_word w]) (sha512_round k (hd w) st)"

definition add_state :: "hash_state \<Rightarrow> hash_state \<Rightarrow> hash_state" where
  "add_state s t = (case (s, t) of ((a, b, c, d, e, f, g, h), (a', b', c', d', e', f', g', h')) \<Rightarrow>
     (a + a', b + b', c + c', d + d', e + e', f + f', g + g', h + h'))"

definition be_word :: "bytes \<Rightarrow> u64" where
  "be_word bs = foldl (\<lambda>acc b. acc * 256 + ucast b) 0 bs"

definition word_be :: "u64 \<Rightarrow> bytes" where
  "word_be w = map (\<lambda>i. ucast (drop_bit (8 * i) w)) [7, 6, 5, 4, 3, 2, 1, 0]"

fun words_of :: "bytes \<Rightarrow> u64 list" where
  "words_of (a # b # c # d # e # f # g # h # bs) = be_word [a, b, c, d, e, f, g, h] # words_of bs"
| "words_of bs = []"

fun sha512_blocks :: "u64 list \<Rightarrow> hash_state \<Rightarrow> hash_state" where
  "sha512_blocks ws st =
     (if length ws < 16 then st
      else sha512_blocks (drop 16 ws) (add_state st (sha512_rounds sha512_K (take 16 ws) st)))"

declare sha512_blocks.simps [simp del]

definition sha512_pad :: "bytes \<Rightarrow> bytes" where
  "sha512_pad m = m @ [0x80] @ replicate ((239 - length m mod 128) mod 128) 0 @
     word_be 0 @ word_be (of_nat (8 * length m))"

definition state_bytes :: "hash_state \<Rightarrow> bytes" where
  "state_bytes st = (case st of (a, b, c, d, e, f, g, h) \<Rightarrow>
     concat (map word_be [a, b, c, d, e, f, g, h]))"

definition sha512 :: "bytes \<Rightarrow> bytes" where
  "sha512 m = state_bytes (sha512_blocks (words_of (sha512_pad m)) sha512_init)"

lemma length_word_be [simp]: "length (word_be w) = 8"
  by (simp add: word_be_def)

lemma length_sha512 [simp]: "length (sha512 m) = 64"
  by (simp add: sha512_def state_bytes_def split: prod.splits)

section \<open>HMAC-SHA512\<close>

definition hmac_key :: "bytes \<Rightarrow> bytes" where
  "hmac_key k = (let k' = if length k > 128 then sha512 k else k
                 in k' @ replicate (128 - length k') 0)"

definition hmac_sha512 :: "bytes \<Rightarrow> bytes \<Rightarrow> bytes" where
  "hmac_sha512 k m = (let k' = hmac_key k in
     sha512 (map (xor 0x5c) k' @ sha512 (map (xor 0x36) k' @ m)))"

lemma length_hmac_sha512 [simp]: "length (hmac_sha512 k m) = 64"
  by (simp add: hmac_sha512_def Let_def)

end
