(* ===== verification/HdWallet.thy ===== *)
theory HdWallet
  imports Sha512 Domain
begin

text \<open>
  \<^verbatim>\<open>internal/hdwallet/hdwallet.go\<close>: derivation paths and the two derivations shared by the
  chain adapters. BIP-32 itself is btcd's \<open>hdkeychain\<close>, a parameter of type
  \<open>'k hdkeychain\<close> (an extended key is an opaque \<open>'k\<close>); SLIP-0010 for ed25519 is the
  program's own code and is modelled down to HMAC-SHA512.
\<close>

section \<open>Derivation paths\<close>

definition hardened_key_start :: "32 word" where
  "hardened_key_start = 0x80000000"

definition apostrophe :: char where "apostrophe = CHR 0x27"

definition parse_component :: "string \<Rightarrow> 32 word go" where
  "parse_component p0 =
     (let hardened = has_suffix p0 [apostrophe];
          p = (if hardened then take (length p0 - 1) p0 else p0)
      in case parse_uint 32 p of
           None \<Rightarrow> Err (Errorf ''hdwallet: invalid path component %q'' [AStr p])
         | Some n \<Rightarrow>
             (let idx = (word_of_nat n :: 32 word)
              in Val (if hardened then idx + hardened_key_start else idx)))"

fun parse_components :: "string list \<Rightarrow> 32 word list go" where
  "parse_components [] = Val []"
| "parse_components (p # ps) =
     go_bind (parse_component p) (\<lambda>i. go_bind (parse_components ps) (\<lambda>is. Val (i # is)))"

definition parse_path :: "derivation_path \<Rightarrow> 32 word list go" where
  "parse_path s =
     (if \<not> has_prefix s ''m/''
      then Err (Errorf ''hdwallet: path must start with m/: %q'' [AStr s])
      else parse_components (split_on CHR ''/'' (drop 2 s)))"

text \<open>
  The notation of a path: an index and whether it is hardened, per component. \<open>index_of\<close> is
  the index BIP-32 assigns to it.
\<close>

definition render_component :: "nat \<times> bool \<Rightarrow> string" where
  "render_component c = show_nat (fst c) @ (if snd c then [apostrophe] else [])"

definition render_path :: "(nat \<times> bool) list \<Rightarrow> string" where
  "render_path cs = ''m/'' @ join_with CHR ''/'' (map render_component cs)"

definition index_of :: "nat \<times> bool \<Rightarrow> 32 word" where
  "index_of c = word_of_nat (fst c) + (if snd c then hardened_key_start else 0)"

lemma apostrophe_not_digit: "apostrophe \<notin> set (show_nat n)"
  by (rule show_nat_no_char) (simp add: apostrophe_def)

lemma slash_not_in_component: "CHR ''/'' \<notin> set (render_component c)"
  using show_nat_no_char[of "CHR ''/''" "fst c"]
  by (simp add: render_component_def apostrophe_def)

lemma has_suffix_show_nat [simp]: "\<not> has_suffix (show_nat n) [apostrophe]"
  using apostrophe_not_digit[of n] last_in_set[OF show_nat_not_Nil[of n]]
  by (metis has_suffix_single)

lemma parse_component_render:
  assumes "fst c < 2 ^ 32"
  shows "parse_component (render_component c) = Val (index_of c)"
  using assms
  by (cases c) (auto simp: parse_component_def render_component_def index_of_def Let_def
      parse_uint_show_nat)

lemma parse_components_render:
  "\<forall>c \<in> set cs. fst c < 2 ^ 32 \<Longrightarrow>
     parse_components (map render_component cs) = Val (map index_of cs)"
  by (induction cs) (auto simp: parse_component_render)

lemma parse_path_render:
  assumes "cs \<noteq> []" and "\<forall>c \<in> set cs. fst c < 2 ^ 32"
  shows "parse_path (render_path cs) = Val (map index_of cs)"
proof -
  have "split_on CHR ''/'' (join_with CHR ''/'' (map render_component cs)) = map render_component cs"
    using assms(1) slash_not_in_component by (intro split_on_join) auto
  moreover have "drop 2 (render_path cs) = join_with CHR ''/'' (map render_component cs)"
    by (simp add: render_path_def)
  moreover have "has_prefix (render_path cs) ''m/''"
    by (simp add: render_path_def has_prefix_def)
  ultimately show ?thesis
    using assms(2) by (simp add: parse_path_def parse_components_render)
qed

lemma length_parse_components: "parse_components ps = Val is \<Longrightarrow> length is = length ps"
  by (induction ps arbitrary: "is") (auto simp: go_bind_Val_iff)

lemma parse_path_not_Nil: "parse_path s = Val is \<Longrightarrow> is \<noteq> []"
  by (auto simp: parse_path_def split: if_splits dest!: length_parse_components)

section \<open>BIP-32 derivation\<close>

record 'k hdkeychain =
  hk_new_master :: "bytes \<Rightarrow> 'k go"
  hk_derive :: "'k \<Rightarrow> 32 word \<Rightarrow> 'k go"
  hk_ec_priv_key :: "'k \<Rightarrow> bytes go"
  hk_ec_pub_key :: "'k \<Rightarrow> bytes go"

fun derive_steps :: "'k hdkeychain \<Rightarrow> 'k \<Rightarrow> 32 word list \<Rightarrow> 'k go" where
  "derive_steps hk key [] = Val key"
| "derive_steps hk key (idx # is) =
     go_bind (go_wrap (Wrapf ''hdwallet: derive index %d: %w'' [AInt (uint idx)]) (hk_derive hk key idx))
       (\<lambda>key'. derive_steps hk key' is)"

definition derive_key :: "'k hdkeychain \<Rightarrow> bytes \<Rightarrow> derivation_path \<Rightarrow> 'k go" where
  "derive_key hk seed path =
     go_bind (go_wrap (Wrapf ''hdwallet: master key: %w'' []) (hk_new_master hk seed)) (\<lambda>master.
     go_bind (parse_path path) (\<lambda>indices.
     derive_steps hk master indices))"

lemma derive_steps_append:
  "derive_steps hk key (xs @ ys) = go_bind (derive_steps hk key xs) (\<lambda>k. derive_steps hk k ys)"
proof (induction xs arbitrary: key)
  case Nil
  then show ?case by simp
next
  case (Cons x xs)
  then show ?case by (cases "hk_derive hk key x") auto
qed

section \<open>SLIP-0010 derivation for ed25519\<close>

definition put_uint32_be :: "32 word \<Rightarrow> bytes" where
  "put_uint32_be v = [ucast (drop_bit 24 v), ucast (drop_bit 16 v), ucast (drop_bit 8 v), ucast v]"

fun ed25519_steps :: "bytes \<Rightarrow> bytes \<Rightarrow> 32 word list \<Rightarrow> bytes go" where
  "ed25519_steps key chain_code [] = Val key"
| "ed25519_steps key chain_code (idx # is) =
     (if idx < hardened_key_start
      then Err (Errorf ''hdwallet: ed25519 path requires all-hardened indices, got %d'' [AInt (uint idx)])
      else let data = [0x00] @ key @ put_uint32_be idx;
               I = hmac_sha512 chain_code data
           in ed25519_steps (take 32 I) (drop 32 I) is)"

definition derive_key_ed25519 :: "bytes \<Rightarrow> derivation_path \<Rightarrow> bytes go" where
  "derive_key_ed25519 seed path =
     (let I = hmac_sha512 (bytes_of ''ed25519 seed'') seed
      in go_bind (parse_path path) (\<lambda>indices.
         go_bind (ed25519_steps (take 32 I) (drop 32 I) indices) (\<lambda>key.
         Val (take 32 (key @ replicate 32 0)))))"

lemma ed25519_steps_length:
  "length key = 32 \<Longrightarrow> ed25519_steps key cc is = Val k \<Longrightarrow> length k = 32"
  by (induction key cc "is" rule: ed25519_steps.induct) (auto simp: Let_def split: if_splits)

lemma ed25519_steps_hardened:
  "(\<exists>k. ed25519_steps key cc is = Val k) \<longleftrightarrow> (\<forall>i \<in> set is. hardened_key_start \<le> i)"
  by (induction key cc "is" rule: ed25519_steps.induct) (auto simp: Let_def not_less)

lemma ed25519_steps_no_panic: "ed25519_steps key cc is \<noteq> Panic"
  by (induction key cc "is" rule: ed25519_steps.induct) (auto simp: Let_def)

text \<open>The private key seed is 32 bytes, the input \<open>ed25519.NewKeyFromSeed\<close> requires.\<close>

lemma derive_key_ed25519_length: "derive_key_ed25519 seed path = Val k \<Longrightarrow> length k = 32"
  by (auto simp: derive_key_ed25519_def go_bind_Val_iff Let_def)

lemma parse_component_no_panic: "parse_component p \<noteq> Panic"
  by (auto simp: parse_component_def Let_def split: option.splits)

lemma parse_components_no_panic: "parse_components ps \<noteq> Panic"
proof (induction ps)
  case (Cons p ps)
  then show ?case
    using parse_component_no_panic[of p]
    by (cases "parse_component p"; cases "parse_components ps") auto
qed simp

lemma parse_path_no_panic: "parse_path s \<noteq> Panic"
  by (simp add: parse_path_def parse_components_no_panic)

lemma derive_key_ed25519_no_panic: "derive_key_ed25519 seed path \<noteq> Panic"
  using parse_path_no_panic[of path] ed25519_steps_no_panic
  by (cases "parse_path path")
    (auto simp: derive_key_ed25519_def Let_def split: go.splits elim!: go_bind.elims)

section \<open>What the two derivations guarantee\<close>

lemma derive_key_ed25519_iff:
  "(\<exists>k. derive_key_ed25519 seed path = Val k) \<longleftrightarrow>
     (\<exists>is. parse_path path = Val is \<and> (\<forall>i \<in> set is. hardened_key_start \<le> i))"
proof -
  have "(\<exists>k. derive_key_ed25519 seed path = Val k) \<longleftrightarrow> (\<exists>is. parse_path path = Val is \<and>
      (\<exists>k. ed25519_steps (take 32 (hmac_sha512 (bytes_of ''ed25519 seed'') seed))
             (drop 32 (hmac_sha512 (bytes_of ''ed25519 seed'') seed)) is = Val k))"
    by (auto simp: derive_key_ed25519_def go_bind_Val_iff Let_def)
  then show ?thesis by (simp only: ed25519_steps_hardened)
qed

text \<open>
  C27. Parsing is the inverse of writing a path down: every non-empty path whose numbers fit in
  32 bits is accepted and gives the index of each component, the hardened ones offset by
  \<open>0x80000000\<close>; and a path that BIP-32 can express (numbers below $2^{31}$) is not confused
  with another.
\<close>

theorem parse_path_roundtrip:
  assumes "cs \<noteq> []" and "\<forall>c \<in> set cs. fst c < 2 ^ 32"
  shows "parse_path (render_path cs) = Val (map index_of cs) \<and>
         (\<forall>c \<in> set cs. \<forall>d. fst c < 2 ^ 31 \<longrightarrow> fst d < 2 ^ 31 \<longrightarrow> index_of c = index_of d \<longrightarrow> c = d)"
proof (intro conjI ballI allI impI)
  show "parse_path (render_path cs) = Val (map index_of cs)" using assms by (rule parse_path_render)
next
  fix c d :: "nat \<times> bool"
  assume lt: "fst c < 2 ^ 31" "fst d < 2 ^ 31" and eq: "index_of c = index_of d"
  have val: "unat (index_of e) = fst e + (if snd e then 2 ^ 31 else 0)" if "fst e < 2 ^ 31" for e
    using that by (simp add: index_of_def hardened_key_start_def unat_word_ariths unat_of_nat
        take_bit_nat_eq_self_iff take_bit_nat_eq_self)
  have "fst c + (if snd c then 2 ^ 31 else 0) = fst d + (if snd d then 2 ^ 31 else (0::nat))"
    using eq val[OF lt(1)] val[OF lt(2)] by simp
  with lt show "c = d" by (cases c; cases d) (auto split: if_splits)
qed

theorem parse_path_roundtrip_witness:
  "parse_path (render_path [(44, True), (0, False)]) = Val [0x8000002C, 0]"
  using parse_path_roundtrip[of "[(44, True), (0, False)]"]
  by (simp add: index_of_def hardened_key_start_def)

text \<open>
  A hardened component of $2^{31}$ or more, which BIP-32 does not have, is not rejected: adding
  the hardened offset wraps around in 32 bits, and the path means the one with that component
  not hardened and $2^{31}$ smaller.
\<close>

lemma hardened_index_wraps:
  assumes "2 ^ 31 \<le> n" and "n < 2 ^ 32"
  shows "parse_path (render_path [(n, True)]) = parse_path (render_path [(n - 2 ^ 31, False)]) \<and>
         parse_path (render_path [(n, True)]) = Val [word_of_nat (n - 2 ^ 31)]"
proof -
  have "(word_of_nat n :: 32 word) = word_of_nat (n - 2 ^ 31) + word_of_nat (2 ^ 31)"
    using assms(1) by (simp flip: of_nat_add)
  then have "index_of (n, True) = word_of_nat (n - 2 ^ 31)"
    by (simp add: index_of_def hardened_key_start_def)
  moreover have "index_of (n - 2 ^ 31, False) = word_of_nat (n - 2 ^ 31)" by (simp add: index_of_def)
  ultimately show ?thesis using assms by (simp add: parse_path_render)
qed

text \<open>
  C40. The ed25519 derivation succeeds for exactly the paths that parse and have only hardened
  components; the key it gives has the 32 bytes \<open>ed25519.NewKeyFromSeed\<close> asks for, and it
  never panics.
\<close>

theorem ed25519_all_hardened:
  "((\<exists>k. derive_key_ed25519 seed path = Val k) \<longleftrightarrow>
      (\<exists>is. parse_path path = Val is \<and> (\<forall>i \<in> set is. hardened_key_start \<le> i))) \<and>
   (\<forall>k. derive_key_ed25519 seed path = Val k \<longrightarrow> length k = 32) \<and>
   derive_key_ed25519 seed path \<noteq> Panic"
  using derive_key_ed25519_iff derive_key_ed25519_length derive_key_ed25519_no_panic by blast

theorem ed25519_all_hardened_witness:
  "(\<exists>k. derive_key_ed25519 [1, 2] (render_path [(44, True), (501, True)]) = Val k \<and> length k = 32) \<and>
   (\<nexists>k. derive_key_ed25519 [1, 2] (render_path [(44, True), (0, False)]) = Val k)"
proof -
  have "parse_path (render_path [(44, True), (501, True)]) = Val [0x8000002C, 0x800001F5]"
    and "parse_path (render_path [(44, True), (0, False)]) = Val [0x8000002C, 0]"
    by (simp_all add: parse_path_render index_of_def hardened_key_start_def)
  then show ?thesis
    using ed25519_all_hardened[of "[1, 2]" "render_path [(44, True), (501, True)]"]
      ed25519_all_hardened[of "[1, 2]" "render_path [(44, True), (0, False)]"]
    by (auto simp: hardened_key_start_def)
qed

end
