(* ===== verification/Float64.thy ===== *)
theory Float64
  imports Prelude Complex_Main
begin

text \<open>
  Go's \<open>float64\<close> as the program meets it: finite values decoded from JSON, multiplied and
  divided by constants and truncated to an integer. A value is the rational it denotes; every
  operation rounds its exact result to 53 significant bits, ties to even. Values too large or
  too small for the exponent range do not occur in the program's use (fee rates and coin
  amounts) and are not modelled.
\<close>

type_synonym float64 = rat

section \<open>Rounding to 53 bits\<close>

definition round_half_even :: "rat \<Rightarrow> int" where
  "round_half_even x =
     (let f = \<lfloor>x\<rfloor>; r = x - of_int f
      in if r < 1 / 2 then f else if r > 1 / 2 then f + 1 else if even f then f else f + 1)"

function ilog2 :: "int \<Rightarrow> nat" where
  "ilog2 n = (if n \<le> 1 then 0 else Suc (ilog2 (n div 2)))"
  by pat_completeness auto
termination by (relation "measure nat") auto

declare ilog2.simps [simp del]

definition two_powi :: "int \<Rightarrow> rat" where
  "two_powi e = (if 0 \<le> e then 2 ^ nat e else 1 / 2 ^ nat (- e))"

text \<open>
  The exponent of the last of the 53 bits of a positive rational, from the bit lengths of its
  numerator and denominator, corrected by one where the quotient falls short of 53 bits.
\<close>

definition ulp_exponent :: "rat \<Rightarrow> int" where
  "ulp_exponent x =
     (let (p, q) = quotient_of x;
          e = int (ilog2 p) - int (ilog2 q) - 52
      in if x < 2 ^ 52 * two_powi e then e - 1 else e)"

definition fl :: "rat \<Rightarrow> float64" where
  "fl x =
     (if x = 0 then 0
      else let s = two_powi (ulp_exponent \<bar>x\<bar>); m = of_int (round_half_even (\<bar>x\<bar> / s))
           in if x < 0 then - (m * s) else m * s)"

text \<open>
  The \<open>float64\<close> nearest to a number that is read from text; none if it is too large. Here the
  exponent range matters: the last bit is never below $2^{-1074}$.
\<close>

definition f64_of_rat :: "rat \<Rightarrow> float64 option" where
  "f64_of_rat x =
     (if x = 0 then Some 0
      else let s = two_powi (max (- 1074) (ulp_exponent \<bar>x\<bar>)); m = of_int (round_half_even (\<bar>x\<bar> / s)) * s
           in if 2 ^ 1024 \<le> m then None else Some (if x < 0 then - m else m))"

definition f64_mul :: "float64 \<Rightarrow> float64 \<Rightarrow> float64" where
  "f64_mul a b = fl (a * b)"

definition f64_div :: "float64 \<Rightarrow> float64 \<Rightarrow> float64" where
  "f64_div a b = fl (a / b)"

text \<open>\<open>int64(f)\<close>: truncation towards zero (the operand is in range where it is used).\<close>

definition f64_to_int64 :: "float64 \<Rightarrow> int" where
  "f64_to_int64 x = int64 (if x < 0 then - \<lfloor>- x\<rfloor> else \<lfloor>x\<rfloor>)"

section \<open>How far the rounding moves a value\<close>

lemma two_powi_pos [simp]: "0 < two_powi e"
  by (simp add: two_powi_def)

lemma two_powi_nonneg [simp]: "0 \<le> two_powi e"
  using two_powi_pos by (rule less_imp_le)

lemma two_powi_neq_0 [simp]: "two_powi e \<noteq> 0"
  by (metis less_irrefl two_powi_pos)

lemma two_powi_Suc: "two_powi (e + 1) = 2 * two_powi e"
proof (cases "0 \<le> e")
  case True
  then have "nat (e + 1) = Suc (nat e)" by simp
  with True show ?thesis by (simp add: two_powi_def)
next
  case False
  then have "nat (- e) = Suc (nat (- e - 1))" by simp
  with False show ?thesis by (cases "e = - 1") (auto simp: two_powi_def)
qed

lemma two_powi_add_nat: "two_powi (e + int n) = 2 ^ n * two_powi e"
proof (induction n)
  case (Suc n)
  have "two_powi (e + int (Suc n)) = two_powi ((e + int n) + 1)" by (simp add: ac_simps)
  then show ?case by (simp only: two_powi_Suc Suc) simp
qed simp

lemma two_powi_diff_nat: "two_powi (int m - int n) * 2 ^ n = 2 ^ m"
  using two_powi_add_nat[of "int m - int n" n] by (simp add: two_powi_def mult.commute)

lemma ilog2_bounds: "0 < n \<Longrightarrow> 2 ^ ilog2 n \<le> n \<and> n < 2 ^ Suc (ilog2 n)"
proof (induction n rule: ilog2.induct)
  case (1 n)
  show ?case
  proof (cases "n \<le> 1")
    case True
    with "1.prems" have "n = 1" by simp
    then show ?thesis by (simp add: ilog2.simps)
  next
    case False
    with 1 have "2 ^ ilog2 (n div 2) \<le> n div 2" and "n div 2 < 2 ^ Suc (ilog2 (n div 2))" by auto
    moreover define t :: int where "t = 2 ^ ilog2 (n div 2)"
    ultimately have "2 * t \<le> n" and "n < 4 * t" by auto
    with False show ?thesis by (simp add: ilog2.simps[of n] t_def)
  qed
qed

lemma ulp_exponent_lower:
  assumes "0 < x"
  shows "2 ^ 52 * two_powi (ulp_exponent x) \<le> x"
proof -
  obtain p q where pq: "quotient_of x = (p, q)" by fastforce
  then have q: "0 < q" and x: "x = of_int p / of_int q"
    using quotient_of_denom_pos[OF pq] quotient_of_div[OF pq] by auto
  with assms have p: "0 < p" by (simp add: zero_less_divide_iff)
  define e where "e = int (ilog2 p) - int (ilog2 q) - 52"
  have ulp: "ulp_exponent x = (if x < 2 ^ 52 * two_powi e then e - 1 else e)"
    by (simp add: ulp_exponent_def pq e_def)
  have "(of_int q :: rat) \<le> 2 ^ Suc (ilog2 q)" and "(2 ^ ilog2 p :: rat) \<le> of_int p"
    using ilog2_bounds[OF q] ilog2_bounds[OF p]
    by (metis less_imp_le of_int_le_iff of_int_numeral of_int_power)+
  then have "2 ^ ilog2 p * of_int q \<le> of_int p * (2 ^ Suc (ilog2 q) :: rat)"
    using q p by (intro mult_mono) auto
  then have "2 ^ ilog2 p / 2 ^ Suc (ilog2 q) \<le> x"
    using q by (simp add: x field_simps)
  moreover have "2 ^ 52 * two_powi (e - 1) = 2 ^ ilog2 p / 2 ^ Suc (ilog2 q)"
  proof -
    have "2 ^ 52 * two_powi (e - 1) = two_powi (int (ilog2 p) - int (Suc (ilog2 q)))"
      using two_powi_add_nat[of "e - 1" 52] by (simp add: e_def algebra_simps)
    then show ?thesis
      using two_powi_diff_nat[of "ilog2 p" "Suc (ilog2 q)"] by (simp add: field_simps)
  qed
  ultimately show ?thesis by (simp add: ulp)
qed

lemma round_half_even_nonneg: "0 \<le> x \<Longrightarrow> 0 \<le> round_half_even x"
  by (auto simp: round_half_even_def Let_def)

lemma round_half_even_error: "\<bar>of_int (round_half_even x) - x\<bar> \<le> 1 / 2"
proof -
  obtain f where f: "\<lfloor>x\<rfloor> = f" by blast
  then have "of_int f \<le> x" and "x < of_int f + 1" by linarith+
  then show ?thesis by (auto simp: round_half_even_def Let_def f abs_if)
qed

lemma fl_0 [simp]: "fl 0 = 0"
  by (simp add: fl_def)

lemma fl_nonneg: "0 \<le> x \<Longrightarrow> 0 \<le> fl x"
  by (auto simp: fl_def Let_def round_half_even_nonneg)

text \<open>The relative error of one operation is at most $2^{-53}$.\<close>

lemma fl_error:
  assumes "0 \<le> x"
  shows "\<bar>fl x - x\<bar> \<le> x / 2 ^ 53"
proof (cases "x = 0")
  case False
  define s where "s = two_powi (ulp_exponent x)"
  have s: "0 < s" by (simp add: s_def)
  from False assms have x: "0 < x" by simp
  have "fl x - x = (of_int (round_half_even (x / s)) - x / s) * s"
    using x s by (simp add: fl_def Let_def s_def field_simps)
  then have "\<bar>fl x - x\<bar> \<le> 1 / 2 * s"
    using round_half_even_error[of "x / s"] s by (simp add: abs_mult)
  also have "\<dots> \<le> x / 2 ^ 53"
    using ulp_exponent_lower[OF x] by (simp add: s_def)
  finally show ?thesis .
qed simp

text \<open>In the normal range, reading rounds like an operation.\<close>

lemma f64_of_rat_fl:
  assumes "0 < x" and "- 1074 \<le> ulp_exponent x" and "x \<le> 2 ^ 1000"
  shows "f64_of_rat x = Some (fl x)"
proof -
  define m where "m = of_int (round_half_even (x / two_powi (ulp_exponent x))) * two_powi (ulp_exponent x)"
  have fl: "fl x = m" using assms(1) by (simp add: fl_def Let_def m_def)
  have "fl x \<le> x + x / 2 ^ 53" using fl_error[of x] assms(1) by linarith
  also have "\<dots> \<le> 2 * x" using assms(1) by (simp add: field_simps)
  also have "\<dots> \<le> 2 ^ 1001" using assms(3) by simp
  also have "\<dots> < 2 ^ 1024" by (rule power_strict_increasing) simp_all
  finally have "\<not> 2 ^ 1024 \<le> m" by (simp only: fl not_le)
  then show ?thesis
    using assms(1,2) by (simp only: f64_of_rat_def Let_def max_absorb2 m_def abs_of_pos fl[unfolded m_def]) simp
qed

end
