(* ===== verification/GoTime.thy ===== *)
theory GoTime
  imports GoText
begin

text \<open>
  The part of Go's \<^verbatim>\<open>time\<close> that text needs: the calendar date of a UTC instant and
  \<^verbatim>\<open>Time.MarshalJSON\<close>, RFC 3339 with the fraction of a second cut after its last digit that is
  not zero, and an error for a year that has not four digits. An instant can be read back from
  its text (\<open>rfc3339_inject\<close>); the instants without one are those outside the years 0 to 9999
  (\<open>rfc3339_domain\<close>).
\<close>

section \<open>Calendar\<close>

text \<open>
  Days since the epoch to a date, by years that start on the first of March: cycles of 400 years,
  their centuries (the last a day longer), spans of four years, years.
\<close>

definition march_year :: "int \<Rightarrow> int \<times> int" where
  "march_year z =
     (let doe = z mod 146097; c = min 3 (doe div 36524);
          doc = doe - c * 36524; q = doc div 1461;
          doq = doc - q * 1461; a = min 3 (doq div 365)
      in (z div 146097 * 400 + c * 100 + q * 4 + a, doq - a * 365))"

definition march_month :: "int \<Rightarrow> int" where
  "march_month doy = (5 * doy + 2) div 153"

definition civil_date :: "int \<Rightarrow> int \<times> int \<times> int" where
  "civil_date days =
     (case march_year (days + 719468) of (y, doy) \<Rightarrow>
        let mp = march_month doy; d = doy - (153 * mp + 2) div 5 + 1
        in if mp < 10 then (y, mp + 3, d) else (y + 1, mp - 9, d))"

definition days_of :: "int \<Rightarrow> int \<Rightarrow> int \<Rightarrow> int" where
  "days_of year month d =
     (let y = (if month \<le> 2 then year - 1 else year);
          mp = (if month \<le> 2 then month + 9 else month - 3)
      in y * 365 + y div 4 - y div 100 + y div 400 + (153 * mp + 2) div 5 + d - 1 - 719468)"

lemma march_year_bounds:
  assumes "march_year z = (y, doy)"
  shows "0 \<le> doy" "doy \<le> 365" "z = y * 365 + y div 4 - y div 100 + y div 400 + doy"
    "y < 9999 \<or> y = 9999 \<and> doy < 306 \<longleftrightarrow> z < 3652365" "0 \<le> y \<or> y = -1 \<and> 306 \<le> doy \<longleftrightarrow> -60 \<le> z"
proof -
  define e where "e = z div 146097"
  define doe where "doe = z mod 146097"
  define c where "c = min 3 (doe div 36524)"
  define doc where "doc = doe - c * 36524"
  define q where "q = doc div 1461"
  define doq where "doq = doc - q * 1461"
  define a where "a = min 3 (doq div 365)"
  have my: "march_year z = (e * 400 + c * 100 + q * 4 + a, doq - a * 365)"
    unfolding march_year_def Let_def e_def a_def doq_def q_def doc_def c_def doe_def by (rule refl)
  have y: "y = e * 400 + c * 100 + q * 4 + a" and doy: "doy = doq - a * 365"
    using assms my by simp_all
  have z: "z = e * 146097 + doe" by (simp add: e_def doe_def)
  have doe: "0 \<le> doe" "doe < 146097" by (simp_all add: doe_def)
  have c: "0 \<le> c" "c \<le> 3" "0 \<le> doc" "c < 3 \<longrightarrow> doc < 36524" "doc < 36525"
    using doe by (auto simp: c_def doc_def min_def)
  have q: "0 \<le> q" "q \<le> 24" "0 \<le> doq" "doq < 1461" "c < 3 \<and> q = 24 \<longrightarrow> doq < 1460"
    using c by (auto simp: q_def doq_def)
  have a: "0 \<le> a" "a \<le> 3" "0 \<le> doy" "doy \<le> 365" "a < 3 \<longrightarrow> doy < 365" "c < 3 \<and> q = 24 \<and> a = 3 \<longrightarrow> doy < 365"
    using q by (auto simp: a_def doy min_def)
  show "0 \<le> doy" "doy \<le> 365" using a by auto
  have eq: "z = e * 146097 + c * 36524 + q * 1461 + a * 365 + doy"
    using z by (simp add: doc_def doq_def doy)
  have d4: "y div 4 = e * 100 + c * 25 + q"
    using a by (simp add: y)
  have d100: "y div 100 = e * 4 + c"
    using a q by (simp add: y)
  have d400: "y div 400 = e"
    using a q c by (simp add: y)
  show "z = y * 365 + y div 4 - y div 100 + y div 400 + doy"
    by (simp add: d4 d100 d400 eq) (simp add: y)
  have last: "y < 400 * f + 399 \<and> z < 146097 * f + 145731 \<or> 400 * f + 400 \<le> y \<and> 146097 * f + 146097 \<le> z \<or>
      y = 400 * f + 399 \<and> z = 146097 * f + 145731 + doy" for f
  proof -
    have b: "0 \<le> c" "c \<le> 3" "0 \<le> q" "q \<le> 24" "0 \<le> a" "a \<le> 3" "0 \<le> doy" "doy \<le> 365" using c q a by auto
    show ?thesis
    proof (cases "e = f \<and> c = 3 \<and> q = 24 \<and> a = 3")
      case True
      then show ?thesis by (simp add: eq y)
    next
      case False
      show ?thesis
      proof (cases "f < e")
        case True
        then have "400 * f + 400 \<le> y" "146097 * f + 146097 \<le> z" using b eq y by linarith+
        then show ?thesis by simp
      next
        case False
        have "y < 400 * f + 399"
          using False \<open>\<not> (e = f \<and> c = 3 \<and> q = 24 \<and> a = 3)\<close> b unfolding y by linarith
        moreover have "z < 146097 * f + 145731"
        proof (cases "e = f \<and> c = 3 \<and> q = 24")
          case True
          with \<open>\<not> (e = f \<and> c = 3 \<and> q = 24 \<and> a = 3)\<close> b have "a \<le> 2" "doy < 365" using a(5) by auto
          with True show ?thesis by (simp add: eq)
        next
          case other: False
          show ?thesis
          proof (cases "e = f \<and> c = 3")
            case True
            with other b have "q \<le> 23" by simp
            with True b show ?thesis by (simp add: eq)
          next
            case first: False
            show ?thesis
            proof (cases "e = f")
              case True
              with first b have "c \<le> 2" by simp
              with True b show ?thesis by (simp add: eq)
            next
              case None: False
              with False have "e + 1 \<le> f" by simp
              with b show ?thesis unfolding eq by linarith
            qed
          qed
        qed
        ultimately show ?thesis by simp
      qed
    qed
  qed
  show "y < 9999 \<or> y = 9999 \<and> doy < 306 \<longleftrightarrow> z < 3652365"
    using last[of 24] a by auto
  show "0 \<le> y \<or> y = -1 \<and> 306 \<le> doy \<longleftrightarrow> -60 \<le> z"
    using last[of "-1"] a by auto
qed

lemma civil_date_bounds:
  assumes "civil_date days = (y, m, d)"
  shows "1 \<le> m" "m \<le> 12" "1 \<le> d" "d \<le> 31" "days_of y m d = days"
    "0 \<le> y \<and> y \<le> 9999 \<longleftrightarrow> -719528 \<le> days \<and> days < 2932897"
proof -
  obtain y0 doy where my: "march_year (days + 719468) = (y0, doy)" by fastforce
  note b = march_year_bounds[OF my]
  define mp where "mp = march_month doy"
  have mp: "0 \<le> mp" "mp \<le> 11" "mp < 10 \<longleftrightarrow> doy < 306" using b(1,2) by (auto simp: mp_def march_month_def)
  have d: "0 \<le> doy - (153 * mp + 2) div 5" "doy - (153 * mp + 2) div 5 \<le> 30"
  proof -
    have m: "153 * mp \<le> 5 * doy + 2" "5 * doy + 2 < 153 * mp + 153"
      by (simp_all add: mp_def march_month_def mult.commute[of 153])
    have u: "5 * ((153 * mp + 2) div 5) \<le> 153 * mp + 2" "153 * mp + 2 < 5 * ((153 * mp + 2) div 5) + 5"
      by simp_all
    show "0 \<le> doy - (153 * mp + 2) div 5" "doy - (153 * mp + 2) div 5 \<le> 30" using m u by linarith+
  qed
  define u where "u = (153 * mp + 2) div 5"
  have u: "(153 * mp + 2) div 5 = u" by (simp add: u_def)
  have ymd: "(y, m, d) = (if mp < 10 then (y0, mp + 3, doy - u + 1) else (y0 + 1, mp - 9, doy - u + 1))"
    using assms by (auto simp: civil_date_def my mp_def Let_def u_def split: if_splits)
  have "1 \<le> m \<and> m \<le> 12 \<and> 1 \<le> d \<and> d \<le> 31 \<and> days_of y m d = days \<and>
      (0 \<le> y \<and> y \<le> 9999 \<longleftrightarrow> -719528 \<le> days \<and> days < 2932897)"
  proof (cases "mp < 10")
    case True
    then have y: "y = y0" "m = mp + 3" "d = doy - u + 1" using ymd by simp_all
    then have "days_of y m d = y0 * 365 + y0 div 4 - y0 div 100 + y0 div 400 + doy - 719468"
      using mp(1) u by (simp add: days_of_def Let_def)
    moreover have "doy < 306" using True mp(3) by simp
    ultimately have "days_of y m d = days" "0 \<le> y \<and> y \<le> 9999 \<longleftrightarrow> -719528 \<le> days \<and> days < 2932897"
      using b(3) b(4,5) y(1) by linarith+
    moreover have "1 \<le> m" "m \<le> 12" "1 \<le> d" "d \<le> 31" using y mp(1,2) d u True by linarith+
    ultimately show ?thesis by simp
  next
    case False
    then have y: "y = y0 + 1" "m = mp - 9" "d = doy - u + 1" using ymd by simp_all
    then have "days_of y m d = y0 * 365 + y0 div 4 - y0 div 100 + y0 div 400 + doy - 719468"
      using mp(2) u by (simp add: days_of_def Let_def)
    moreover have "306 \<le> doy" using False mp(3) by simp
    ultimately have "days_of y m d = days" "0 \<le> y \<and> y \<le> 9999 \<longleftrightarrow> -719528 \<le> days \<and> days < 2932897"
      using b(3) b(4,5) y(1) by linarith+
    moreover have "1 \<le> m" "m \<le> 12" "1 \<le> d" "d \<le> 31" using y mp(1,2) d u False by linarith+
    ultimately show ?thesis by simp
  qed
  then show "1 \<le> m" "m \<le> 12" "1 \<le> d" "d \<le> 31" "days_of y m d = days"
    "0 \<le> y \<and> y \<le> 9999 \<longleftrightarrow> -719528 \<le> days \<and> days < 2932897" by auto
qed

section \<open>The text of an instant\<close>

fun pad_digits :: "nat \<Rightarrow> nat \<Rightarrow> string" where
  "pad_digits 0 n = []"
| "pad_digits (Suc k) n = pad_digits k (n div 10) @ [digit_char (n mod 10)]"

definition trim_zeros :: "string \<Rightarrow> string" where
  "trim_zeros s = rev (dropWhile (\<lambda>c. c = CHR ''0'') (rev s))"

definition frac_text :: "nat \<Rightarrow> string" where
  "frac_text ns = (if ns = 0 then [] else CHR ''.'' # trim_zeros (pad_digits 9 ns))"

definition clock_text :: "nat \<Rightarrow> string" where
  "clock_text sod = pad_digits 2 (sod div 3600) @ CHR '':'' # pad_digits 2 (sod div 60 mod 60) @ CHR '':'' #
     pad_digits 2 (sod mod 60)"

definition date_text :: "nat \<Rightarrow> nat \<Rightarrow> nat \<Rightarrow> string" where
  "date_text y m d = pad_digits 4 y @ CHR ''-'' # pad_digits 2 m @ CHR ''-'' # pad_digits 2 d"

definition year_out_of_range :: go_error where
  "year_out_of_range = Foreign ''json: error calling MarshalJSON for type time.Time: Time.MarshalJSON: year outside of range [0,9999]''"

definition rfc3339_nano :: "int \<Rightarrow> string go" where
  "rfc3339_nano t =
     (let secs = t div 10 ^ 9 in
      case civil_date (secs div 86400) of (y, m, d) \<Rightarrow>
        if 0 \<le> y \<and> y \<le> 9999
        then Val (date_text (nat y) (nat m) (nat d) @ CHR ''T'' # clock_text (nat (secs mod 86400)) @
                  frac_text (nat (t mod 10 ^ 9)) @ ''Z'')
        else Err year_out_of_range)"

lemma length_pad_digits [simp]: "length (pad_digits k n) = k"
  by (induction k arbitrary: n) auto

lemma digit_char_inject: "m < 10 \<Longrightarrow> n < 10 \<Longrightarrow> digit_char m = digit_char n \<longleftrightarrow> m = n"
  by (metis digit_val_digit_char option.inject)

lemma pad_digits_inject: "m < 10 ^ k \<Longrightarrow> n < 10 ^ k \<Longrightarrow> pad_digits k m = pad_digits k n \<longleftrightarrow> m = n"
proof (induction k arbitrary: m n)
  case (Suc k)
  then have "m div 10 < 10 ^ k" "n div 10 < 10 ^ k" by (simp_all add: less_mult_imp_div_less mult.commute)
  then have "pad_digits (Suc k) m = pad_digits (Suc k) n \<longleftrightarrow> m div 10 = n div 10 \<and> m mod 10 = n mod 10"
    using Suc.IH by (simp add: digit_char_inject)
  then show ?case by (metis div_mult_mod_eq)
qed simp

lemma trim_zeros_split: "s = trim_zeros s @ replicate (length s - length (trim_zeros s)) CHR ''0''"
proof -
  have "takeWhile (\<lambda>c. c = CHR ''0'') (rev s) = replicate (length (takeWhile (\<lambda>c. c = CHR ''0'') (rev s))) CHR ''0''"
    by (rule replicate_eqI) (auto dest: set_takeWhileD)
  then have "rev s = replicate (length s - length (trim_zeros s)) CHR ''0'' @ dropWhile (\<lambda>c. c = CHR ''0'') (rev s)"
    by (metis (no_types, lifting) add_diff_cancel_right' length_append length_rev takeWhile_dropWhile_id trim_zeros_def)
  from arg_cong[OF this, of rev] show ?thesis by (simp add: trim_zeros_def)
qed

lemma trim_zeros_inject: "length s = length t \<Longrightarrow> trim_zeros s = trim_zeros t \<longleftrightarrow> s = t"
  by (metis trim_zeros_split)

lemma frac_text_inject: "m < 10 ^ 9 \<Longrightarrow> n < 10 ^ 9 \<Longrightarrow> frac_text m = frac_text n \<longleftrightarrow> m = n"
  by (auto simp: frac_text_def trim_zeros_inject pad_digits_inject)

lemma clock_text_inject: "m < 86400 \<Longrightarrow> n < 86400 \<Longrightarrow> clock_text m = clock_text n \<longleftrightarrow> m = n"
proof -
  assume b: "m < 86400" "n < 86400"
  have small: "k div 3600 < 10 ^ 2" "k div 60 mod 60 < 10 ^ 2" "k mod 60 < 10 ^ 2" if "k < 86400" for k :: nat
  proof -
    have "k div 60 mod 60 < 60" "k mod 60 < 60" by simp_all
    then show "k div 60 mod 60 < 10 ^ 2" "k mod 60 < 10 ^ 2" by simp_all
    show "k div 3600 < 10 ^ 2" using that by (simp add: less_mult_imp_div_less)
  qed
  have "k = (k div 3600 * 60 + k div 60 mod 60) * 60 + k mod 60" for k :: nat
    using div_mult_mod_eq[of "k div 60" 60] div_mult_mod_eq[of k 60] by (simp add: div_mult2_eq[symmetric])
  then have "clock_text m = clock_text n \<Longrightarrow> m = n"
    using small[OF b(1)] small[OF b(2)] by (auto simp: clock_text_def pad_digits_inject) metis
  then show ?thesis by auto
qed

lemma length_texts [simp]: "length (clock_text n) = 8" "length (date_text y m d) = 10"
  by (simp_all add: clock_text_def date_text_def)

lemma date_text_inject:
  "y < 10 ^ 4 \<Longrightarrow> y' < 10 ^ 4 \<Longrightarrow> m < 10 ^ 2 \<Longrightarrow> m' < 10 ^ 2 \<Longrightarrow> d < 10 ^ 2 \<Longrightarrow> d' < 10 ^ 2 \<Longrightarrow>
     date_text y m d = date_text y' m' d' \<longleftrightarrow> y = y' \<and> m = m' \<and> d = d'"
  by (auto simp: date_text_def pad_digits_inject)

lemma rfc3339_eq:
  "civil_date (t div 10 ^ 9 div 86400) = (y, m, d) \<Longrightarrow> rfc3339_nano t =
     (if 0 \<le> y \<and> y \<le> 9999
      then Val (date_text (nat y) (nat m) (nat d) @ CHR ''T'' # clock_text (nat (t div 10 ^ 9 mod 86400)) @
                frac_text (nat (t mod 10 ^ 9)) @ ''Z'')
      else Err year_out_of_range)"
  unfolding rfc3339_nano_def Let_def by (simp only: prod.case)

lemma rfc3339_domain:
  "(\<exists>s. rfc3339_nano t = Val s) \<longleftrightarrow> - 62167219200 * 10 ^ 9 \<le> t \<and> t < 253402300800 * 10 ^ 9"
proof -
  let ?days = "t div 10 ^ 9 div 86400"
  obtain y m d where ymd: "civil_date ?days = (y, m, d)" by (cases "civil_date ?days")
  have "(\<exists>s. rfc3339_nano t = Val s) \<longleftrightarrow> 0 \<le> y \<and> y \<le> 9999"
    by (simp add: rfc3339_eq[OF ymd])
  also have "\<dots> \<longleftrightarrow> -719528 \<le> ?days \<and> ?days < 2932897" by (rule civil_date_bounds(6)[OF ymd])
  also have "\<dots> \<longleftrightarrow> - 62167219200 * 10 ^ 9 \<le> t \<and> t < 253402300800 * 10 ^ 9" by auto
  finally show ?thesis .
qed

lemma rfc3339_error: "rfc3339_nano t = Err e \<Longrightarrow> e = year_out_of_range"
  "rfc3339_nano t \<noteq> Panic"
  by (auto simp: rfc3339_nano_def Let_def split: prod.splits if_splits)

lemma rfc3339_inject:
  assumes "rfc3339_nano s = Val x" and "rfc3339_nano t = Val x"
  shows "s = t"
proof -
  let ?S = "s div 10 ^ 9" and ?T = "t div 10 ^ 9"
  obtain y m d where ymd: "civil_date (?S div 86400) = (y, m, d)" by (cases "civil_date (?S div 86400)")
  obtain y' m' d' where ymd': "civil_date (?T div 86400) = (y', m', d')" by (cases "civil_date (?T div 86400)")
  note b = civil_date_bounds[OF ymd] and b' = civil_date_bounds[OF ymd']
  have r: "0 \<le> y" "y \<le> 9999" "0 \<le> y'" "y' \<le> 9999"
    and x: "date_text (nat y) (nat m) (nat d) @ CHR ''T'' # clock_text (nat (?S mod 86400)) @ frac_text (nat (s mod 10 ^ 9)) @ ''Z'' =
            date_text (nat y') (nat m') (nat d') @ CHR ''T'' # clock_text (nat (?T mod 86400)) @ frac_text (nat (t mod 10 ^ 9)) @ ''Z''"
    using assms unfolding rfc3339_eq[OF ymd] rfc3339_eq[OF ymd'] by (auto split: if_splits)
  have texts: "date_text (nat y) (nat m) (nat d) = date_text (nat y') (nat m') (nat d')"
    "clock_text (nat (?S mod 86400)) = clock_text (nat (?T mod 86400))"
    "frac_text (nat (s mod 10 ^ 9)) = frac_text (nat (t mod 10 ^ 9))"
    using x by auto
  have "nat y < 10 ^ 4" "nat y' < 10 ^ 4" "nat m < 10 ^ 2" "nat m' < 10 ^ 2" "nat d < 10 ^ 2" "nat d' < 10 ^ 2"
    using r b(2,4) b'(2,4) by simp_all
  from date_text_inject[OF this] texts(1) have eqs: "nat y = nat y'" "nat m = nat m'" "nat d = nat d'" by blast+
  have lim: "nat (k mod 86400) < 86400" "nat (k mod 10 ^ 9) < 10 ^ 9" for k :: int
    by (simp_all add: nat_less_iff)
  have eqs': "nat (?S mod 86400) = nat (?T mod 86400)" "nat (s mod 10 ^ 9) = nat (t mod 10 ^ 9)"
    using clock_text_inject[OF lim(1)[of ?S] lim(1)[of ?T]] frac_text_inject[OF lim(2)[of s] lim(2)[of t]] texts(2,3)
    by blast+
  have "y = y'" using eqs(1) r by (simp only: eq_nat_nat_iff)
  moreover have "m = m'" using eqs(2) b(1) b'(1) by linarith
  moreover have "d = d'" using eqs(3) b(3) b'(3) by linarith
  ultimately have days: "?S div 86400 = ?T div 86400" using b(5) b'(5) by metis
  have pos: "0 \<le> k mod 86400" "0 \<le> k mod 10 ^ 9" for k :: int by simp_all
  have "?S mod 86400 = ?T mod 86400" using eqs'(1) pos(1) by (simp only: eq_nat_nat_iff)
  with days have "?S = ?T" by (metis div_mult_mod_eq)
  moreover have "s mod 10 ^ 9 = t mod 10 ^ 9" using eqs'(2) pos(2) by (simp only: eq_nat_nat_iff)
  ultimately show ?thesis by (metis div_mult_mod_eq)
qed

end
