(* ===== verification/JsonText.thy ===== *)
theory JsonText
  imports GoText
begin

text \<open>
  The strings of \<^verbatim>\<open>encoding/json\<close>: UTF-8, and quoting and unquoting with the escapes it writes
  and reads. Quoting a string and reading it back gives the string with each invalid byte replaced
  (\<open>lex_quote_body\<close>).
\<close>

section \<open>UTF-8\<close>

definition code :: "char \<Rightarrow> nat" where
  "code c = of_char c"

definition cont :: "nat \<Rightarrow> bool" where
  "cont b \<longleftrightarrow> 0x80 \<le> b \<and> b \<le> 0xBF"

text \<open>
  \<open>utf8.DecodeRune\<close>: the first rune and its size, \<open>None\<close> for an encoding that is not valid (and
  for the empty string).
\<close>

definition rune3 :: "nat \<Rightarrow> nat \<Rightarrow> nat \<Rightarrow> (nat \<times> nat) option" where
  "rune3 a b c =
     (if (if a = 0xE0 then 0xA0 else 0x80) \<le> b \<and> b \<le> (if a = 0xED then 0x9F else 0xBF) \<and> cont c
      then Some ((a - 0xE0) * 4096 + (b - 0x80) * 64 + (c - 0x80), 3) else None)"

definition rune4 :: "nat \<Rightarrow> nat \<Rightarrow> nat \<Rightarrow> nat \<Rightarrow> (nat \<times> nat) option" where
  "rune4 a b c d =
     (if (if a = 0xF0 then 0x90 else 0x80) \<le> b \<and> b \<le> (if a = 0xF4 then 0x8F else 0xBF) \<and> cont c \<and> cont d
      then Some ((a - 0xF0) * 262144 + (b - 0x80) * 4096 + (c - 0x80) * 64 + (d - 0x80), 4) else None)"

fun decode_rune :: "string \<Rightarrow> (nat \<times> nat) option" where
  "decode_rune [] = None"
| "decode_rune (x # xs) =
     (let a = code x in
      if a < 0x80 then Some (a, 1)
      else if 0xC2 \<le> a \<and> a \<le> 0xDF then
        (case xs of y # _ \<Rightarrow> (if cont (code y) then Some ((a - 0xC0) * 64 + (code y - 0x80), 2) else None)
         | [] \<Rightarrow> None)
      else if 0xE0 \<le> a \<and> a \<le> 0xEF then
        (case xs of y # z # _ \<Rightarrow> rune3 a (code y) (code z) | _ \<Rightarrow> None)
      else if 0xF0 \<le> a \<and> a \<le> 0xF4 then
        (case xs of y # z # w # _ \<Rightarrow> rune4 a (code y) (code z) (code w) | _ \<Rightarrow> None)
      else None)"

text \<open>\<open>utf8.AppendRune\<close>, for a rune that is one.\<close>

definition encode_rune :: "nat \<Rightarrow> string" where
  "encode_rune r =
     (if r < 0x80 then [char_of r]
      else if r < 0x800 then [char_of (0xC0 + r div 64), char_of (0x80 + r mod 64)]
      else if r < 0x10000 then
        [char_of (0xE0 + r div 4096), char_of (0x80 + r div 64 mod 64), char_of (0x80 + r mod 64)]
      else [char_of (0xF0 + r div 262144), char_of (0x80 + r div 4096 mod 64),
            char_of (0x80 + r div 64 mod 64), char_of (0x80 + r mod 64)])"

definition rune_error :: nat where "rune_error = 0xFFFD"

text \<open>The text a string stands for once each invalid byte is replaced.\<close>

function to_valid :: "string \<Rightarrow> string" where
  "to_valid [] = []"
| "to_valid (c # cs) = (case decode_rune (c # cs) of
     None \<Rightarrow> encode_rune rune_error @ to_valid cs
   | Some (r, n) \<Rightarrow> take n (c # cs) @ to_valid (drop (n - 1) cs))"
  by pat_completeness auto
termination by (relation "measure length") auto

definition valid_utf8 :: "string \<Rightarrow> bool" where
  "valid_utf8 s \<longleftrightarrow> to_valid s = s"

section \<open>Quoting\<close>

abbreviation quote_char :: char where "quote_char \<equiv> CHR 0x22"
abbreviation backslash :: char where "backslash \<equiv> CHR 0x5C"

text \<open>One rune, \<open>bs\<close> its bytes; the three HTML characters and two separators are escaped too.\<close>

definition quote_rune :: "nat \<Rightarrow> string \<Rightarrow> string" where
  "quote_rune r bs =
     (if r = 0x22 \<or> r = 0x5C then backslash # bs
      else if r = 0x08 then [backslash, CHR ''b'']
      else if r = 0x0C then [backslash, CHR ''f'']
      else if r = 0x0A then [backslash, CHR ''n'']
      else if r = 0x0D then [backslash, CHR ''r'']
      else if r = 0x09 then [backslash, CHR ''t'']
      else if r < 0x20 \<or> r = 0x3C \<or> r = 0x3E \<or> r = 0x26 then
        backslash # ''u00'' @ [hex_digit (r div 16), hex_digit (r mod 16)]
      else if r = 0x2028 \<or> r = 0x2029 then backslash # ''u202'' @ [hex_digit (r mod 16)]
      else bs)"

function quote_body :: "string \<Rightarrow> string" where
  "quote_body [] = []"
| "quote_body (c # cs) = (case decode_rune (c # cs) of
     None \<Rightarrow> backslash # ''ufffd'' @ quote_body cs
   | Some (r, n) \<Rightarrow> quote_rune r (take n (c # cs)) @ quote_body (drop (n - 1) cs))"
  by pat_completeness auto
termination by (relation "measure length") auto

definition json_quote :: "string \<Rightarrow> string" where
  "json_quote s = quote_char # quote_body s @ [quote_char]"

section \<open>Unquoting\<close>

text \<open>\<open>getu4\<close> without its leading \<open>\\u\<close>: four hexadecimal digits.\<close>

fun hex4 :: "string \<Rightarrow> nat option" where
  "hex4 (a # b # c # d # _) =
     (case (from_hex_char a, from_hex_char b, from_hex_char c, from_hex_char d) of
        (Some w, Some x, Some y, Some z) \<Rightarrow> Some (w * 4096 + x * 256 + y * 16 + z)
      | _ \<Rightarrow> None)"
| "hex4 _ = None"

text \<open>\<open>utf16.DecodeRune\<close> on a surrogate and the escape that follows it, if it is the other half.\<close>

definition surrogate_pair :: "nat \<Rightarrow> string \<Rightarrow> nat option" where
  "surrogate_pair r s =
     (if take 2 s = [backslash, CHR ''u''] then
        (case hex4 (drop 2 s) of
           Some r2 \<Rightarrow> (if 0xD800 \<le> r \<and> r \<le> 0xDBFF \<and> 0xDC00 \<le> r2 \<and> r2 \<le> 0xDFFF
                      then Some ((r - 0xD800) * 1024 + (r2 - 0xDC00) + 0x10000) else None)
         | None \<Rightarrow> None)
      else None)"

definition simple_escape :: "char \<Rightarrow> char option" where
  "simple_escape c =
     map_of [(quote_char, quote_char), (backslash, backslash), (CHR ''/'', CHR ''/''),
       (CHR ''b'', CHR 0x08), (CHR ''f'', CHR 0x0C), (CHR ''n'', CHR 0x0A), (CHR ''r'', CHR 0x0D),
       (CHR ''t'', CHR 0x09)] c"

definition prepend :: "string \<Rightarrow> (string \<times> string) option \<Rightarrow> (string \<times> string) option" where
  "prepend p r = map_option (\<lambda>(s, rest). (p @ s, rest)) r"

text \<open>
  The contents of a string literal, from behind its opening quote, with what follows the closing
  one: the scanner's check and \<open>unquote\<close> in one pass.
\<close>

function lex_string :: "string \<Rightarrow> (string \<times> string) option" where
  "lex_string [] = None"
| "lex_string (c # cs) =
     (if c = quote_char then Some ([], cs)
      else if c = backslash then
        (case cs of
           [] \<Rightarrow> None
         | e # ds \<Rightarrow>
             if e = CHR ''u'' then
               (case hex4 ds of
                  None \<Rightarrow> None
                | Some r \<Rightarrow>
                    if 0xD800 \<le> r \<and> r \<le> 0xDFFF then
                      (case surrogate_pair r (drop 4 ds) of
                         Some r' \<Rightarrow> prepend (encode_rune r') (lex_string (drop 10 ds))
                       | None \<Rightarrow> prepend (encode_rune rune_error) (lex_string (drop 4 ds)))
                    else prepend (encode_rune r) (lex_string (drop 4 ds)))
             else (case simple_escape e of
                     None \<Rightarrow> None
                   | Some x \<Rightarrow> prepend [x] (lex_string ds)))
      else if code c < 0x20 then None
      else (case decode_rune (c # cs) of
              None \<Rightarrow> prepend (encode_rune rune_error) (lex_string cs)
            | Some (r, n) \<Rightarrow> prepend (take n (c # cs)) (lex_string (drop (n - 1) cs))))"
  by pat_completeness auto
termination by (relation "measure length") auto

declare to_valid.simps(2) [simp del] quote_body.simps(2) [simp del] lex_string.simps(2) [simp del]

lemma prepend_Some: "prepend p r = Some (s, rest) \<longleftrightarrow> (\<exists>t. r = Some (t, rest) \<and> s = p @ t)"
  by (auto simp: prepend_def)

lemma lex_string_shorter: "lex_string s = Some (x, rest) \<Longrightarrow> length rest < length s"
proof (induction s arbitrary: x rest rule: lex_string.induct)
  case (2 c cs)
  then show ?case
    by (subst (asm) lex_string.simps)
      (auto simp: prepend_Some split: if_splits list.splits option.splits; fastforce)
qed simp

section \<open>What is quoted is unquoted\<close>

lemma code_char_of [simp]: "n < 256 \<Longrightarrow> code (char_of n) = n"
  by (simp add: code_def)

lemma char_of_code [simp]: "char_of (code c) = c"
  by (simp add: code_def)

lemma code_less: "code c < 256"
  by (simp add: code_def)

lemma code_inject: "code c = code d \<longleftrightarrow> c = d"
  by (metis char_of_code)

lemmas rune_defs = rune3_def rune4_def cont_def Let_def

lemma decode_rune_size:
  "decode_rune s = Some (r, n) \<Longrightarrow> 1 \<le> n \<and> n \<le> length s \<and> (\<exists>m. n = Suc m)"
  by (cases s) (auto simp: rune_defs split: if_splits list.splits)

lemma decode_rune_append:
  "decode_rune s = Some (r, n) \<Longrightarrow> decode_rune (take n s @ t) = Some (r, n)"
  by (cases s) (auto simp: rune_defs split: if_splits list.splits)

lemma decode_rune_first:
  "decode_rune (c # cs) = Some (r, n) \<Longrightarrow>
     (if r < 0x80 then n = 1 \<and> code c = r else 0x80 \<le> code c)"
  by (auto simp: rune_defs split: if_splits list.splits)

declare decode_rune.simps(2) [simp del]

lemma decode_rune_ascii: "r < 0x80 \<Longrightarrow> decode_rune (c # cs) = Some (r, n) \<Longrightarrow> n = 1 \<and> c = char_of r"
  using decode_rune_first[of c cs r n] by (metis char_of_code)

lemma decode_rune_separator:
  assumes "decode_rune s = Some (r, n)" and "r = 0x2028 \<or> r = 0x2029"
  shows "take n s = encode_rune r"
proof -
  from assms obtain x y z zs where s: "s = x # y # z # zs" and n: "n = 3"
    and b: "0xE0 \<le> code x" "code x \<le> 0xEF" "0x80 \<le> code y" "code y \<le> 0xBF" "0x80 \<le> code z" "code z \<le> 0xBF"
    and r: "r = (code x - 0xE0) * 4096 + (code y - 0x80) * 64 + (code z - 0x80)"
    by (cases s) (auto simp: decode_rune.simps(2) rune_defs split: if_splits list.splits)
  obtain i j k where ijk: "code x = 0xE0 + i" "code y = 0x80 + j" "code z = 0x80 + k" "j < 64" "k < 64"
    using b by (auto simp: le_iff_add)
  then have sum: "r = i * 4096 + j * 64 + k" using r by simp
  have "i = 2" using sum ijk(4,5) assms(2) by auto
  moreover from this have "j = 0" using sum ijk(5) assms(2) by auto
  ultimately have "code x = 0xE2" "code y = 0x80" "code z = 0x80 + r mod 64"
    using sum ijk by (auto simp: mod_add_left_eq [of 8192 64 k, symmetric] mod_add_eq)
  then have "x = char_of (0xE2::nat)" "y = char_of (0x80::nat)" "z = char_of (0x80 + r mod 64)"
    by (metis char_of_code)+
  then show ?thesis using assms(2) by (auto simp: s n encode_rune_def)
qed

lemma hex_literals [simp]:
  "from_hex_char CHR ''0'' = Some 0" "from_hex_char CHR ''2'' = Some 2"
  "from_hex_char CHR ''f'' = Some 15" "from_hex_char CHR ''d'' = Some 13"
  by (simp_all add: from_hex_char_def)

lemma lex_escape_u:
  assumes "hex4 ds = Some r" and "r < 0xD800 \<or> 0xDFFF < r"
  shows "lex_string (backslash # CHR ''u'' # ds) = prepend (encode_rune r) (lex_string (drop 4 ds))"
  using assms by (subst lex_string.simps) auto

lemma lex_rune:
  assumes "decode_rune (c # cs) = Some (r, n)" and "quote_rune r (take n (c # cs)) = take n (c # cs)"
    and "r \<noteq> 0x22" "r \<noteq> 0x5C" "\<not> r < 0x20"
  shows "lex_string (take n (c # cs) @ t) = prepend (take n (c # cs)) (lex_string t)"
proof -
  from decode_rune_size[OF assms(1)] obtain m where n: "n = Suc m" "m \<le> length cs" by auto
  have app: "decode_rune (c # take m cs @ t) = Some (r, n)"
    using decode_rune_append[OF assms(1), of t] by (simp add: n)
  have "c \<noteq> quote_char \<and> c \<noteq> backslash \<and> \<not> code c < 0x20"
    using decode_rune_first[OF assms(1)] assms(3-5) by (cases "r < 0x80") (auto simp: code_def)
  then show ?thesis
    using app n by (simp add: lex_string.simps(2))
qed

lemma char_literals:
  "char_of (0x22::nat) = quote_char" "char_of (0x5C::nat) = backslash" "char_of (0x08::nat) = CHR 0x08"
  "char_of (0x0C::nat) = CHR 0x0C" "char_of (0x0A::nat) = CHR 0x0A" "char_of (0x0D::nat) = CHR 0x0D"
  "char_of (0x09::nat) = CHR 0x09"
  by code_simp+

lemma lex_quote_rune:
  assumes "decode_rune (c # cs) = Some (r, n)"
  shows "lex_string (quote_rune r (take n (c # cs)) @ t) = prepend (take n (c # cs)) (lex_string t)"
proof -
  have one: "take n (c # cs) = [char_of r]" if "r < 0x80"
    using decode_rune_ascii[OF that assms] by simp
  have esc: "lex_string (backslash # e # t) = prepend [x] (lex_string t)"
    if "simple_escape e = Some x" "e \<noteq> CHR ''u''" for e x
    using that by (subst lex_string.simps) auto
  consider "r = 0x22" | "r = 0x5C" | "r = 0x08" | "r = 0x0C" | "r = 0x0A" | "r = 0x0D" | "r = 0x09"
    | (hex) "r < 0x20 \<or> r = 0x3C \<or> r = 0x3E \<or> r = 0x26" "r \<notin> {0x08, 0x0C, 0x0A, 0x0D, 0x09}"
    | (sep) "r = 0x2028 \<or> r = 0x2029"
    | (plain) "r \<notin> {0x22, 0x5C, 0x3C, 0x3E, 0x26, 0x2028, 0x2029}" "\<not> r < 0x20"
    by fastforce
  then show ?thesis
  proof cases
    case hex
    then have r: "r < 0x80" by auto
    let ?ds = "''00'' @ [hex_digit (r div 16), hex_digit (r mod 16)] @ t"
    have "hex4 ?ds = Some r" using r by simp
    then have "lex_string (backslash # CHR ''u'' # ?ds) = prepend (encode_rune r) (lex_string t)"
      using r by (subst lex_escape_u[of _ r]) auto
    then show ?thesis using hex r one by (auto simp: quote_rune_def encode_rune_def)
  next
    case sep
    let ?ds = "''202'' @ [hex_digit (r mod 16)] @ t"
    have "hex4 ?ds = Some r" using sep by auto
    then have "lex_string (backslash # CHR ''u'' # ?ds) = prepend (encode_rune r) (lex_string t)"
      using sep by (subst lex_escape_u[of _ r]) auto
    then show ?thesis
      using sep decode_rune_separator[OF assms sep] by (auto simp: quote_rune_def)
  next
    case plain
    then have "quote_rune r (take n (c # cs)) = take n (c # cs)" by (simp add: quote_rune_def)
    with lex_rune[OF assms this] plain show ?thesis by simp
  qed (simp_all add: quote_rune_def one char_literals, simp_all add: esc simple_escape_def)
qed

lemma lex_quote_body: "lex_string (quote_body s @ quote_char # t) = Some (to_valid s, t)"
proof (induction s rule: quote_body.induct)
  case 1
  then show ?case by (simp add: lex_string.simps(2))
next
  case (2 c cs)
  show ?case
  proof (cases "decode_rune (c # cs)")
    case None
    have "hex4 (''fffd'' @ x) = Some rune_error" for x by (simp add: rune_error_def)
    then have "lex_string (backslash # CHR ''u'' # (''fffd'' @ x)) = prepend (encode_rune rune_error) (lex_string x)" for x
      by (subst lex_escape_u[of _ rune_error]) (auto simp: rune_error_def)
    with None 2(1)[OF None] show ?thesis
      by (simp add: quote_body.simps(2) to_valid.simps(2) prepend_def)
  next
    case (Some p)
    then obtain r n where p: "decode_rune (c # cs) = Some (r, n)" by (cases p) auto
    from 2(2)[OF p refl] lex_quote_rune[OF p] show ?thesis
      by (simp add: quote_body.simps(2) to_valid.simps(2) p prepend_def)
  qed
qed

end
