(* ===== verification/JsonSyntax.thy ===== *)
theory JsonSyntax
  imports JsonText
begin

text \<open>
  The syntax of \<^verbatim>\<open>encoding/json\<close>: values, the compact printer, and the scanner as the stack
  machine it is, with its bound on the nesting of arrays and objects. A number is kept as its
  literal. What is printed, compact or indented, is read back as it was, whatever follows it, but
  for the bytes of a string that are not UTF-8 (\<open>parse_print\<close>, \<open>parse_indent\<close>).
\<close>

section \<open>Values and their compact text\<close>

datatype json =
    JNull
  | JBoolean bool
  | JNumber string
  | JText string
  | JArray "json list"
  | JObject "(string \<times> json) list"

fun json_print :: "json \<Rightarrow> string" where
  "json_print JNull = ''null''"
| "json_print (JBoolean b) = (if b then ''true'' else ''false'')"
| "json_print (JNumber n) = n"
| "json_print (JText s) = json_quote s"
| "json_print (JArray vs) = CHR ''['' # join_with CHR '','' (map json_print vs) @ '']''"
| "json_print (JObject ms) =
     CHR ''{'' # join_with CHR '','' (map (\<lambda>(k, v). json_quote k @ CHR '':'' # json_print v) ms) @ ''}''"

text \<open>
  The same with line breaks: \<open>nl d\<close> is what is put before an element \<open>d\<close> levels deep and before the
  bracket that closes one, \<open>gap\<close> follows a colon; an empty array or object has no line break.
  \<open>SetIndent("", "  ")\<close> indents by two spaces a level.
\<close>

fun json_layout :: "(nat \<Rightarrow> string) \<Rightarrow> string \<Rightarrow> nat \<Rightarrow> json \<Rightarrow> string" where
  "json_layout nl gap d (JArray vs) = CHR ''['' #
     (if vs = [] then [] else join_with CHR '','' (map (\<lambda>v. nl (Suc d) @ json_layout nl gap (Suc d) v) vs) @ nl d) @ '']''"
| "json_layout nl gap d (JObject ms) = CHR ''{'' #
     (if ms = [] then [] else join_with CHR '',''
        (map (\<lambda>(k, v). nl (Suc d) @ json_quote k @ CHR '':'' # gap @ json_layout nl gap (Suc d) v) ms) @ nl d) @ ''}''"
| "json_layout nl gap d v = json_print v"

definition json_indent :: "json \<Rightarrow> string" where
  "json_indent v = json_layout (\<lambda>d. CHR 0x0A # replicate (2 * d) CHR '' '') '' '' 0 v"

section \<open>The scanner\<close>

definition is_space :: "char \<Rightarrow> bool" where
  "is_space c \<longleftrightarrow> c \<in> {CHR '' '', CHR 0x09, CHR 0x0D, CHR 0x0A}"

definition is_digit :: "char \<Rightarrow> bool" where
  "is_digit c \<longleftrightarrow> 48 \<le> code c \<and> code c \<le> 57"

definition lex_int :: "string \<Rightarrow> (string \<times> string) option" where
  "lex_int s = (case s of
     [] \<Rightarrow> None
   | c # cs \<Rightarrow> (if c = CHR ''0'' then Some ([c], cs)
               else if is_digit c then Some (c # takeWhile is_digit cs, dropWhile is_digit cs)
               else None))"

definition lex_digits :: "string \<Rightarrow> (string \<times> string) option" where
  "lex_digits s = (if takeWhile is_digit s = [] then None else Some (takeWhile is_digit s, dropWhile is_digit s))"

definition lex_frac :: "string \<Rightarrow> (string \<times> string) option" where
  "lex_frac s = (case s of
     c # cs \<Rightarrow> (if c = CHR ''.'' then prepend [c] (lex_digits cs) else Some ([], s))
   | [] \<Rightarrow> Some ([], s))"

definition lex_exp :: "string \<Rightarrow> (string \<times> string) option" where
  "lex_exp s = (case s of
     c # cs \<Rightarrow>
       (if c = CHR ''e'' \<or> c = CHR ''E'' then
          (case cs of
             d # ds \<Rightarrow> (if d = CHR ''+'' \<or> d = CHR ''-'' then prepend [c, d] (lex_digits ds)
                       else prepend [c] (lex_digits cs))
           | [] \<Rightarrow> None)
        else Some ([], s))
   | [] \<Rightarrow> Some ([], s))"

definition lex_then :: "(string \<times> string) option \<Rightarrow> (string \<Rightarrow> (string \<times> string) option) \<Rightarrow> (string \<times> string) option" where
  "lex_then m f = (case m of None \<Rightarrow> None | Some (a, r) \<Rightarrow> prepend a (f r))"

definition lex_unsigned :: "string \<Rightarrow> (string \<times> string) option" where
  "lex_unsigned s = lex_then (lex_int s) (\<lambda>r. lex_then (lex_frac r) lex_exp)"

definition lex_number :: "string \<Rightarrow> (string \<times> string) option" where
  "lex_number s = (case s of
     c # cs \<Rightarrow> (if c = CHR ''-'' then prepend [c] (lex_unsigned cs) else lex_unsigned s)
   | [] \<Rightarrow> None)"

datatype token =
    TScalar json
  | TBeginArray
  | TEndArray
  | TBeginObject
  | TEndObject
  | TColon
  | TComma

definition keyword :: "string \<Rightarrow> json \<Rightarrow> string \<Rightarrow> (token \<times> string) option" where
  "keyword w v s = (if take (length w) s = w then Some (TScalar v, drop (length w) s) else None)"

definition lex_symbol :: "char \<Rightarrow> string \<Rightarrow> (token \<times> string) option" where
  "lex_symbol c cs =
     (if c = CHR ''['' then Some (TBeginArray, cs)
      else if c = CHR '']'' then Some (TEndArray, cs)
      else if c = CHR ''{'' then Some (TBeginObject, cs)
      else if c = CHR ''}'' then Some (TEndObject, cs)
      else if c = CHR '':'' then Some (TColon, cs)
      else if c = CHR '','' then Some (TComma, cs)
      else if c = CHR ''t'' then keyword ''rue'' (JBoolean True) cs
      else if c = CHR ''f'' then keyword ''alse'' (JBoolean False) cs
      else if c = CHR ''n'' then keyword ''ull'' JNull cs
      else if c = quote_char then map_option (\<lambda>(s, r). (TScalar (JText s), r)) (lex_string cs)
      else map_option (\<lambda>(n, r). (TScalar (JNumber n), r)) (lex_number (c # cs)))"

definition lex_token :: "string \<Rightarrow> (token \<times> string) option" where
  "lex_token s = (case dropWhile is_space s of [] \<Rightarrow> None | c # cs \<Rightarrow> lex_symbol c cs)"

section \<open>The parser\<close>

text \<open>
  What the scanner expects next, and the arrays and objects that are open, the innermost first;
  finished elements and members are kept in reverse.
\<close>

datatype phase =
    WantValue
  | WantFirst
  | WantKey
  | WantFirstKey
  | WantColon
  | HaveValue json

datatype frame =
    InArray "json list"
  | InMembers "(string \<times> json) list"
  | InMember "(string \<times> json) list" string

text \<open>\<open>maxNestingDepth\<close>\<close>

definition max_depth :: nat where "max_depth = 10000"

fun value_step :: "frame list \<Rightarrow> token \<Rightarrow> (phase \<times> frame list) option" where
  "value_step st (TScalar v) = Some (HaveValue v, st)"
| "value_step st TBeginArray = (if length st < max_depth then Some (WantFirst, InArray [] # st) else None)"
| "value_step st TBeginObject = (if length st < max_depth then Some (WantFirstKey, InMembers [] # st) else None)"
| "value_step st _ = None"

fun key_step :: "frame list \<Rightarrow> token \<Rightarrow> (phase \<times> frame list) option" where
  "key_step (InMembers ms # st) (TScalar (JText k)) = Some (WantColon, InMember ms k # st)"
| "key_step _ _ = None"

fun have_step :: "json \<Rightarrow> frame list \<Rightarrow> token \<Rightarrow> (phase \<times> frame list) option" where
  "have_step v (InArray vs # st) TComma = Some (WantValue, InArray (v # vs) # st)"
| "have_step v (InArray vs # st) TEndArray = Some (HaveValue (JArray (rev (v # vs))), st)"
| "have_step v (InMember ms k # st) TComma = Some (WantKey, InMembers ((k, v) # ms) # st)"
| "have_step v (InMember ms k # st) TEndObject = Some (HaveValue (JObject (rev ((k, v) # ms))), st)"
| "have_step _ _ _ = None"

fun scan_step :: "phase \<Rightarrow> frame list \<Rightarrow> token \<Rightarrow> (phase \<times> frame list) option" where
  "scan_step WantValue st t = value_step st t"
| "scan_step WantFirst st t =
     (case (st, t) of (InArray vs # st', TEndArray) \<Rightarrow> Some (HaveValue (JArray (rev vs)), st')
      | _ \<Rightarrow> value_step st t)"
| "scan_step WantKey st t = key_step st t"
| "scan_step WantFirstKey st t =
     (case (st, t) of (InMembers ms # st', TEndObject) \<Rightarrow> Some (HaveValue (JObject (rev ms)), st')
      | _ \<Rightarrow> key_step st t)"
| "scan_step WantColon st t = (if t = TColon then Some (WantValue, st) else None)"
| "scan_step (HaveValue v) st t = have_step v st t"

lemma lex_digits_length: "lex_digits s = Some (x, rest) \<Longrightarrow> length rest \<le> length s"
  by (auto simp: lex_digits_def length_dropWhile_le split: if_splits)

lemma lex_frac_length: "lex_frac s = Some (x, rest) \<Longrightarrow> length rest \<le> length s"
  by (auto simp: lex_frac_def prepend_def dest: lex_digits_length split: list.splits if_splits)

lemma lex_exp_length: "lex_exp s = Some (x, rest) \<Longrightarrow> length rest \<le> length s"
  by (auto simp: lex_exp_def prepend_def dest: lex_digits_length split: list.splits if_splits)

lemma lex_int_length: "lex_int s = Some (x, rest) \<Longrightarrow> length rest < length s"
  by (auto simp: lex_int_def less_Suc_eq_le length_dropWhile_le split: list.splits if_splits)

lemma lex_then_Some:
  "lex_then m f = Some (x, rest) \<longleftrightarrow> (\<exists>a r t. m = Some (a, r) \<and> f r = Some (t, rest) \<and> x = a @ t)"
  by (auto simp: lex_then_def prepend_Some split: option.splits)

lemma lex_unsigned_length: "lex_unsigned s = Some (x, rest) \<Longrightarrow> length rest < length s"
  by (auto simp: lex_unsigned_def lex_then_Some dest!: lex_int_length lex_frac_length lex_exp_length)

lemma lex_number_length: "lex_number s = Some (x, rest) \<Longrightarrow> length rest < length s"
  by (auto simp: lex_number_def prepend_Some dest!: lex_unsigned_length split: list.splits if_splits)

lemma lex_symbol_length: "lex_symbol c cs = Some (t, rest) \<Longrightarrow> length rest < Suc (length cs)"
  using lex_number_length[of "c # cs"]
  by (auto simp: lex_symbol_def keyword_def less_Suc_eq_le dest: lex_string_shorter split: if_splits)

lemma lex_token_length: "lex_token s = Some (t, rest) \<Longrightarrow> length rest < length s"
  using length_dropWhile_le[of is_space s]
  by (auto simp: lex_token_def dest!: lex_symbol_length split: list.splits)

function scan :: "phase \<Rightarrow> frame list \<Rightarrow> string \<Rightarrow> (json \<times> string) option" where
  "scan ph st s =
     (case (ph, st) of
        (HaveValue v, []) \<Rightarrow> Some (v, s)
      | _ \<Rightarrow> (case lex_token s of
          None \<Rightarrow> None
        | Some (t, r) \<Rightarrow> (case scan_step ph st t of
            None \<Rightarrow> None
          | Some (ph', st') \<Rightarrow> scan ph' st' r)))"
  by pat_completeness auto
termination by (relation "measure (\<lambda>(ph, st, s). length s)") (auto dest: lex_token_length)

declare scan.simps [simp del]

text \<open>The first value of a text, with what follows it.\<close>

definition first_value :: "string \<Rightarrow> (json \<times> string) option" where
  "first_value s = scan WantValue [] s"

section \<open>Numbers\<close>

text \<open>What may follow a number for its literal to end there.\<close>

definition number_end :: "string \<Rightarrow> bool" where
  "number_end t \<longleftrightarrow> (case t of [] \<Rightarrow> True | c # _ \<Rightarrow> \<not> is_digit c \<and> c \<notin> set ''.eE+-'')"

definition number_ok :: "string \<Rightarrow> bool" where
  "number_ok n \<longleftrightarrow> lex_number n = Some (n, [])"

lemma digits_append:
  assumes "number_end t"
  shows "takeWhile is_digit (s @ t) = takeWhile is_digit s" "dropWhile is_digit (s @ t) = dropWhile is_digit s @ t"
  using assms by (induction s) (auto simp: number_end_def split: list.splits)

lemma lex_digits_append:
  "lex_digits s = Some (x, r) \<Longrightarrow> number_end t \<Longrightarrow> lex_digits (s @ t) = Some (x, r @ t)"
  by (auto simp: lex_digits_def digits_append split: if_splits)

lemma lex_int_append: "lex_int s = Some (x, r) \<Longrightarrow> number_end t \<Longrightarrow> lex_int (s @ t) = Some (x, r @ t)"
  by (cases s) (auto simp: lex_int_def digits_append split: if_splits)

lemma lex_frac_append: "lex_frac s = Some (x, r) \<Longrightarrow> number_end t \<Longrightarrow> lex_frac (s @ t) = Some (x, r @ t)"
  by (cases s) (auto simp: lex_frac_def prepend_Some lex_digits_append number_end_def split: if_splits list.splits)

lemma lex_exp_append: "lex_exp s = Some (x, r) \<Longrightarrow> number_end t \<Longrightarrow> lex_exp (s @ t) = Some (x, r @ t)"
  by (cases s) (auto simp: lex_exp_def prepend_Some number_end_def split: if_splits list.splits
      dest: lex_digits_append[of _ _ _ t])

lemma lex_unsigned_append:
  "lex_unsigned s = Some (x, r) \<Longrightarrow> number_end t \<Longrightarrow> lex_unsigned (s @ t) = Some (x, r @ t)"
proof -
  assume "lex_unsigned s = Some (x, r)" and t: "number_end t"
  then obtain i f e r1 r2 where "lex_int s = Some (i, r1)" "lex_frac r1 = Some (f, r2)" "lex_exp r2 = Some (e, r)"
    and x: "x = i @ f @ e"
    by (auto simp: lex_unsigned_def lex_then_Some)
  from this(1)[THEN lex_int_append, OF t] this(2)[THEN lex_frac_append, OF t]
    this(3)[THEN lex_exp_append, OF t] x
  show ?thesis by (simp add: lex_unsigned_def lex_then_def prepend_def)
qed

lemma lex_number_append:
  "lex_number s = Some (x, r) \<Longrightarrow> number_end t \<Longrightarrow> lex_number (s @ t) = Some (x, r @ t)"
  by (cases s) (auto simp: lex_number_def prepend_Some split: if_splits dest: lex_unsigned_append)

lemma show_nat_0: "show_nat 0 = ''0''"
  by code_simp

lemma show_nat_leading: "show_nat n = CHR ''0'' # cs \<Longrightarrow> n = 0"
proof (induction n arbitrary: cs rule: show_nat.induct)
  case (1 n)
  show ?case
  proof (cases "n < 10")
    case True
    have "digit_char 0 = CHR ''0''" by code_simp
    with True 1(2) have "digit_char n = digit_char 0" by (simp add: show_nat.simps[of n])
    then show ?thesis using True by (metis digit_val_digit_char option.inject zero_less_numeral)
  next
    case False
    obtain d ds where d: "show_nat (n div 10) = d # ds" by (cases "show_nat (n div 10)") auto
    with False 1(2) have "d = CHR ''0''" by (simp add: show_nat.simps[of n])
    with 1(1)[OF False] d have "n div 10 = 0" by blast
    with False show ?thesis by simp
  qed
qed

lemma is_digit_char [simp]: "d < 10 \<Longrightarrow> is_digit (digit_char d)"
  by (simp add: is_digit_def code_def of_char_digit_char)

lemma show_nat_digits: "\<forall>c \<in> set (show_nat n). is_digit c"
  using show_nat_chars by fastforce

lemma lex_int_show_nat: "lex_int (show_nat n) = Some (show_nat n, [])"
proof (cases "show_nat n")
  case (Cons c cs)
  have "c = CHR ''0'' \<Longrightarrow> cs = []" using show_nat_leading[of n cs] Cons show_nat_0 by auto
  moreover have "is_digit c" "\<forall>x \<in> set cs. is_digit x" using show_nat_digits[of n] Cons by auto
  moreover from this have "takeWhile is_digit cs = cs" "dropWhile is_digit cs = []"
    by (auto simp: takeWhile_eq_all_conv)
  ultimately show ?thesis by (auto simp: lex_int_def Cons)
qed simp

lemma lex_unsigned_show_nat: "lex_unsigned (show_nat n) = Some (show_nat n, [])"
  by (simp add: lex_unsigned_def lex_then_Some lex_int_show_nat lex_frac_def lex_exp_def)

lemma number_ok_show_nat [simp]: "number_ok (show_nat n)"
proof -
  have "CHR ''-'' \<notin> set (show_nat n)" by (rule show_nat_no_char) simp
  then show ?thesis
    using lex_unsigned_show_nat[of n] by (auto simp: number_ok_def lex_number_def split: list.splits)
qed

lemma number_ok_show_int [simp]: "number_ok (show_int i)"
  using number_ok_show_nat
  by (auto simp: show_int_def number_ok_def lex_number_def[of "CHR ''-'' # _"] lex_unsigned_show_nat prepend_def)

section \<open>What is printed is parsed\<close>

fun json_depth :: "json \<Rightarrow> nat" where
  "json_depth (JArray vs) = Suc (foldr max (map json_depth vs) 0)"
| "json_depth (JObject ms) = Suc (foldr max (map (\<lambda>(k, v). json_depth v) ms) 0)"
| "json_depth _ = 0"

fun json_ok :: "json \<Rightarrow> bool" where
  "json_ok (JNumber n) \<longleftrightarrow> number_ok n"
| "json_ok (JText s) \<longleftrightarrow> valid_utf8 s"
| "json_ok (JArray vs) \<longleftrightarrow> (\<forall>v \<in> set vs. json_ok v)"
| "json_ok (JObject ms) \<longleftrightarrow> (\<forall>(k, v) \<in> set ms. valid_utf8 k \<and> json_ok v)"
| "json_ok _ \<longleftrightarrow> True"

text \<open>A value whose numbers are literals, and what is left of its strings after printing.\<close>

fun numbers_ok :: "json \<Rightarrow> bool" where
  "numbers_ok (JNumber n) \<longleftrightarrow> number_ok n"
| "numbers_ok (JArray vs) \<longleftrightarrow> (\<forall>v \<in> set vs. numbers_ok v)"
| "numbers_ok (JObject ms) \<longleftrightarrow> (\<forall>(k, v) \<in> set ms. numbers_ok v)"
| "numbers_ok _ \<longleftrightarrow> True"

fun json_valid :: "json \<Rightarrow> json" where
  "json_valid (JText s) = JText (to_valid s)"
| "json_valid (JArray vs) = JArray (map json_valid vs)"
| "json_valid (JObject ms) = JObject (map (\<lambda>(k, v). (to_valid k, json_valid v)) ms)"
| "json_valid v = v"

lemma json_ok_valid: "json_ok v \<Longrightarrow> numbers_ok v \<and> json_valid v = v"
  by (induction v rule: json_ok.induct) (auto simp: valid_utf8_def intro!: map_idI)

lemma foldr_max_le: "x \<in> set xs \<Longrightarrow> x \<le> foldr max xs (0::nat)"
  by (induction xs) auto

lemma join_with_Cons: "join_with c (p # ps) = p @ concat (map (Cons c) ps)"
  by (induction ps arbitrary: p) auto

lemma lex_token_symbols [simp]:
  "lex_token (CHR ''['' # s) = Some (TBeginArray, s)" "lex_token (CHR '']'' # s) = Some (TEndArray, s)"
  "lex_token (CHR ''{'' # s) = Some (TBeginObject, s)" "lex_token (CHR ''}'' # s) = Some (TEndObject, s)"
  "lex_token (CHR '':'' # s) = Some (TColon, s)" "lex_token (CHR '','' # s) = Some (TComma, s)"
  by (simp_all add: lex_token_def lex_symbol_def is_space_def)

lemma lex_token_spaces: "\<forall>c \<in> set ws. is_space c \<Longrightarrow> lex_token (ws @ s) = lex_token s"
  by (simp add: lex_token_def dropWhile_append2)

lemma lex_token_quote: "lex_token (json_quote x @ t) = Some (TScalar (JText (to_valid x)), t)"
  by (simp add: lex_token_def lex_symbol_def is_space_def json_quote_def lex_quote_body)

lemma lex_token_number:
  assumes "number_ok n" and "number_end t"
  shows "lex_token (n @ t) = Some (TScalar (JNumber n), t)"
proof -
  have n: "lex_number (n @ t) = Some (n, t)"
    using lex_number_append[of n n "[]"] assms by (simp add: number_ok_def)
  from assms(1) obtain c cs where c: "n = c # cs" "c = CHR ''-'' \<or> is_digit c"
    by (cases n) (auto simp: number_ok_def lex_number_def lex_unsigned_def lex_then_Some lex_int_def
        is_digit_def code_def split: if_splits)
  then have "\<not> is_space c \<and> c \<notin> set ''[]{}:,tfn'' \<and> c \<noteq> quote_char"
    by (auto simp: is_space_def is_digit_def code_def)
  then show ?thesis using n c(1) by (simp add: lex_token_def lex_symbol_def)
qed

lemma lex_token_keywords:
  "lex_token (''null'' @ t) = Some (TScalar JNull, t)"
  "lex_token (''true'' @ t) = Some (TScalar (JBoolean True), t)"
  "lex_token (''false'' @ t) = Some (TScalar (JBoolean False), t)"
  by (simp_all add: lex_token_def lex_symbol_def is_space_def keyword_def)

lemma scan_next:
  assumes "lex_token s = Some (tok, r)" and "scan_step ph st tok = Some (ph', st')"
  shows "scan ph st s = scan ph' st' r"
proof -
  have "\<not> (\<exists>v. ph = HaveValue v \<and> st = [])" using assms(2) by auto
  then show ?thesis using assms by (subst scan.simps) (auto split: phase.splits list.splits)
qed

lemma scan_done [simp]: "scan (HaveValue v) [] s = Some (v, s)"
  by (subst scan.simps) simp

lemma scan_spaces:
  assumes "\<forall>c \<in> set ws. is_space c" and "(\<exists>v. ph = HaveValue v) \<longrightarrow> st \<noteq> []"
  shows "scan ph st (ws @ s) = scan ph st s"
proof -
  note step = scan.simps[of ph st "ws @ s"] scan.simps[of ph st s]
  show ?thesis
  proof (cases st)
    case Nil
    with assms(2) have "\<forall>v. ph \<noteq> HaveValue v" by blast
    then show ?thesis unfolding step lex_token_spaces[OF assms(1)] by (cases ph) simp_all
  next
    case Cons
    then show ?thesis unfolding step lex_token_spaces[OF assms(1)] by (cases ph) simp_all
  qed
qed

text \<open>What a printed value begins with, so that the first element of an array is found.\<close>

lemma layout_token:
  assumes "numbers_ok v" and "number_end t"
  shows "\<exists>tok r. lex_token (json_layout nl gap d v @ t) = Some (tok, r) \<and> tok \<noteq> TEndArray"
  using assms lex_token_keywords[of t]
  by (cases v) (auto simp: lex_token_quote lex_token_number)

lemma scan_first:
  assumes "lex_token s = Some (tok, r)" and "tok \<noteq> TEndArray"
  shows "scan WantFirst st s = scan WantValue st s"
  using assms by (subst (1 2) scan.simps) (auto split: list.splits frame.splits token.splits)

lemma number_end_simps [simp]:
  "number_end []" "number_end (CHR '','' # s)" "number_end (CHR '']'' # s)" "number_end (CHR ''}'' # s)"
  by (simp_all add: number_end_def is_digit_def code_def)

lemma space_ends_number: "is_space c \<Longrightarrow> \<not> is_digit c \<and> c \<notin> set ''.eE+-''"
  by (auto simp: is_space_def is_digit_def code_def)

lemma number_end_spaces:
  assumes "\<forall>c \<in> set ws. is_space c" and "number_end t"
  shows "number_end (ws @ t)"
proof (cases ws)
  case (Cons c cs)
  then have "is_space c" using assms(1) by simp
  from space_ends_number[OF this] show ?thesis by (simp add: Cons number_end_def)
qed (use assms(2) in simp)

locale layout =
  fixes nl :: "nat \<Rightarrow> string" and gap :: string
  assumes nl_spaces: "c \<in> set (nl d) \<Longrightarrow> is_space c"
    and gap_spaces: "c \<in> set gap \<Longrightarrow> is_space c"
begin

abbreviation show_json :: "nat \<Rightarrow> json \<Rightarrow> string" where
  "show_json \<equiv> json_layout nl gap"

abbreviation show_member :: "nat \<Rightarrow> string \<times> json \<Rightarrow> string" where
  "show_member d m \<equiv> (case m of (k, v) \<Rightarrow> nl d @ json_quote k @ CHR '':'' # gap @ show_json d v)"

lemma skip_nl: "(\<exists>v. ph = HaveValue v) \<longrightarrow> st \<noteq> [] \<Longrightarrow> scan ph st (nl d @ s) = scan ph st s"
  using nl_spaces by (intro scan_spaces) auto

lemma skip_gap: "(\<exists>v. ph = HaveValue v) \<longrightarrow> st \<noteq> [] \<Longrightarrow> scan ph st (gap @ s) = scan ph st s"
  using gap_spaces by (intro scan_spaces) auto

lemma number_end_nl: "number_end t \<Longrightarrow> number_end (nl d @ t)"
  using nl_spaces by (intro number_end_spaces) auto

lemma number_end_tail [simp]:
  "number_end (concat (map (\<lambda>x. CHR '','' # f x) xs) @ nl d @ CHR '']'' # t)"
  "number_end (concat (map (\<lambda>x. CHR '','' # f x) xs) @ nl d @ CHR ''}'' # t)"
  by (cases xs; simp add: number_end_nl)+

text \<open>\<open>scans v\<close>: where a value is wanted, the printed \<open>v\<close> is read as \<open>v\<close>.\<close>

definition scans :: "json \<Rightarrow> bool" where
  "scans v \<longleftrightarrow> (\<forall>d st t. length st + json_depth v \<le> max_depth \<longrightarrow> number_end t \<longrightarrow>
     scan WantValue st (show_json d v @ t) = scan (HaveValue (json_valid v)) st t)"

lemma scansD:
  "scans v \<Longrightarrow> length st + json_depth v \<le> max_depth \<Longrightarrow> number_end t \<Longrightarrow>
     scan WantValue st (show_json d v @ t) = scan (HaveValue (json_valid v)) st t"
  by (simp add: scans_def)

lemma scan_elements:
  assumes "\<forall>v \<in> set vs. scans v \<and> Suc (length st) + json_depth v \<le> max_depth"
  shows "scan (HaveValue u) (InArray us # st)
           (concat (map (\<lambda>v. CHR '','' # nl d @ show_json d v) vs) @ nl e @ CHR '']'' # t)
           = scan (HaveValue (JArray (rev us @ u # map json_valid vs))) st t"
  using assms
proof (induction vs arbitrary: u us)
  case Nil
  then show ?case by (simp add: skip_nl scan_next[of _ TEndArray])
next
  case (Cons v vs)
  let ?rest = "concat (map (\<lambda>v. CHR '','' # nl d @ show_json d v) vs) @ nl e @ CHR '']'' # t"
  have "scan (HaveValue u) (InArray us # st) (CHR '','' # nl d @ show_json d v @ ?rest) =
      scan WantValue (InArray (u # us) # st) (show_json d v @ ?rest)"
    by (simp add: scan_next[of _ TComma] skip_nl)
  also have "\<dots> = scan (HaveValue (json_valid v)) (InArray (u # us) # st) ?rest"
    by (rule scansD) (use Cons.prems in auto)
  also have "\<dots> = scan (HaveValue (JArray (rev (u # us) @ json_valid v # map json_valid vs))) st t"
    by (rule Cons.IH) (use Cons.prems in auto)
  finally show ?case by simp
qed

lemma scan_member:
  assumes "scans v" and "Suc (length st) + json_depth v \<le> max_depth" and "number_end t"
    and "ph = WantKey \<or> ph = WantFirstKey"
  shows "scan ph (InMembers ms # st) (show_member d (k, v) @ t) =
           scan (HaveValue (json_valid v)) (InMember ms (to_valid k) # st) t"
proof -
  have "scan ph (InMembers ms # st) (show_member d (k, v) @ t) =
      scan WantColon (InMember ms (to_valid k) # st) (CHR '':'' # gap @ show_json d v @ t)"
    using assms(4) by (auto simp: skip_nl intro!: scan_next[OF lex_token_quote])
  also have "\<dots> = scan WantValue (InMember ms (to_valid k) # st) (show_json d v @ t)"
    by (simp add: scan_next[of _ TColon] skip_gap)
  also have "\<dots> = scan (HaveValue (json_valid v)) (InMember ms (to_valid k) # st) t"
    by (rule scansD) (use assms in auto)
  finally show ?thesis .
qed

lemma scan_members:
  assumes "\<forall>(k, v) \<in> set ms. scans v \<and> Suc (length st) + json_depth v \<le> max_depth"
  shows "scan (HaveValue u) (InMember done j # st)
           (concat (map (\<lambda>m. CHR '','' # show_member d m) ms) @ nl e @ CHR ''}'' # t)
           = scan (HaveValue (JObject (rev done @ (j, u) # map (\<lambda>(k, v). (to_valid k, json_valid v)) ms))) st t"
  using assms
proof (induction ms arbitrary: u j "done")
  case Nil
  then show ?case by (simp add: skip_nl scan_next[of _ TEndObject])
next
  case (Cons m ms)
  obtain k v where m: "m = (k, v)" by (cases m)
  let ?rest = "concat (map (\<lambda>m. CHR '','' # show_member d m) ms) @ nl e @ CHR ''}'' # t"
  have "scan (HaveValue u) (InMember done j # st) (CHR '','' # show_member d (k, v) @ ?rest) =
      scan WantKey (InMembers ((j, u) # done) # st) (show_member d (k, v) @ ?rest)"
    by (simp add: scan_next[of _ TComma])
  also have "\<dots> = scan (HaveValue (json_valid v)) (InMember ((j, u) # done) (to_valid k) # st) ?rest"
    by (rule scan_member) (use Cons.prems m in auto)
  also have "\<dots> = scan (HaveValue (JObject (rev ((j, u) # done) @
      (to_valid k, json_valid v) # map (\<lambda>(k, v). (to_valid k, json_valid v)) ms))) st t"
    by (rule Cons.IH) (use Cons.prems in auto)
  finally show ?case by (simp add: m)
qed

lemma scans_array:
  assumes "\<forall>v \<in> set vs. scans v \<and> numbers_ok v"
  shows "scans (JArray vs)"
  unfolding scans_def
proof (intro allI impI)
  fix d and st :: "frame list" and t :: string
  assume depth: "length st + json_depth (JArray vs) \<le> max_depth" and t: "number_end t"
  have deep: "Suc (length st) + json_depth v \<le> max_depth" if "v \<in> set vs" for v
    using foldr_max_le[of "json_depth v" "map json_depth vs"] that depth by simp
  show "scan WantValue st (show_json d (JArray vs) @ t) = scan (HaveValue (json_valid (JArray vs))) st t"
  proof (cases vs)
    case Nil
    then show ?thesis using depth by (simp add: scan_next[of _ TBeginArray] scan_next[of _ TEndArray])
  next
    case (Cons v us)
    let ?rest = "concat (map (\<lambda>v. CHR '','' # nl (Suc d) @ show_json (Suc d) v) us) @ nl d @ CHR '']'' # t"
    have ok: "numbers_ok v" using assms Cons by simp
    have "\<exists>tok r. lex_token (show_json (Suc d) v @ ?rest) = Some (tok, r) \<and> tok \<noteq> TEndArray"
      by (rule layout_token[OF ok]) simp
    then obtain tok r where tok: "lex_token (show_json (Suc d) v @ ?rest) = Some (tok, r)" "tok \<noteq> TEndArray" by blast
    have "scan WantValue st (show_json d (JArray vs) @ t) = scan WantFirst (InArray [] # st) (show_json (Suc d) v @ ?rest)"
      using depth Cons by (simp add: scan_next[of _ TBeginArray] join_with_Cons comp_def skip_nl)
    also have "\<dots> = scan WantValue (InArray [] # st) (show_json (Suc d) v @ ?rest)" using tok by (rule scan_first)
    also have "\<dots> = scan (HaveValue (json_valid v)) (InArray [] # st) ?rest"
      by (rule scansD) (use assms deep Cons in auto)
    also have "\<dots> = scan (HaveValue (JArray (rev [] @ json_valid v # map json_valid us))) st t"
      by (rule scan_elements) (use assms deep Cons in auto)
    finally show ?thesis by (simp add: Cons)
  qed
qed

lemma scans_object:
  assumes "\<forall>(k, v) \<in> set ms. scans v"
  shows "scans (JObject ms)"
  unfolding scans_def
proof (intro allI impI)
  fix d and st :: "frame list" and t :: string
  assume depth: "length st + json_depth (JObject ms) \<le> max_depth" and t: "number_end t"
  have deep: "Suc (length st) + json_depth v \<le> max_depth" if "(k, v) \<in> set ms" for k v
    using foldr_max_le[of "json_depth v" "map (\<lambda>(k, v). json_depth v) ms"] that depth by force
  show "scan WantValue st (show_json d (JObject ms) @ t) = scan (HaveValue (json_valid (JObject ms))) st t"
  proof (cases ms)
    case Nil
    then show ?thesis using depth by (simp add: scan_next[of _ TBeginObject] scan_next[of _ TEndObject])
  next
    case (Cons m us)
    obtain k v where m: "m = (k, v)" by (cases m)
    let ?rest = "concat (map (\<lambda>m. CHR '','' # show_member (Suc d) m) us) @ nl d @ CHR ''}'' # t"
    have "scan WantValue st (show_json d (JObject ms) @ t) =
        scan WantFirstKey (InMembers [] # st) (show_member (Suc d) (k, v) @ ?rest)"
      using depth Cons m by (simp add: scan_next[of _ TBeginObject] join_with_Cons comp_def)
    also have "\<dots> = scan (HaveValue (json_valid v)) (InMember [] (to_valid k) # st) ?rest"
      by (rule scan_member) (use assms deep Cons m in auto)
    also have "\<dots> = scan (HaveValue (JObject (rev [] @ (to_valid k, json_valid v) #
        map (\<lambda>(k, v). (to_valid k, json_valid v)) us))) st t"
      by (rule scan_members) (use assms deep Cons m in auto)
    finally show ?thesis by (simp add: Cons m)
  qed
qed

lemma scans_layout: "numbers_ok v \<Longrightarrow> scans v"
proof (induction v rule: json_valid.induct)
  case (2 vs)
  then show ?case by (intro scans_array) auto
next
  case (3 ms)
  then show ?case by (intro scans_object) auto
qed (auto simp: scans_def scan_next[OF lex_token_keywords(1)[simplified]] scan_next[OF lex_token_keywords(2)[simplified]]
    scan_next[OF lex_token_keywords(3)[simplified]] scan_next[OF lex_token_quote] scan_next[OF lex_token_number])

lemma parse_layout:
  assumes "numbers_ok v" and "json_depth v \<le> max_depth" and "number_end t"
  shows "first_value (json_layout nl gap d v @ t) = Some (json_valid v, t)"
  using scansD[OF scans_layout[OF assms(1)], of "[]" t] assms by (simp add: first_value_def)

end

interpretation compact: layout "\<lambda>_. []" "[]"
  by unfold_locales auto

interpretation indented: layout "\<lambda>d. CHR 0x0A # replicate (2 * d) CHR '' ''" "'' ''"
  by unfold_locales (auto simp: is_space_def)

lemma layout_compact: "json_layout (\<lambda>_. []) [] d v = json_print v"
proof (induction v arbitrary: d rule: json_print.induct)
  case (5 vs)
  then have "map (json_layout (\<lambda>_. []) [] (Suc d)) vs = map json_print vs" by simp
  then show ?case by (simp del: map_eq_conv)
next
  case (6 ms)
  then have "map (\<lambda>(k, v). json_quote k @ CHR '':'' # json_layout (\<lambda>_. []) [] (Suc d) v) ms =
      map (\<lambda>(k, v). json_quote k @ CHR '':'' # json_print v) ms" by (intro map_cong) auto
  then show ?case by (simp del: map_eq_conv)
qed simp_all

lemma parse_compact:
  "numbers_ok v \<Longrightarrow> json_depth v \<le> max_depth \<Longrightarrow> number_end t \<Longrightarrow> first_value (json_print v @ t) = Some (json_valid v, t)"
  using compact.parse_layout[of v t 0] by (simp add: layout_compact)

lemma parse_indent:
  "numbers_ok v \<Longrightarrow> json_depth v \<le> max_depth \<Longrightarrow> number_end t \<Longrightarrow> first_value (json_indent v @ t) = Some (json_valid v, t)"
  unfolding json_indent_def by (rule indented.parse_layout)

lemma parse_print:
  assumes "json_ok v" and "json_depth v \<le> max_depth" and "number_end t"
  shows "first_value (json_print v @ t) = Some (v, t)"
  using parse_compact[of v t] json_ok_valid[OF assms(1)] assms by simp

end
