(* ===== verification/JsonCodec.thy ===== *)
theory JsonCodec
  imports JsonSyntax Float64
begin

text \<open>
  \<^verbatim>\<open>json.Marshal\<close>, \<^verbatim>\<open>json.Unmarshal\<close> and \<^verbatim>\<open>json.Decoder\<close> over descriptors of the Go types
  the program encodes and decodes: the work reflection does in \<^verbatim>\<open>encoding/json\<close>, and base64 for
  byte slices. Decoding gives a value of the type it was asked for whatever the text
  (\<open>unmarshal_typed\<close>), and what was encoded decodes to itself (\<open>unmarshal_marshal\<close>). A nil slice
  is the empty one. The text of a syntax error is not modelled.
\<close>

section \<open>Base64\<close>

definition b64_char :: "nat \<Rightarrow> char" where
  "b64_char n =
     (if n < 26 then char_of (65 + n) else if n < 52 then char_of (71 + n)
      else if n < 62 then char_of (n - 4) else if n = 62 then CHR ''+'' else CHR ''/'')"

definition b64_val :: "char \<Rightarrow> nat option" where
  "b64_val c = (let n = code c in
     if 65 \<le> n \<and> n \<le> 90 then Some (n - 65) else if 97 \<le> n \<and> n \<le> 122 then Some (n - 71)
     else if 48 \<le> n \<and> n \<le> 57 then Some (n + 4)
     else if c = CHR ''+'' then Some 62 else if c = CHR ''/'' then Some 63 else None)"

fun b64_encode :: "bytes \<Rightarrow> string" where
  "b64_encode [] = []"
| "b64_encode [a] = [b64_char (unat a div 4), b64_char (unat a mod 4 * 16), CHR ''='', CHR ''='']"
| "b64_encode [a, b] =
     [b64_char (unat a div 4), b64_char (unat a mod 4 * 16 + unat b div 16),
      b64_char (unat b mod 16 * 4), CHR ''='']"
| "b64_encode (a # b # c # bs) =
     b64_char (unat a div 4) # b64_char (unat a mod 4 * 16 + unat b div 16) #
     b64_char (unat b mod 16 * 4 + unat c div 64) # b64_char (unat c mod 64) # b64_encode bs"

definition corrupt_base64 :: go_error where
  "corrupt_base64 = Foreign ''illegal base64 data''"

text \<open>Padding ends the text; the bits it cuts off are not looked at.\<close>

fun b64_quanta :: "string \<Rightarrow> bytes go" where
  "b64_quanta [] = Val []"
| "b64_quanta (w # x # y # z # cs) =
     (case (b64_val w, b64_val x) of
        (Some a, Some b) \<Rightarrow>
          (if y = CHR ''='' \<and> z = CHR ''='' \<and> cs = [] then Val [of_nat (a * 4 + b div 16)]
           else case b64_val y of
             None \<Rightarrow> Err corrupt_base64
           | Some c \<Rightarrow>
               (if z = CHR ''='' \<and> cs = []
                then Val [of_nat (a * 4 + b div 16), of_nat (b mod 16 * 16 + c div 4)]
                else case b64_val z of
                  None \<Rightarrow> Err corrupt_base64
                | Some d \<Rightarrow> go_bind (b64_quanta cs) (\<lambda>bs.
                    Val (of_nat (a * 4 + b div 16) # of_nat (b mod 16 * 16 + c div 4) #
                         of_nat (c mod 4 * 64 + d) # bs))))
      | _ \<Rightarrow> Err corrupt_base64)"
| "b64_quanta _ = Err corrupt_base64"

text \<open>Line ends are skipped wherever they are.\<close>

definition b64_decode :: "string \<Rightarrow> bytes go" where
  "b64_decode s = b64_quanta (filter (\<lambda>c. c \<noteq> CHR 0x0D \<and> c \<noteq> CHR 0x0A) s)"

lemma b64_val_char [simp]: "n < 64 \<Longrightarrow> b64_val (b64_char n) = Some n"
  by (auto simp: b64_val_def b64_char_def Let_def code_def)

lemma b64_char_not [simp]:
  "n < 64 \<Longrightarrow> b64_char n \<noteq> CHR ''=''" "n < 64 \<Longrightarrow> b64_char n \<noteq> CHR 0x0D" "n < 64 \<Longrightarrow> b64_char n \<noteq> CHR 0x0A"
proof -
  have none: "b64_val CHR ''='' = None" "b64_val CHR 0x0D = None" "b64_val CHR 0x0A = None"
    by code_simp+
  show "n < 64 \<Longrightarrow> b64_char n \<noteq> CHR ''=''" "n < 64 \<Longrightarrow> b64_char n \<noteq> CHR 0x0D" "n < 64 \<Longrightarrow> b64_char n \<noteq> CHR 0x0A"
    using none by (metis b64_val_char option.distinct(1))+
qed

lemma unat_byte: "unat (a :: 8 word) < 256"
  using unsigned_less[of a] by simp

lemma div_64_4:
  fixes n :: nat
  assumes "n < 256"
  shows "n div 4 < 64" "n div 16 < 16" "n div 64 < 4" "n div 64 div 4 = 0" "n div 16 div 16 = 0"
  using assms by (simp_all add: div_less_dividend less_mult_imp_div_less div_mult2_eq [symmetric])

lemmas byte_div = div_64_4 [OF unat_byte]

lemma b64_pieces [simp]:
  "unat (a :: 8 word) div 4 < 64" "unat a mod 4 * 16 < 64" "unat a mod 4 * 16 + unat (b :: 8 word) div 16 < 64"
  "unat b mod 16 * 4 < 64" "unat b mod 16 * 4 + unat (c :: 8 word) div 64 < 64" "unat c mod 64 < 64"
proof -
  have m: "unat a mod 4 < 4" "unat b mod 16 < 16" by simp_all
  show "unat a div 4 < 64" by (rule byte_div)
  show "unat a mod 4 * 16 < 64" using m by linarith
  show "unat a mod 4 * 16 + unat b div 16 < 64" using m byte_div(2)[of b] by linarith
  show "unat b mod 16 * 4 < 64" using m by linarith
  show "unat b mod 16 * 4 + unat c div 64 < 64" using m byte_div(3)[of c] by linarith
  show "unat c mod 64 < 64" by simp
qed

lemma b64_join:
  "unat (a :: 8 word) div 4 * 4 + (unat a mod 4 * 16 + unat (b :: 8 word) div 16) div 16 = unat a"
  "unat a div 4 * 4 + unat a mod 4 * 16 div 16 = unat a"
  "(unat a mod 4 * 16 + unat b div 16) mod 16 * 16 + (unat b mod 16 * 4 + unat (c :: 8 word) div 64) div 4 = unat b"
  "(unat a mod 4 * 16 + unat b div 16) mod 16 * 16 + unat b mod 16 * 4 div 4 = unat b"
  "(unat b mod 16 * 4 + unat c div 64) mod 4 * 64 + unat c mod 64 = unat c"
proof -
  note d = byte_div[of b] byte_div[of c]
  have q: "(x * 16 + y) div 16 = x" "(x * 16 + y) mod 16 = y" if "y < 16" for x y :: nat
    using that by simp_all
  have r: "(x * 4 + y) div 4 = x" "(x * 4 + y) mod 4 = y" if "y < 4" for x y :: nat
    using that by simp_all
  show "unat a div 4 * 4 + (unat a mod 4 * 16 + unat b div 16) div 16 = unat a"
    "unat a div 4 * 4 + unat a mod 4 * 16 div 16 = unat a"
    using d by (simp_all add: q)
  show "(unat a mod 4 * 16 + unat b div 16) mod 16 * 16 + (unat b mod 16 * 4 + unat c div 64) div 4 = unat b"
    "(unat a mod 4 * 16 + unat b div 16) mod 16 * 16 + unat b mod 16 * 4 div 4 = unat b"
    unfolding q(2)[OF d(2)] r(1)[OF d(8)] by simp_all
  show "(unat b mod 16 * 4 + unat c div 64) mod 4 * 64 + unat c mod 64 = unat c"
    unfolding r(2)[OF d(8)] by simp
qed

lemma b64_join_word:
  "(of_nat (unat (a :: 8 word) div 4 * 4 + (unat a mod 4 * 16 + unat (b :: 8 word) div 16) div 16) :: 8 word) = a"
  "(of_nat (unat a div 4 * 4 + unat a mod 4 * 16 div 16) :: 8 word) = a"
  "(of_nat ((unat a mod 4 * 16 + unat b div 16) mod 16 * 16 + (unat b mod 16 * 4 + unat (c :: 8 word) div 64) div 4) :: 8 word) = b"
  "(of_nat ((unat a mod 4 * 16 + unat b div 16) mod 16 * 16 + unat b mod 16 * 4 div 4) :: 8 word) = b"
  "(of_nat ((unat b mod 16 * 4 + unat c div 64) mod 4 * 64 + unat c mod 64) :: 8 word) = c"
  unfolding b64_join by simp_all

lemma b64_quanta_encode: "b64_quanta (b64_encode bs) = Val bs"
proof (induction bs rule: b64_encode.induct)
  case (2 a)
  then show ?case
    by (simp only: b64_encode.simps b64_quanta.simps b64_val_char b64_pieces option.case prod.case
          simp_thms if_True b64_join_word)
next
  case (3 a b)
  then show ?case
    by (simp only: b64_encode.simps b64_quanta.simps b64_val_char b64_pieces b64_char_not option.case prod.case
          simp_thms if_True if_False b64_join_word)
next
  case (4 a b c bs)
  then show ?case
    by (simp only: b64_encode.simps b64_quanta.simps b64_val_char b64_pieces b64_char_not option.case prod.case
          simp_thms if_True if_False b64_join_word go_bind.simps)
qed (simp only: b64_encode.simps b64_quanta.simps)

lemma b64_encode_lines: "c \<in> set (b64_encode bs) \<Longrightarrow> c \<noteq> CHR 0x0D \<and> c \<noteq> CHR 0x0A"
  by (induction bs rule: b64_encode.induct) auto

lemma b64_decode_encode [simp]: "b64_decode (b64_encode bs) = Val bs"
proof -
  have "filter (\<lambda>c. c \<noteq> CHR 0x0D \<and> c \<noteq> CHR 0x0A) (b64_encode bs) = b64_encode bs"
    by (rule filter_True) (auto dest: b64_encode_lines)
  then show ?thesis by (simp add: b64_decode_def b64_quanta_encode)
qed

section \<open>Types and their values\<close>

text \<open>
  A struct type has the text its \<open>String()\<close> gives, its bare name (none for a type literal) and
  its fields by JSON name; integers have their width.
\<close>

datatype go_type =
    TyString
  | TyBool
  | TyInt nat
  | TyUint nat
  | TyFloat
  | TySlice go_type
  | TyStruct string string "(string \<times> go_type) list"

datatype go_value =
    GString string
  | GBool bool
  | GInt int
  | GFloat float64
  | GSlice "go_value list"
  | GStruct "(string \<times> go_value) list"

fun zero_value :: "go_type \<Rightarrow> go_value" where
  "zero_value TyString = GString []"
| "zero_value TyBool = GBool False"
| "zero_value (TyInt n) = GInt 0"
| "zero_value (TyUint n) = GInt 0"
| "zero_value TyFloat = GFloat 0"
| "zero_value (TySlice t) = GSlice []"
| "zero_value (TyStruct printed nm fs) = GStruct (map (\<lambda>(f, t). (f, zero_value t)) fs)"

fun type_name :: "go_type \<Rightarrow> string" where
  "type_name TyString = ''string''"
| "type_name TyBool = ''bool''"
| "type_name (TyInt n) = ''int'' @ show_nat n"
| "type_name (TyUint n) = ''uint'' @ show_nat n"
| "type_name TyFloat = ''float64''"
| "type_name (TySlice t) = ''[]'' @ type_name t"
| "type_name (TyStruct printed nm fs) = printed"

definition int_fits :: "nat \<Rightarrow> int \<Rightarrow> bool" where
  "int_fits n i \<longleftrightarrow> - (2 ^ (n - 1)) \<le> i \<and> i < 2 ^ (n - 1)"

fun has_type :: "go_type \<Rightarrow> go_value \<Rightarrow> bool"
  and has_fields :: "(string \<times> go_type) list \<Rightarrow> (string \<times> go_value) list \<Rightarrow> bool" where
  "has_type TyString (GString s) \<longleftrightarrow> True"
| "has_type TyBool (GBool b) \<longleftrightarrow> True"
| "has_type (TyInt n) (GInt i) \<longleftrightarrow> int_fits n i"
| "has_type (TyUint n) (GInt i) \<longleftrightarrow> 0 \<le> i \<and> i < 2 ^ n"
| "has_type TyFloat (GFloat x) \<longleftrightarrow> True"
| "has_type (TySlice t) (GSlice vs) \<longleftrightarrow> (\<forall>v \<in> set vs. has_type t v)"
| "has_type (TyStruct printed nm fs) (GStruct xs) \<longleftrightarrow> has_fields fs xs"
| "has_type _ _ \<longleftrightarrow> False"
| "has_fields [] [] \<longleftrightarrow> True"
| "has_fields ((f, t) # fs) ((g, x) # xs) \<longleftrightarrow> f = g \<and> has_type t x \<and> has_fields fs xs"
| "has_fields _ _ \<longleftrightarrow> False"

text \<open>
  A struct type without a name, from the Go name, the JSON name (in the tag, if it differs) and the
  type of each field.
\<close>

definition anon_struct :: "(string \<times> string \<times> go_type) list \<Rightarrow> go_type" where
  "anon_struct fs =
     (let tag = \<lambda>g f. if f = g then [] else '' '' @ quote_char # ''json:'' @ backslash # quote_char # f @
            [backslash, quote_char, quote_char];
          decl = \<lambda>(g, f, t). g @ '' '' @ type_name t @ tag g f;
          sep = \<lambda>ps. (case ps of [] \<Rightarrow> [] | p # ps \<Rightarrow> p @ concat (map (\<lambda>p. ''; '' @ p) ps))
      in TyStruct (''struct { '' @ sep (map decl fs) @ '' }'') [] (map (\<lambda>(g, f, t). (f, t)) fs))"

text \<open>A \<open>[]byte\<close> is a slice of \<open>uint8\<close>.\<close>

abbreviation TyBytes :: go_type where "TyBytes \<equiv> TySlice (TyUint 8)"

definition byte_slice :: "bytes \<Rightarrow> go_value" where
  "byte_slice bs = GSlice (map (\<lambda>b. GInt (uint b)) bs)"

fun the_byte :: "go_value \<Rightarrow> 8 word" where
  "the_byte (GInt i) = word_of_int i"
| "the_byte _ = 0"

fun slice_bytes :: "go_value \<Rightarrow> bytes" where
  "slice_bytes (GSlice vs) = map the_byte vs"
| "slice_bytes _ = []"

section \<open>Decoding\<close>

text \<open>
  Keys are matched to fields exactly or else up to case folding, under which the Kelvin sign
  (\<open>E2 84 AA\<close> in UTF-8) is a K and the long s (\<open>C5 BF\<close>) an S.
\<close>

definition upper :: "char \<Rightarrow> char" where
  "upper c = (let n = (of_char c :: nat) in if 97 \<le> n \<and> n \<le> 122 then char_of (n - 32) else c)"

function fold_name :: "string \<Rightarrow> string" where
  "fold_name [] = []"
| "fold_name (c # cs) =
     (if c = CHR 0xE2 \<and> take 2 cs = [CHR 0x84, CHR 0xAA] then CHR ''K'' # fold_name (drop 2 cs)
      else if c = CHR 0xC5 \<and> take 1 cs = [CHR 0xBF] then CHR ''S'' # fold_name (drop 1 cs)
      else upper c # fold_name cs)"
  by pat_completeness auto
termination by (relation "measure length") auto

declare fold_name.simps [simp del]

definition field_of :: "(string \<times> go_type) list \<Rightarrow> string \<Rightarrow> (string \<times> go_type) option" where
  "field_of fs key =
     (case find (\<lambda>(f, t). f = key) fs of
        Some x \<Rightarrow> Some x
      | None \<Rightarrow> find (\<lambda>(f, t). fold_name f = fold_name key) fs)"

text \<open>
  Where a value stands: the innermost struct, and the fields that lead there. Only the first
  type error is kept (\<open>saveError\<close>); decoding goes on after it.
\<close>

type_synonym position = "string \<times> string list"

definition type_error :: "position \<Rightarrow> string \<Rightarrow> go_type \<Rightarrow> go_error" where
  "type_error pos got t =
     (case pos of (struct, path) \<Rightarrow>
        (if struct = [] \<and> path = []
         then Errorf ''json: cannot unmarshal %s into Go value of type %s'' [AStr got, AStr (type_name t)]
         else Errorf ''json: cannot unmarshal %s into Go struct field %s.%s of type %s''
                [AStr got, AStr struct, AStr (join_with CHR ''.'' path), AStr (type_name t)]))"

definition save_error :: "go_error \<Rightarrow> go_error option \<Rightarrow> go_error option" where
  "save_error e saved = (case saved of None \<Rightarrow> Some e | Some e0 \<Rightarrow> Some e0)"

definition set_field :: "string \<Rightarrow> go_value \<Rightarrow> (string \<times> go_value) list \<Rightarrow> (string \<times> go_value) list" where
  "set_field f x xs = map (\<lambda>(g, y). (g, if g = f then x else y)) xs"

definition get_field :: "(string \<times> go_value) list \<Rightarrow> string \<Rightarrow> go_type \<Rightarrow> go_value" where
  "get_field xs f t = (case map_of xs f of Some x \<Rightarrow> x | None \<Rightarrow> zero_value t)"

text \<open>The number a literal stands for.\<close>

definition literal_value :: "string \<Rightarrow> rat" where
  "literal_value n =
     (let s = (case n of [] \<Rightarrow> [] | c # cs \<Rightarrow> if c = CHR ''-'' then cs else n);
          mant = takeWhile (\<lambda>c. c \<noteq> CHR ''e'' \<and> c \<noteq> CHR ''E'') s;
          ip = takeWhile (\<lambda>c. c \<noteq> CHR ''.'') mant; fp = drop (Suc (length ip)) mant;
          m = (case digits_acc 0 (ip @ fp) of Some m \<Rightarrow> m | None \<Rightarrow> 0);
          e = (case set_string10 (drop (Suc (length mant)) s) of Some e \<Rightarrow> e | None \<Rightarrow> 0) - int (length fp);
          x = of_nat m * (if 0 \<le> e then 10 ^ nat e else 1 / 10 ^ nat (- e))
      in if s = n then x else - x)"

fun decode_scalar :: "position \<Rightarrow> go_type \<Rightarrow> json \<Rightarrow> go_value \<Rightarrow> go_error option \<Rightarrow> go_value \<times> go_error option" where
  "decode_scalar pos t JNull old e = (case t of TySlice _ \<Rightarrow> (GSlice [], e) | _ \<Rightarrow> (old, e))"
| "decode_scalar pos t (JBoolean b) old e =
     (if t = TyBool then (GBool b, e) else (old, save_error (type_error pos ''bool'' t) e))"
| "decode_scalar pos t (JNumber n) old e =
     (let bad = (old, save_error (type_error pos (''number '' @ n) t) e)
      in case t of
           TyInt w \<Rightarrow> (case set_string10 n of Some i \<Rightarrow> (if int_fits w i then (GInt i, e) else bad) | None \<Rightarrow> bad)
         | TyUint w \<Rightarrow> (case parse_uint w n of Some i \<Rightarrow> (GInt (int i), e) | None \<Rightarrow> bad)
         | TyFloat \<Rightarrow> (case f64_of_rat (literal_value n) of Some x \<Rightarrow> (GFloat x, e) | None \<Rightarrow> bad)
         | _ \<Rightarrow> (old, save_error (type_error pos ''number'' t) e))"
| "decode_scalar pos t (JText s) old e =
     (if t = TyString then (GString s, e)
      else if t = TyBytes then
        (case b64_decode s of
           Val bs \<Rightarrow> (byte_slice bs, e)
         | Err e' \<Rightarrow> (old, save_error e' e)
         | Panic \<Rightarrow> (old, e))
      else (old, save_error (type_error pos ''string'' t) e))"
| "decode_scalar pos t (JArray vs) old e = (old, save_error (type_error pos ''array'' t) e)"
| "decode_scalar pos t (JObject ms) old e = (old, save_error (type_error pos ''object'' t) e)"

text \<open>
  \<open>d.value\<close>: an element of an array is decoded over the one that was there, a member over the
  field's value; a key without a field is skipped.
\<close>

function unmarshal_value :: "position \<Rightarrow> go_type \<Rightarrow> json \<Rightarrow> go_value \<Rightarrow> go_error option \<Rightarrow> go_value \<times> go_error option"
  and unmarshal_elements :: "position \<Rightarrow> go_type \<Rightarrow> json list \<Rightarrow> go_value list \<Rightarrow> go_error option
        \<Rightarrow> go_value list \<times> go_error option"
  and unmarshal_members :: "position \<Rightarrow> string \<Rightarrow> (string \<times> go_type) list \<Rightarrow> (string \<times> json) list
        \<Rightarrow> (string \<times> go_value) list \<Rightarrow> go_error option \<Rightarrow> (string \<times> go_value) list \<times> go_error option" where
  "unmarshal_value pos t v old e =
     (case (t, v, old) of
        (TySlice t', JArray vs, GSlice olds) \<Rightarrow>
          (case unmarshal_elements pos t' vs olds e of (xs, e') \<Rightarrow> (GSlice xs, e'))
      | (TyStruct printed nm fs, JObject ms, GStruct xs) \<Rightarrow>
          (case unmarshal_members pos nm fs ms xs e of (xs', e') \<Rightarrow> (GStruct xs', e'))
      | _ \<Rightarrow> decode_scalar pos t v old e)"
| "unmarshal_elements pos t [] olds e = ([], e)"
| "unmarshal_elements pos t (v # vs) olds e =
     (case unmarshal_value pos t v (case olds of [] \<Rightarrow> zero_value t | y # _ \<Rightarrow> y) e of (x, e1) \<Rightarrow>
      case unmarshal_elements pos t vs (drop 1 olds) e1 of (xs, e2) \<Rightarrow> (x # xs, e2))"
| "unmarshal_members pos nm fs [] xs e = (xs, e)"
| "unmarshal_members pos nm fs ((k, v) # ms) xs e =
     (case field_of fs k of
        None \<Rightarrow> unmarshal_members pos nm fs ms xs e
      | Some (f, t) \<Rightarrow>
          (case unmarshal_value (nm, snd pos @ [f]) t v (get_field xs f t) e of (x, e1) \<Rightarrow>
           unmarshal_members pos nm fs ms (set_field f x xs) e1))"
  by pat_completeness auto
termination
  by (relation "measure (case_sum (\<lambda>(pos, t, v, old, e). size v)
        (case_sum (\<lambda>(pos, t, vs, olds, e). size_list size vs)
           (\<lambda>(pos, nm, fs, ms, xs, e). size_list (size_prod (\<lambda>_. 0) size) ms)))") auto

declare unmarshal_value.simps [simp del]

definition decode_into :: "go_type \<Rightarrow> json \<Rightarrow> go_value \<times> go_error option" where
  "decode_into t v = unmarshal_value ([], []) t v (zero_value t) None"

definition decode_json :: "go_type \<Rightarrow> json \<Rightarrow> go_value go" where
  "decode_json t v = (case decode_into t v of (x, None) \<Rightarrow> Val x | (_, Some e) \<Rightarrow> Err e)"

definition json_syntax_error :: go_error where
  "json_syntax_error = Foreign ''json: syntax error''"

text \<open>
  \<open>json.Unmarshal\<close> into a zero value: one value and nothing but space after it.
  \<open>json.NewDecoder(r).Decode\<close> reads the first value and no further.
\<close>

definition unmarshal :: "go_type \<Rightarrow> string \<Rightarrow> go_value go" where
  "unmarshal t s = (case first_value s of
      None \<Rightarrow> Err json_syntax_error
    | Some (v, rest) \<Rightarrow> if \<forall>c \<in> set rest. is_space c then decode_json t v else Err json_syntax_error)"

definition decode_stream :: "go_type \<Rightarrow> string \<Rightarrow> go_value go" where
  "decode_stream t s = (case first_value s of
      None \<Rightarrow> Err json_syntax_error
    | Some (v, rest) \<Rightarrow> decode_json t v)"

section \<open>Encoding\<close>

text \<open>The program encodes no \<open>float64\<close>, and only slices that are not nil.\<close>

fun json_of :: "go_type \<Rightarrow> go_value \<Rightarrow> json"
  and json_fields :: "(string \<times> go_type) list \<Rightarrow> (string \<times> go_value) list \<Rightarrow> (string \<times> json) list" where
  "json_of t (GString s) = JText s"
| "json_of t (GBool b) = JBoolean b"
| "json_of t (GInt i) = JNumber (show_int i)"
| "json_of t (GFloat x) = JNull"
| "json_of t (GSlice vs) =
     (case t of
        TySlice t' \<Rightarrow> (if t' = TyUint 8 then JText (b64_encode (slice_bytes (GSlice vs)))
                      else JArray (map (json_of t') vs))
      | _ \<Rightarrow> JNull)"
| "json_of t (GStruct xs) = (case t of TyStruct printed nm fs \<Rightarrow> JObject (json_fields fs xs) | _ \<Rightarrow> JNull)"
| "json_fields ((f, t) # fs) ((g, x) # xs) = (f, json_of t x) # json_fields fs xs"
| "json_fields _ _ = []"

definition marshal :: "go_type \<Rightarrow> go_value \<Rightarrow> string" where
  "marshal t v = json_print (json_of t v)"

section \<open>Whatever the text, the value has the type\<close>

fun type_ok :: "go_type \<Rightarrow> bool" where
  "type_ok (TySlice t) \<longleftrightarrow> type_ok t"
| "type_ok (TyStruct printed nm fs) \<longleftrightarrow>
     distinct (map fst fs) \<and> (\<forall>(f, t) \<in> set fs. valid_utf8 f \<and> type_ok t)"
| "type_ok _ \<longleftrightarrow> True"

lemma has_fields_Nil [simp]: "has_fields [] xs \<longleftrightarrow> xs = []"
  by (cases xs) auto

lemma has_fields_Cons [simp]:
  "has_fields ((f, t) # fs) xs \<longleftrightarrow> (\<exists>x ys. xs = (f, x) # ys \<and> has_type t x \<and> has_fields fs ys)"
  by (cases xs) auto

lemma has_zero_value: "has_type t (zero_value t)"
proof (induction t)
  case (TyStruct printed nm fs)
  have ih: "has_type t (zero_value t)" if "(f, t) \<in> set fs" for f t
    using TyStruct[OF that, of t] by (simp add: snds.simps)
  have "has_fields gs (map (\<lambda>(f, t). (f, zero_value t)) gs)" if "set gs \<subseteq> set fs" for gs
    using that by (induction gs) (auto intro: ih)
  then show ?case by simp
qed (simp_all add: int_fits_def)

lemma has_byte_slice: "has_type TyBytes (byte_slice bs)"
proof -
  have "uint b < 256" for b :: "8 word" using uint_lt2p[of b] by simp
  then show ?thesis by (auto simp: byte_slice_def)
qed

lemma set_field_other: "has_fields fs xs \<Longrightarrow> f \<notin> fst ` set fs \<Longrightarrow> set_field f x xs = xs"
  by (induction fs arbitrary: xs) (auto simp: set_field_def)

lemma set_field_Cons [simp]: "set_field f x ((g, y) # xs) = (g, if g = f then x else y) # set_field f x xs"
  by (simp add: set_field_def)

lemma get_field_Cons [simp]: "get_field ((g, y) # xs) f t = (if g = f then y else get_field xs f t)"
  by (simp add: get_field_def)

lemma has_fields_set:
  "has_fields fs xs \<Longrightarrow> distinct (map fst fs) \<Longrightarrow> (f, t) \<in> set fs \<Longrightarrow> has_type t x \<Longrightarrow> has_fields fs (set_field f x xs)"
  by (induction fs arbitrary: xs) (auto simp: set_field_other rev_image_eqI)

lemma has_fields_get:
  "has_fields fs xs \<Longrightarrow> distinct (map fst fs) \<Longrightarrow> (f, t) \<in> set fs \<Longrightarrow> has_type t (get_field xs f t)"
  by (induction fs arbitrary: xs) (auto simp: rev_image_eqI)

lemma find_mem: "find P xs = Some x \<Longrightarrow> x \<in> set xs"
  by (induction xs) (auto split: if_splits)

lemma field_of_mem: "field_of fs k = Some (f, t) \<Longrightarrow> (f, t) \<in> set fs"
  by (auto simp: field_of_def split: option.splits dest: find_mem)

lemma decode_scalar_typed: "has_type t old \<Longrightarrow> has_type t (fst (decode_scalar pos t v old e))"
  by (cases v) (auto simp: Let_def has_byte_slice dest: parse_uint_bound split: go_type.splits option.splits go.splits)

lemmas unmarshal_induct = unmarshal_value_unmarshal_elements_unmarshal_members.induct

lemma unmarshal_cases:
  obtains
    (slice) t' vs olds where "t = TySlice t'" "v = JArray vs" "old = GSlice olds"
  | (struct) printed nm fs ms xs where "t = TyStruct printed nm fs" "v = JObject ms" "old = GStruct xs"
  | (scalar) "\<And>pos e. unmarshal_value pos t v old e = decode_scalar pos t v old e"
  by (cases t; cases v; cases old) (auto simp: unmarshal_value.simps)

lemma unmarshal_slice:
  "unmarshal_value pos (TySlice t) (JArray vs) (GSlice olds) e = map_prod GSlice id (unmarshal_elements pos t vs olds e)"
  by (simp add: unmarshal_value.simps map_prod_def)

lemma unmarshal_struct:
  "unmarshal_value pos (TyStruct printed nm fs) (JObject ms) (GStruct xs) e =
     map_prod GStruct id (unmarshal_members pos nm fs ms xs e)"
  by (simp add: unmarshal_value.simps map_prod_def)

lemma unmarshal_has_type:
  "has_type t old \<Longrightarrow> type_ok t \<Longrightarrow> has_type t (fst (unmarshal_value pos t v old e))"
  "\<forall>x \<in> set olds. has_type t x \<Longrightarrow> type_ok t \<Longrightarrow>
     \<forall>x \<in> set (fst (unmarshal_elements pos t vs olds e)). has_type t x"
  "has_fields fs xs \<Longrightarrow> distinct (map fst fs) \<Longrightarrow> \<forall>(f, t) \<in> set fs. type_ok t \<Longrightarrow>
     has_fields fs (fst (unmarshal_members pos nm fs ms xs e))"
proof (induction pos t v old e and pos t vs olds e and pos nm fs ms xs e rule: unmarshal_induct)
  case (1 pos t v old e)
  show ?case
  proof (cases t v old rule: unmarshal_cases)
    case (slice t' vs olds)
    then show ?thesis
      using 1(1)[OF refl slice(1) refl slice(2,3)] 1(3,4) by (simp add: unmarshal_slice)
  next
    case (struct printed nm fs ms xs)
    then show ?thesis
      using 1(2)[OF refl struct(1) refl struct(2,3)] 1(3,4) by (auto simp: unmarshal_struct)
  next
    case scalar
    then show ?thesis using 1(3) by (simp add: decode_scalar_typed)
  qed
next
  case (3 pos t v vs olds e)
  let ?o = "case olds of [] \<Rightarrow> zero_value t | y # _ \<Rightarrow> y"
  obtain x e1 where x: "unmarshal_value pos t v ?o e = (x, e1)" by fastforce
  obtain xs e2 where xs: "unmarshal_elements pos t vs (drop 1 olds) e1 = (xs, e2)" by fastforce
  have "has_type t ?o" using 3(3) by (auto simp: has_zero_value split: list.splits)
  then have "has_type t x" using 3(1,4) x by simp
  moreover have "\<forall>y \<in> set xs. has_type t y"
    using 3(2)[OF x[symmetric]] 3(3,4) xs by (auto dest: in_set_dropD)
  ultimately show ?case by (simp add: x xs[simplified])
next
  case (5 pos nm fs k v ms xs e)
  show ?case
  proof (cases "field_of fs k")
    case None
    then show ?thesis using 5 by simp
  next
    case (Some ft)
    obtain f t where ft: "ft = (f, t)" by (cases ft)
    obtain x e1 where x: "unmarshal_value (nm, snd pos @ [f]) t v (get_field xs f t) e = (x, e1)" by fastforce
    have mem: "(f, t) \<in> set fs" using Some ft field_of_mem by blast
    with 5(4,5,6) have "has_type t (get_field xs f t)" "type_ok t" by (auto intro: has_fields_get)
    then have "has_type t x" using 5(2)[OF Some ft[symmetric]] x ft by simp
    with mem 5(4,5) have "has_fields fs (set_field f x xs)" by (blast intro: has_fields_set)
    then show ?thesis using 5(3)[OF Some ft[symmetric] x[symmetric]] 5(5,6) Some ft x by simp
  qed
qed simp_all

lemma decode_json_typed: "type_ok t \<Longrightarrow> decode_json t v = Val x \<Longrightarrow> has_type t x"
  using unmarshal_has_type(1)[OF has_zero_value, of t "([], [])" v None]
  by (auto simp: decode_json_def decode_into_def split: prod.splits option.splits)

lemma unmarshal_typed: "type_ok t \<Longrightarrow> unmarshal t s = Val v \<Longrightarrow> has_type t v"
  and decode_stream_typed: "type_ok t \<Longrightarrow> decode_stream t s = Val v \<Longrightarrow> has_type t v"
  by (auto simp: unmarshal_def decode_stream_def decode_json_typed split: option.splits if_splits)

section \<open>What was encoded is decoded\<close>

text \<open>What can be encoded without loss: strings are UTF-8, and there is no \<open>float64\<close>.\<close>

fun text_ok :: "go_value \<Rightarrow> bool" where
  "text_ok (GFloat x) \<longleftrightarrow> False"
| "text_ok (GString s) \<longleftrightarrow> valid_utf8 s"
| "text_ok (GSlice vs) \<longleftrightarrow> (\<forall>v \<in> set vs. text_ok v)"
| "text_ok (GStruct xs) \<longleftrightarrow> (\<forall>(f, x) \<in> set xs. text_ok x)"
| "text_ok _ \<longleftrightarrow> True"

fun type_depth :: "go_type \<Rightarrow> nat" where
  "type_depth (TySlice t) = Suc (type_depth t)"
| "type_depth (TyStruct printed nm fs) = Suc (foldr max (map (\<lambda>(f, t). type_depth t) fs) 0)"
| "type_depth _ = 0"

lemma ascii_valid: "\<forall>c \<in> set s. code c < 0x80 \<Longrightarrow> valid_utf8 s"
proof (induction s)
  case (Cons c cs)
  then have "decode_rune (c # cs) = Some (code c, 1)" by (simp add: decode_rune.simps(2) Let_def)
  with Cons show ?case by (simp add: valid_utf8_def to_valid.simps(2))
qed (simp add: valid_utf8_def)

lemma b64_char_ascii: "n < 64 \<Longrightarrow> code (b64_char n) < 0x80"
  by (auto simp: b64_char_def code_def)

lemma b64_ascii: "\<forall>c \<in> set (b64_encode bs). code c < 0x80"
proof -
  have "code CHR ''='' < 0x80" by code_simp
  then show ?thesis by (induction bs rule: b64_encode.induct) (simp_all add: b64_char_ascii)
qed

lemma b64_valid [simp]: "valid_utf8 (b64_encode bs)"
  using b64_ascii by (rule ascii_valid)

lemma byte_slice_bytes: "has_type TyBytes (GSlice vs) \<Longrightarrow> byte_slice (slice_bytes (GSlice vs)) = GSlice vs"
proof -
  have "GInt (uint (the_byte v)) = v" if "has_type (TyUint 8) v" for v
    using that by (cases v) (auto simp: uint_word_of_int_eq take_bit_eq_mod)
  then show "has_type TyBytes (GSlice vs) \<Longrightarrow> ?thesis"
    by (auto simp: byte_slice_def intro: map_idI)
qed

lemma json_of_ok: "type_ok t \<Longrightarrow> text_ok v \<Longrightarrow> json_ok (json_of t v)"
  and json_fields_ok: "\<forall>(f, t) \<in> set fs. valid_utf8 f \<and> type_ok t \<Longrightarrow> \<forall>(f, x) \<in> set xs. text_ok x \<Longrightarrow>
     \<forall>(k, v) \<in> set (json_fields fs xs). valid_utf8 k \<and> json_ok v"
  by (induction t v and fs xs rule: json_of_json_fields.induct)
    (auto split: go_type.splits)

lemma json_of_depth: "has_type t v \<Longrightarrow> json_depth (json_of t v) \<le> type_depth t"
  and json_fields_depth: "has_fields fs xs \<Longrightarrow>
     foldr max (map (\<lambda>(k, v). json_depth v) (json_fields fs xs)) 0 \<le> foldr max (map (\<lambda>(f, t). type_depth t) fs) 0"
proof (induction t v and fs xs rule: json_of_json_fields.induct)
  case (5 t vs)
  have "foldr max (map f vs) 0 \<le> n" if "\<forall>v \<in> set vs. f v \<le> n" for f and n :: nat and vs :: "go_value list"
    using that by (induction vs) auto
  with 5 show ?case by (cases t) (auto simp: comp_def)
next
  case (6 t xs)
  then show ?case by (cases t) auto
next
  case (7 f t fs g x xs)
  then show ?case by (auto simp: max.coboundedI1 max.coboundedI2)
qed simp_all

lemma uint_decoded:
  "0 \<le> i \<Longrightarrow> i < 2 ^ n \<Longrightarrow> decode_scalar pos (TyUint n) (JNumber (show_int i)) old e = (GInt i, e)"
proof -
  assume i: "0 \<le> i" "i < 2 ^ n"
  then have "nat i < 2 ^ n" by (simp add: nat_less_iff)
  with i show ?thesis by (simp add: show_int_def parse_uint_show_nat)
qed

lemma field_of_distinct: "distinct (map fst fs) \<Longrightarrow> (f, t) \<in> set fs \<Longrightarrow> field_of fs f = Some (f, t)"
proof -
  assume "distinct (map fst fs)" "(f, t) \<in> set fs"
  then have "find (\<lambda>(g, t). g = f) fs = Some (f, t)" by (induction fs) (auto simp: rev_image_eqI)
  then show ?thesis by (simp add: field_of_def)
qed

lemma unmarshal_json_of:
  "has_type t v \<Longrightarrow> has_type t old \<Longrightarrow> type_ok t \<Longrightarrow> text_ok v \<Longrightarrow> unmarshal_value pos t (json_of t v) old e = (v, e)"
proof (induction t arbitrary: pos v old e)
  case TyString
  then show ?case by (cases v) (auto simp: unmarshal_value.simps)
next
  case TyBool
  then show ?case by (cases v) (auto simp: unmarshal_value.simps)
next
  case (TyInt n)
  then show ?case by (cases v) (auto simp: unmarshal_value.simps)
next
  case (TyUint n)
  then show ?case by (cases v) (auto simp: unmarshal_value.simps uint_decoded simp del: decode_scalar.simps)
next
  case TyFloat
  then show ?case by (cases v) auto
next
  case (TySlice t)
  then obtain vs olds where v: "v = GSlice vs" "\<forall>v \<in> set vs. has_type t v \<and> text_ok v" and old: "old = GSlice olds" "\<forall>v \<in> set olds. has_type t v"
    by (cases v; cases old) auto
  show ?case
  proof (cases "t = TyUint 8")
    case True
    then show ?thesis
      using v byte_slice_bytes[of vs] by (simp add: unmarshal_value.simps del: slice_bytes.simps)
  next
    case False
    have "unmarshal_elements pos t (map (json_of t) vs) olds e = (vs, e)"
      using v(2) old(2)
    proof (induction vs arbitrary: olds)
      case (Cons v vs)
      have "has_type t (case olds of [] \<Rightarrow> zero_value t | y # _ \<Rightarrow> y)"
        using Cons.prems(2) by (auto simp: has_zero_value split: list.splits)
      then have "unmarshal_value pos t (json_of t v) (case olds of [] \<Rightarrow> zero_value t | y # _ \<Rightarrow> y) e = (v, e)"
        using TySlice Cons.prems(1) by simp
      moreover have "unmarshal_elements pos t (map (json_of t) vs) (drop 1 olds) e = (vs, e)"
        using Cons.IH[of "drop 1 olds"] Cons.prems by (auto dest: in_set_dropD)
      ultimately show ?case by simp
    qed simp
    with False show ?thesis by (simp add: v old unmarshal_slice)
  qed
next
  case (TyStruct printed nm fs)
  then obtain xs olds where v: "v = GStruct xs" "has_fields fs xs" "\<forall>(f, x) \<in> set xs. text_ok x" and old: "old = GStruct olds" "has_fields fs olds"
    by (cases v; cases old) auto
  have dist: "distinct (map fst fs)" and ok: "\<And>f t. (f, t) \<in> set fs \<Longrightarrow> type_ok t"
    using TyStruct.prems(3) by auto
  have ih: "unmarshal_value pos t (json_of t v) old e = (v, e)"
    if "(f, t) \<in> set fs" "has_type t v" "has_type t old" "text_ok v" for f t pos v old e
    using TyStruct.IH[OF that(1), of t] that ok by (simp add: snds.simps)
  have "unmarshal_members pos nm fs (json_fields gs ys) (ds @ os) e = (ds @ ys, e)"
    if "fs = hs @ gs" "has_fields hs ds" "has_fields gs ys" "has_fields gs os" "\<forall>(f, x) \<in> set ys. text_ok x"
    for hs gs ds ys os
    using that
  proof (induction gs arbitrary: hs ds ys os)
    case (Cons ft gs)
    obtain f t where ft: "ft = (f, t)" by (cases ft)
    with Cons.prems obtain y ys' o' os' where ys: "ys = (f, y) # ys'" "has_type t y" "has_fields gs ys'" "text_ok y"
      and os: "os = (f, o') # os'" "has_type t o'" "has_fields gs os'" by auto
    have mem: "(f, t) \<in> set fs" and fresh: "f \<notin> fst ` set hs" and fresh': "f \<notin> fst ` set gs"
      using Cons.prems(1) ft dist by auto
    have "get_field (ds @ os) f t = o'"
      using Cons.prems(2) fresh by (induction hs arbitrary: ds) (auto simp: os)
    then have "unmarshal_value (nm, snd pos @ [f]) t (json_of t y) (get_field (ds @ os) f t) e = (y, e)"
      using ih mem ys(2,4) os(2) by simp
    moreover have "set_field f y (ds @ os) = ds @ (f, y) # os'"
      using set_field_other[OF Cons.prems(2) fresh] set_field_other[OF os(3) fresh'] by (simp add: os set_field_def)
    moreover have "unmarshal_members pos nm fs (json_fields gs ys') ((ds @ [(f, y)]) @ os') e = ((ds @ [(f, y)]) @ ys', e)"
    proof (rule Cons.IH)
      show "has_fields (hs @ [ft]) (ds @ [(f, y)])"
        using Cons.prems(2) ys(2) by (induction hs arbitrary: ds) (auto simp: ft)
    qed (use Cons.prems(1,5) ys os in auto)
    ultimately show ?case by (simp add: ft ys(1) field_of_distinct[OF dist mem])
  qed simp
  from this[of "[]" fs "[]"] v old show ?case by (simp add: unmarshal_struct)
qed

lemma first_value_marshal:
  assumes "has_type t v" and "type_ok t" and "text_ok v" and "type_depth t \<le> max_depth" and "number_end rest"
  shows "first_value (marshal t v @ rest) = Some (json_of t v, rest)"
  using json_of_depth[OF assms(1)] assms json_of_ok[OF assms(2,3)] by (simp add: marshal_def parse_print)

lemma decode_json_of: "has_type t v \<Longrightarrow> type_ok t \<Longrightarrow> text_ok v \<Longrightarrow> decode_json t (json_of t v) = Val v"
  by (simp add: decode_json_def decode_into_def unmarshal_json_of has_zero_value)

lemma unmarshal_marshal:
  assumes "has_type t v" and "type_ok t" and "text_ok v" and "type_depth t \<le> max_depth"
  shows "unmarshal t (marshal t v) = Val v"
  using first_value_marshal[OF assms, of "[]"] assms by (simp add: unmarshal_def decode_json_of)

lemma decode_stream_marshal:
  assumes "has_type t v" and "type_ok t" and "text_ok v" and "type_depth t \<le> max_depth" and "number_end rest"
  shows "decode_stream t (marshal t v @ rest) = Val v"
  using first_value_marshal[OF assms] assms by (simp add: decode_stream_def decode_json_of)

section \<open>Reading a field of a struct\<close>

fun field_value :: "go_value \<Rightarrow> string \<Rightarrow> go_value" where
  "field_value (GStruct xs) f = (case map_of xs f of Some x \<Rightarrow> x | None \<Rightarrow> GStruct [])"
| "field_value _ f = GStruct []"

fun the_string :: "go_value \<Rightarrow> string" where
  "the_string (GString s) = s"
| "the_string _ = []"

fun the_int :: "go_value \<Rightarrow> int" where
  "the_int (GInt i) = i"
| "the_int _ = 0"

fun the_bool :: "go_value \<Rightarrow> bool" where
  "the_bool (GBool b) \<longleftrightarrow> b"
| "the_bool _ \<longleftrightarrow> False"

fun the_float :: "go_value \<Rightarrow> float64" where
  "the_float (GFloat x) = x"
| "the_float _ = 0"

fun the_slice :: "go_value \<Rightarrow> go_value list" where
  "the_slice (GSlice vs) = vs"
| "the_slice _ = []"

end
