(* ===== verification/JsonRaw.thy ===== *)
theory JsonRaw
  imports JsonCodec
begin

text \<open>
  JSON that is passed on without being decoded: \<^verbatim>\<open>json.RawMessage\<close>, alone and as the values of
  a map, and \<^verbatim>\<open>map[string]any\<close> as a request body. A raw value is the text of the value, without
  the space around it; a map is printed with its keys sorted, each raw value made compact.
\<close>

section \<open>Raw values\<close>

definition raw_value :: "string \<Rightarrow> (string \<times> string) option" where
  "raw_value s =
     (let t = dropWhile is_space s
      in case first_value t of
           None \<Rightarrow> None
         | Some (v, rest) \<Rightarrow> Some (take (length t - length rest) t, rest))"

lemma scan_length: "scan ph st s = Some (v, rest) \<Longrightarrow> length rest \<le> length s"
proof (induction "length s" arbitrary: ph st s rule: less_induct)
  case less
  show ?case
  proof (cases "\<exists>u. ph = HaveValue u \<and> st = []")
    case True
    then show ?thesis using less.prems by auto
  next
    case False
    then have "scan ph st s = (case lex_token s of None \<Rightarrow> None | Some (t, r) \<Rightarrow>
        (case scan_step ph st t of None \<Rightarrow> None | Some (ph', st') \<Rightarrow> scan ph' st' r))"
      by (subst scan.simps) (auto split: phase.splits list.splits)
    with less.prems obtain t r ph' st' where l: "lex_token s = Some (t, r)" "scan ph' st' r = Some (v, rest)"
      by (auto split: option.splits prod.splits)
    from less.hyps[OF lex_token_length[OF l(1)] l(2)] lex_token_length[OF l(1)] show ?thesis by simp
  qed
qed

lemma raw_value_length: "raw_value s = Some (raw, rest) \<Longrightarrow> length rest \<le> length s"
  using length_dropWhile_le[of is_space s]
  by (auto simp: raw_value_def Let_def first_value_def dest!: scan_length split: option.splits)

definition decode_raw :: "string \<Rightarrow> string go" where
  "decode_raw s = (case raw_value s of None \<Rightarrow> Err json_syntax_error | Some (raw, rest) \<Rightarrow> Val raw)"

section \<open>Objects of raw values\<close>

text \<open>The members that follow an opening brace; a later one replaces an earlier one of its key.\<close>

function raw_members :: "string \<Rightarrow> (string \<times> string) list \<Rightarrow> (string \<times> string) list" where
  "raw_members s acc =
     (case lex_token s of
        Some (TScalar (JText k), r) \<Rightarrow>
          (case lex_token r of
             Some (TColon, r1) \<Rightarrow>
               (case raw_value r1 of
                  Some (raw, r2) \<Rightarrow>
                    (let acc' = AList.update k raw acc
                     in case lex_token r2 of Some (TComma, r3) \<Rightarrow> raw_members r3 acc' | _ \<Rightarrow> acc')
                | None \<Rightarrow> acc)
           | _ \<Rightarrow> acc)
      | _ \<Rightarrow> acc)"
  by pat_completeness auto
termination
  by (relation "measure (\<lambda>(s, acc). length s)") (auto dest!: lex_token_length raw_value_length)

declare raw_members.simps [simp del]

fun json_kind :: "json \<Rightarrow> string" where
  "json_kind JNull = ''null''"
| "json_kind (JBoolean b) = ''bool''"
| "json_kind (JNumber n) = ''number''"
| "json_kind (JText s) = ''string''"
| "json_kind (JArray vs) = ''array''"
| "json_kind (JObject ms) = ''object''"

text \<open>Into a \<open>map[string]json.RawMessage\<close>: \<open>v\<close> is the value that \<open>s\<close> starts with.\<close>

definition raw_object_of :: "json \<Rightarrow> string \<Rightarrow> (string \<times> string) list go" where
  "raw_object_of v s =
     (case v of
        JObject ms \<Rightarrow> Val (case lex_token s of Some (TBeginObject, r) \<Rightarrow> raw_members r [] | _ \<Rightarrow> [])
      | JNull \<Rightarrow> Val []
      | _ \<Rightarrow> Err (Errorf ''json: cannot unmarshal %s into Go value of type map[string]json.RawMessage''
               [AStr (json_kind v)]))"

definition unmarshal_raw_object :: "string \<Rightarrow> (string \<times> string) list go" where
  "unmarshal_raw_object s = (case first_value s of
      None \<Rightarrow> Err json_syntax_error
    | Some (v, rest) \<Rightarrow> if \<forall>c \<in> set rest. is_space c then raw_object_of v s else Err json_syntax_error)"

definition stream_raw_object :: "string \<Rightarrow> (string \<times> string) list go" where
  "stream_raw_object s = (case first_value s of
      None \<Rightarrow> Err json_syntax_error | Some (v, rest) \<Rightarrow> raw_object_of v s)"

text \<open>A missing key of the map reads as nil, no bytes.\<close>

definition raw_field :: "(string \<times> string) list \<Rightarrow> string \<Rightarrow> string" where
  "raw_field m k = (case map_of m k of None \<Rightarrow> [] | Some v \<Rightarrow> v)"

section \<open>Maps as text\<close>

text \<open>\<open>strings.Compare\<close>\<close>

fun text_le :: "string \<Rightarrow> string \<Rightarrow> bool" where
  "text_le [] _ \<longleftrightarrow> True"
| "text_le (_ # _) [] \<longleftrightarrow> False"
| "text_le (c # cs) (d # ds) \<longleftrightarrow> code c < code d \<or> c = d \<and> text_le cs ds"

fun insert_key :: "string \<times> 'a \<Rightarrow> (string \<times> 'a) list \<Rightarrow> (string \<times> 'a) list" where
  "insert_key m [] = [m]"
| "insert_key m (n # ms) = (if text_le (fst m) (fst n) then m # n # ms else n # insert_key m ms)"

definition sort_keys :: "(string \<times> 'a) list \<Rightarrow> (string \<times> 'a) list" where
  "sort_keys ms = foldr insert_key ms []"

definition map_json :: "(string \<times> json) list \<Rightarrow> json" where
  "map_json ms = JObject (sort_keys ms)"

text \<open>
  \<open>appendCompact\<close>: space between tokens goes; in a string (the flag) the HTML characters and the
  two separators are escaped.
\<close>

fun compact :: "bool \<Rightarrow> string \<Rightarrow> string" where
  "compact b [] = []"
| "compact False (c # cs) =
     (if is_space c then compact False cs
      else c # compact (c = quote_char) cs)"
| "compact True (c # cs) =
     (if c = backslash then (case cs of [] \<Rightarrow> [c] | d # ds \<Rightarrow> c # d # compact True ds)
      else if c = quote_char then c # compact False cs
      else if c = CHR ''<'' then backslash # ''u003c'' @ compact True cs
      else if c = CHR ''>'' then backslash # ''u003e'' @ compact True cs
      else if c = CHR ''&'' then backslash # ''u0026'' @ compact True cs
      else if take 3 (c # cs) = encode_rune 0x2028 then backslash # ''u2028'' @ compact True (drop 2 cs)
      else if take 3 (c # cs) = encode_rune 0x2029 then backslash # ''u2029'' @ compact True (drop 2 cs)
      else c # compact True cs)"

definition raw_print :: "(string \<times> string) list \<Rightarrow> string" where
  "raw_print m = CHR ''{'' #
     join_with CHR '','' (map (\<lambda>(k, raw). json_quote k @ CHR '':'' # compact False raw) (sort_keys m)) @ ''}''"

lemma set_insert_key [simp]: "set (insert_key m ms) = insert m (set ms)"
  by (induction ms) auto

lemma set_sort_keys [simp]: "set (sort_keys ms) = set ms"
  by (induction ms) (auto simp: sort_keys_def)

end
