(* ===== verification/GoFormat.thy ===== *)
theory GoFormat
  imports JsonText GoTime
begin

text \<open>
  The part of Go's \<^verbatim>\<open>fmt\<close>, \<^verbatim>\<open>strconv\<close> and \<^verbatim>\<open>time\<close> that what the program shows its users goes
  through: the text of an error, with its cause in the place of the last verb, a quoted string,
  and an instant in the local time zone. The zone (the offset in seconds in force at an instant),
  the text of an error that a library made, and Unicode's table of printable runes are parameters.
\<close>

record texts =
  txt_zone :: "int \<Rightarrow> int"
  txt_foreign :: "string \<Rightarrow> string"
  txt_printable :: "nat \<Rightarrow> bool"

section \<open>Instants in a zone\<close>

text \<open>\<open>appendInt\<close>: at least \<open>k\<close> digits.\<close>

definition pad_to :: "nat \<Rightarrow> nat \<Rightarrow> string" where
  "pad_to k n = (if n < 10 ^ k then pad_digits k n else show_nat n)"

text \<open>\<open>Z07:00\<close>: the offset in minutes, cut towards zero.\<close>

definition zone_text :: "int \<Rightarrow> string" where
  "zone_text off =
     (if off = 0 then ''Z''
      else let mins = nat \<bar>off\<bar> div 60
           in (if off \<le> - 60 then CHR ''-'' else CHR ''+'') # pad_to 2 (mins div 60) @ CHR '':'' # pad_to 2 (mins mod 60))"

definition zone_out_of_range :: go_error where
  "zone_out_of_range = Foreign ''json: error calling MarshalJSON for type time.Time: Time.MarshalJSON: timezone hour outside of range [0,23]''"

text \<open>\<open>Time.MarshalJSON\<close> writes what the clock in the zone shows, and the zone.\<close>

definition time_json :: "(int \<Rightarrow> int) \<Rightarrow> int \<Rightarrow> string go" where
  "time_json zone t =
     go_bind (rfc3339_nano (t + zone t * 10 ^ 9)) (\<lambda>clock.
     if 24 \<le> \<bar>zone t\<bar> div 3600 then Err zone_out_of_range else Val (butlast clock @ zone_text (zone t)))"

text \<open>\<open>Time.Format\<close> with \<open>RFC3339\<close>: any year, no fraction.\<close>

definition year_text :: "int \<Rightarrow> string" where
  "year_text y = (if y < 0 then [CHR ''-''] else []) @ pad_to 4 (nat \<bar>y\<bar>)"

definition time_text :: "(int \<Rightarrow> int) \<Rightarrow> int \<Rightarrow> string" where
  "time_text zone t =
     (let secs = t div 10 ^ 9 + zone t in
      case civil_date (secs div 86400) of (y, m, d) \<Rightarrow>
        year_text y @ CHR ''-'' # pad_digits 2 (nat m) @ CHR ''-'' # pad_digits 2 (nat d) @
        CHR ''T'' # clock_text (nat (secs mod 86400)) @ zone_text (zone t))"

text \<open>In UTC this is what the events' timestamps are.\<close>

lemma time_json_utc: "time_json (\<lambda>_. 0) t = rfc3339_nano t"
  by (cases "civil_date (t div 10 ^ 9 div 86400)")
    (simp add: time_json_def zone_text_def rfc3339_eq butlast_append)

lemma time_json_cases:
  "time_json zone t = Val s \<Longrightarrow> \<exists>clock. rfc3339_nano (t + zone t * 10 ^ 9) = Val clock \<and> s = butlast clock @ zone_text (zone t)"
  "time_json zone t \<noteq> Panic"
  using rfc3339_error(2)[of "t + zone t * 10 ^ 9"]
  by (auto simp: time_json_def go_bind_Val_iff split: if_splits) (cases "rfc3339_nano (t + zone t * 10 ^ 9)"; auto split: if_splits)

section \<open>Quoting\<close>

fun pad_hex :: "nat \<Rightarrow> nat \<Rightarrow> string" where
  "pad_hex 0 n = []"
| "pad_hex (Suc k) n = pad_hex k (n div 16) @ [hex_digit (n mod 16)]"

text \<open>\<open>appendEscapedRune\<close>, \<open>bs\<close> the bytes of the rune.\<close>

definition escape_rune :: "(nat \<Rightarrow> bool) \<Rightarrow> nat \<Rightarrow> string \<Rightarrow> string" where
  "escape_rune printable r bs =
     (if r = 0x22 \<or> r = 0x5C then backslash # bs
      else if (if r < 0x80 then 0x20 \<le> r \<and> r < 0x7F else printable r) then bs
      else if r = 0x07 then [backslash, CHR ''a'']
      else if r = 0x08 then [backslash, CHR ''b'']
      else if r = 0x0C then [backslash, CHR ''f'']
      else if r = 0x0A then [backslash, CHR ''n'']
      else if r = 0x0D then [backslash, CHR ''r'']
      else if r = 0x09 then [backslash, CHR ''t'']
      else if r = 0x0B then [backslash, CHR ''v'']
      else if r < 0x20 \<or> r = 0x7F then backslash # CHR ''x'' # pad_hex 2 r
      else if r < 0x10000 then backslash # CHR ''u'' # pad_hex 4 r
      else backslash # CHR ''U'' # pad_hex 8 r)"

function go_quote_body :: "(nat \<Rightarrow> bool) \<Rightarrow> string \<Rightarrow> string" where
  "go_quote_body printable [] = []"
| "go_quote_body printable (c # cs) = (case decode_rune (c # cs) of
     None \<Rightarrow> backslash # CHR ''x'' # pad_hex 2 (code c) @ go_quote_body printable cs
   | Some (r, n) \<Rightarrow> escape_rune printable r (take n (c # cs)) @ go_quote_body printable (drop (n - 1) cs))"
  by pat_completeness auto
termination by (relation "measure (length \<circ> snd)") auto

definition go_quote :: "(nat \<Rightarrow> bool) \<Rightarrow> string \<Rightarrow> string" where
  "go_quote printable s = quote_char # go_quote_body printable s @ [quote_char]"

section \<open>Errors\<close>

text \<open>
  In every format of the sources the verbs match the arguments, and the verb of the cause (\<open>%w\<close>,
  or \<open>%v\<close>) is the last.
\<close>

fun arg_text :: "(nat \<Rightarrow> bool) \<Rightarrow> char \<Rightarrow> go_arg \<Rightarrow> string" where
  "arg_text printable verb (AStr s) = (if verb = CHR ''q'' then go_quote printable s else s)"
| "arg_text printable verb (AInt i) = show_int i"

fun sprintf :: "(nat \<Rightarrow> bool) \<Rightarrow> string \<Rightarrow> go_arg list \<Rightarrow> string" where
  "sprintf printable [] args = []"
| "sprintf printable [c] args = [c]"
| "sprintf printable (c # verb # cs) args =
     (if c \<noteq> CHR ''%'' then c # sprintf printable (verb # cs) args
      else case args of
          [] \<Rightarrow> ''%!'' @ verb # ''(MISSING)'' @ sprintf printable cs []
        | a # as \<Rightarrow> arg_text printable verb a @ sprintf printable cs as)"

fun error_text :: "texts \<Rightarrow> go_error \<Rightarrow> string" where
  "error_text tx (Foreign s) = txt_foreign tx s"
| "error_text tx (Errorf f args) = sprintf (txt_printable tx) f args"
| "error_text tx (Wrapf f args e) = sprintf (txt_printable tx) f (args @ [AStr (error_text tx e)])"

lemma sprintf_plain: "CHR ''%'' \<notin> set f \<Longrightarrow> sprintf printable f args = f"
  by (induction printable f args rule: sprintf.induct) auto

text \<open>Text before the first verb stays; the cause ends up where \<open>%w\<close> was.\<close>

lemma sprintf_verb:
  "CHR ''%'' \<notin> set f \<Longrightarrow> sprintf printable (f @ CHR ''%'' # verb # cs) (a # as) =
     f @ arg_text printable verb a @ sprintf printable cs as"
proof (induction f)
  case (Cons c f)
  then show ?case by (cases f) auto
qed simp

lemma error_text_wrap:
  "CHR ''%'' \<notin> set f \<Longrightarrow> error_text tx (Wrapf (f @ ''%w'') [] e) = f @ error_text tx e"
  using sprintf_verb[of f "txt_printable tx" "CHR ''w''" "[]"] by simp

end
