(* ===== verification/Events.thy ===== *)
theory Events
  imports Ports GoTime JsonCodec
begin

text \<open>
  \<^verbatim>\<open>internal/adapter/events\<close>: the publisher that only logs, and the one over Kafka. The
  message is the event as \<^verbatim>\<open>json.Marshal\<close> writes it, keyed by the transaction hash; it has the
  event's every field (\<open>kafka_messages_distinct\<close>), unless the block's time has no four-digit year.
  The retry loop is bounded (\<open>kafka_publish_bounded\<close>).
\<close>

section \<open>An event as JSON\<close>

definition json_uint :: "nat \<Rightarrow> json" where
  "json_uint n = JNumber (show_int (int n))"

definition asset_json :: "asset \<Rightarrow> json" where
  "asset_json a = JObject
     [(''Symbol'', JText (asset_symbol a)), (''Decimals'', json_uint (unat (asset_decimals a))),
      (''Native'', JBoolean (asset_native a)), (''ContractAddress'', JText (asset_contract a))]"

definition amount_json :: "amount \<Rightarrow> json" where
  "amount_json a = JObject
     [(''Asset'', asset_json (amt_asset a)),
      (''Base'', case amt_base a of None \<Rightarrow> JNull | Some n \<Rightarrow> JNumber (show_int n))]"

definition event_json :: "tx_event \<Rightarrow> json go" where
  "event_json e =
     go_bind (rfc3339_nano (ev_time e)) (\<lambda>ts.
     Val (JObject
       [(''Type'', JText (ev_type e)), (''Chain'', JText (ev_chain e)), (''Address'', JText (ev_address e)),
        (''Counterparty'', JText (ev_counterparty e)), (''Hash'', JText (ev_hash e)),
        (''Amount'', amount_json (ev_amount e)), (''Status'', JText (ev_status e)),
        (''BlockHeight'', json_uint (unat (ev_height e))), (''Timestamp'', JText ts)]))"

definition marshal_event :: "tx_event \<Rightarrow> bytes go" where
  "marshal_event e = go_bind (event_json e) (\<lambda>v. Val (bytes_of (json_print v)))"

section \<open>Publishers\<close>

text \<open>\<open>Noop\<close> writes to the log, which is not modelled.\<close>

definition noop_publish :: "tx_event \<Rightarrow> ('w, unit) io" where
  "noop_publish evt = io_return ()"

definition noop_publisher :: "'w publisher" where
  "noop_publisher = \<lparr>pub_publish = noop_publish\<rparr>"

text \<open>
  kafka-go is a parameter. \<open>kw_wait\<close> is the \<open>select\<close> between the timer
  and the context: \<open>None\<close> when the timer fires first, the context's error otherwise.
\<close>

record kafka_message =
  km_key :: bytes
  km_value :: bytes

record 'w kafka_writer =
  kw_write :: "kafka_message \<Rightarrow> ('w, unit) io"
  kw_wait :: "time \<Rightarrow> ('w, go_error option) io"
  kw_close :: "('w, unit) io"

definition unknown_topic :: go_error where
  "unknown_topic = Foreign ''kafka.UnknownTopicOrPartition''"

definition auto_create_retries :: nat where "auto_create_retries = 5"
definition auto_create_retry_delay :: time where "auto_create_retry_delay = 250 * 1000000"

text \<open>The writer that \<open>New\<close> asks kafka-go for.\<close>

record writer_settings =
  ws_addr :: "string list"
  ws_topic :: string
  ws_balancer :: string
  ws_allow_auto_topic_creation :: bool

definition kafka_new :: "(writer_settings \<Rightarrow> 'w kafka_writer) \<Rightarrow> string list \<Rightarrow> string \<Rightarrow> 'w kafka_writer" where
  "kafka_new writer brokers topic = writer
     \<lparr>ws_addr = brokers, ws_topic = topic, ws_balancer = ''LeastBytes'', ws_allow_auto_topic_creation = True\<rparr>"

definition kafka_close :: "'w kafka_writer \<Rightarrow> ('w, unit) io" where
  "kafka_close kw = kw_close kw"

definition kafka_encode :: "tx_event \<Rightarrow> kafka_message go" where
  "kafka_encode evt =
     go_bind (go_wrap (Wrapf ''kafka: marshal event %s: %w'' [AStr (ev_hash evt)]) (marshal_event evt)) (\<lambda>value.
     Val \<lparr>km_key = bytes_of (ev_hash evt), km_value = value\<rparr>)"

function kafka_retry :: "'w kafka_writer \<Rightarrow> string \<Rightarrow> kafka_message \<Rightarrow> nat \<Rightarrow> ('w, unit) io" where
  "kafka_retry kw hash msg attempt w =
     (case kw_write kw msg w of
        (Val _, w1) \<Rightarrow> (Val (), w1)
      | (Panic, w1) \<Rightarrow> (Panic, w1)
      | (Err e, w1) \<Rightarrow>
          (if auto_create_retries \<le> attempt \<or> \<not> errors_is e unknown_topic
           then (Err (Wrapf ''kafka: publish %s: %w'' [AStr hash] e), w1)
           else case kw_wait kw auto_create_retry_delay w1 of
               (Val None, w2) \<Rightarrow> kafka_retry kw hash msg (attempt + 1) w2
             | (Val (Some ce), w2) \<Rightarrow> (Err (Wrapf ''kafka: publish %s: %w'' [AStr hash] ce), w2)
             | (Err e', w2) \<Rightarrow> (Err e', w2)
             | (Panic, w2) \<Rightarrow> (Panic, w2)))"
  by pat_completeness auto
termination
  by (relation "measure (\<lambda>(kw, hash, msg, attempt, w). auto_create_retries - attempt)")
    (auto simp: auto_create_retries_def)

declare kafka_retry.simps [simp del]

definition kafka_publish ::
  "'w kafka_writer \<Rightarrow> tx_event \<Rightarrow> ('w, unit) io" where
  "kafka_publish kw evt =
     io_bind (io_lift (kafka_encode evt)) (\<lambda>msg. kafka_retry kw (ev_hash evt) msg 1)"

definition kafka_publisher :: "'w kafka_writer \<Rightarrow> 'w publisher" where
  "kafka_publisher kw = \<lparr>pub_publish = kafka_publish kw\<rparr>"

text \<open>
  A broker that counts the writes it is asked for: how many have come, and the answer to each.
\<close>

definition counting_writer :: "(nat \<Rightarrow> unit go) \<Rightarrow> (nat \<Rightarrow> go_error option) \<Rightarrow> nat kafka_writer" where
  "counting_writer answers waits =
     \<lparr>kw_write = (\<lambda>_ n. (answers n, n + 1)), kw_wait = (\<lambda>_ n. (Val (waits n), n)), kw_close = io_return ()\<rparr>"

definition retried :: "(nat \<Rightarrow> unit go) \<Rightarrow> (nat \<Rightarrow> go_error option) \<Rightarrow> nat \<Rightarrow> bool" where
  "retried answers waits k \<longleftrightarrow>
     (case answers k of Err e \<Rightarrow> errors_is e unknown_topic | _ \<Rightarrow> False) \<and> waits (k + 1) = None"

definition publish_outcome ::
  "string \<Rightarrow> (nat \<Rightarrow> unit go) \<Rightarrow> (nat \<Rightarrow> go_error option) \<Rightarrow> nat \<Rightarrow> unit go" where
  "publish_outcome hash answers waits k =
     (case answers k of
        Err e \<Rightarrow> Err (Wrapf ''kafka: publish %s: %w'' [AStr hash]
          (if 4 \<le> k \<or> \<not> errors_is e unknown_topic then e else the (waits (k + 1))))
      | r \<Rightarrow> r)"

lemma kafka_retry_counting:
  assumes "n \<le> 4"
  shows "\<exists>k \<ge> n. k < 5 \<and> (\<forall>j. n \<le> j \<longrightarrow> j < k \<longrightarrow> retried answers waits j) \<and>
           (k < 4 \<longrightarrow> \<not> retried answers waits k) \<and>
           kafka_retry (counting_writer answers waits) h msg (n + 1) n =
             (publish_outcome h answers waits k, k + 1)"
  using assms
proof (induction "4 - n" arbitrary: n)
  case 0
  then have "n = 4" by simp
  then show ?case
    by (cases "answers 4"; intro exI[of _ n], subst kafka_retry.simps)
      (simp_all add: counting_writer_def auto_create_retries_def publish_outcome_def)
next
  case (Suc d)
  show ?case
  proof (cases "retried answers waits n")
    case True
    then have "kafka_retry (counting_writer answers waits) h msg (n + 1) n =
        kafka_retry (counting_writer answers waits) h msg (n + 1 + 1) (n + 1)"
      using Suc.hyps(2)
      by (subst kafka_retry.simps)
        (auto simp: counting_writer_def auto_create_retries_def retried_def split: go.splits)
    moreover have "d = 4 - (n + 1)" "n + 1 \<le> 4" using Suc.hyps(2) by simp_all
    from Suc.hyps(1)[OF this] obtain k where
      k: "n + 1 \<le> k" "k < 5" "\<forall>j. n + 1 \<le> j \<longrightarrow> j < k \<longrightarrow> retried answers waits j"
        "k < 4 \<longrightarrow> \<not> retried answers waits k"
        "kafka_retry (counting_writer answers waits) h msg (n + 1 + 1) (n + 1) =
           (publish_outcome h answers waits k, k + 1)"
      by blast
    moreover have "retried answers waits j" if "n \<le> j" "j < k" for j
      using that k(3) True by (cases "j = n") auto
    ultimately show ?thesis by (intro exI[of _ k]) auto
  next
    case False
    then show ?thesis
      using Suc.hyps(2)
      by (intro exI[of _ n], subst kafka_retry.simps)
        (auto simp: counting_writer_def auto_create_retries_def publish_outcome_def retried_def
          split: go.splits option.splits)
  qed
qed

text \<open>What an event must be for its message to say what it says: its strings are UTF-8.\<close>

definition event_text_ok :: "tx_event \<Rightarrow> bool" where
  "event_text_ok e \<longleftrightarrow> (\<forall>s \<in> {ev_type e, ev_chain e, ev_address e, ev_counterparty e, ev_hash e, ev_status e,
     asset_symbol (amt_asset (ev_amount e)), asset_contract (amt_asset (ev_amount e))}. valid_utf8 s)"

lemma text_literals [simp]:
  "valid_utf8 ''Symbol''" "valid_utf8 ''Decimals''" "valid_utf8 ''Native''" "valid_utf8 ''ContractAddress''"
  "valid_utf8 ''Asset''" "valid_utf8 ''Base''" "valid_utf8 ''Type''" "valid_utf8 ''Chain''" "valid_utf8 ''Address''"
  "valid_utf8 ''Counterparty''" "valid_utf8 ''Hash''" "valid_utf8 ''Amount''" "valid_utf8 ''Status''"
  "valid_utf8 ''BlockHeight''" "valid_utf8 ''Timestamp''"
  by code_simp+

lemma ascii_append [simp]: "\<forall>c \<in> set s. code c < 0x80 \<Longrightarrow> \<forall>c \<in> set t. code c < 0x80 \<Longrightarrow> \<forall>c \<in> set (s @ t). code c < 0x80"
  by auto

lemma rfc3339_valid: "rfc3339_nano t = Val s \<Longrightarrow> valid_utf8 s"
proof -
  have digit: "code (digit_char (n mod 10)) < 0x80" for n by (simp add: code_def of_char_digit_char)
  have pad: "c \<in> set (pad_digits k n) \<Longrightarrow> code c < 0x80" for c k n
    by (induction k arbitrary: n) (auto simp: digit)
  have frac: "c \<in> set (frac_text n) \<Longrightarrow> code c < 0x80" for c n
    by (auto simp: frac_text_def trim_zeros_def code_def[of "CHR ''.''"] dest!: set_dropWhileD intro: pad split: if_splits)
  have sep: "code CHR ''-'' < 0x80" "code CHR '':'' < 0x80" "code CHR ''T'' < 0x80" "code CHR ''Z'' < 0x80"
    by code_simp+
  assume "rfc3339_nano t = Val s"
  then have "\<forall>c \<in> set s. code c < 0x80"
    by (auto simp: rfc3339_nano_def Let_def date_text_def clock_text_def sep intro: pad frac split: prod.splits if_splits)
  then show ?thesis by (rule ascii_valid)
qed

lemma event_json_ok: "event_text_ok e \<Longrightarrow> event_json e = Val v \<Longrightarrow> json_ok v \<and> json_depth v \<le> max_depth"
  by (auto simp: event_json_def go_bind_Val_iff event_text_ok_def amount_json_def asset_json_def json_uint_def
      max_depth_def rfc3339_valid split: option.splits)

lemma json_uint_inject [simp]: "json_uint m = json_uint n \<longleftrightarrow> m = n"
  by (simp add: json_uint_def)

lemma asset_json_inject [simp]: "asset_json a = asset_json b \<longleftrightarrow> a = b"
  by (cases a; cases b) (simp add: asset_json_def word_unat_eq_iff)

lemma amount_json_inject [simp]: "amount_json a = amount_json b \<longleftrightarrow> a = b"
  by (cases a; cases b) (auto simp: amount_json_def split: option.splits)

lemma event_json_inject: "event_json e = Val v \<Longrightarrow> event_json f = Val v \<Longrightarrow> e = f"
  by (cases e; cases f) (auto simp: event_json_def go_bind_Val_iff word_unat_eq_iff dest: rfc3339_inject)

text \<open>
  C34. Publishing asks the broker at least once and at most five times. It asks again only after
  the answer that the topic does not exist yet, with the context still alive; it reports success
  exactly when the last answer was success, and otherwise the last answer, or the context's
  error, wrapped with the hash. An event whose time is not in the years 0 to 9999 cannot be
  encoded: the broker is not asked, and publishing fails.
\<close>

theorem kafka_publish_bounded:
  "if - 62167219200 * 10 ^ 9 \<le> ev_time evt \<and> ev_time evt < 253402300800 * 10 ^ 9
   then \<exists>k < 5. kafka_publish (counting_writer answers waits) evt 0 =
             (publish_outcome (ev_hash evt) answers waits k, k + 1) \<and>
           (\<forall>j < k. retried answers waits j) \<and> (k < 4 \<longrightarrow> \<not> retried answers waits k)
   else kafka_publish (counting_writer answers waits) evt 0 =
          (Err (Wrapf ''kafka: marshal event %s: %w'' [AStr (ev_hash evt)] year_out_of_range), 0)"
proof (cases "\<exists>ts. rfc3339_nano (ev_time evt) = Val ts")
  case True
  then obtain v where v: "marshal_event evt = Val v" by (auto simp: marshal_event_def event_json_def)
  have "\<exists>k < 5. kafka_publish (counting_writer answers waits) evt 0 =
             (publish_outcome (ev_hash evt) answers waits k, k + 1) \<and>
           (\<forall>j < k. retried answers waits j) \<and> (k < 4 \<longrightarrow> \<not> retried answers waits k)"
    using kafka_retry_counting[of 0 answers waits "ev_hash evt" "\<lparr>km_key = bytes_of (ev_hash evt), km_value = v\<rparr>"]
    by (auto simp: kafka_publish_def kafka_encode_def v)
  then show ?thesis using True unfolding rfc3339_domain by (simp only: if_True simp_thms)
next
  case False
  then obtain e where e: "rfc3339_nano (ev_time evt) = Err e"
    using rfc3339_error(2) by (cases "rfc3339_nano (ev_time evt)") auto
  then have "kafka_publish (counting_writer answers waits) evt 0 =
      (Err (Wrapf ''kafka: marshal event %s: %w'' [AStr (ev_hash evt)] year_out_of_range), 0)"
    using rfc3339_error(1)[OF e] by (simp add: kafka_publish_def kafka_encode_def marshal_event_def event_json_def)
  with False show ?thesis unfolding rfc3339_domain by (simp only: if_False)
qed

text \<open>
  C35. Distinct events give distinct messages: type, chain, both addresses, hash, asset, amount, status,
  height and time can all be read back from the bytes of a message, and its key is the hash.
\<close>

theorem kafka_messages_distinct:
  assumes "kafka_encode e = Val m" and "kafka_encode f = Val m" and "event_text_ok e" and "event_text_ok f"
  shows "e = f \<and> km_key m = bytes_of (ev_hash e)"
proof -
  from assms(1,2) obtain v u where v: "event_json e = Val v" "km_value m = bytes_of (json_print v)"
    and u: "event_json f = Val u" "km_value m = bytes_of (json_print u)"
    and key: "km_key m = bytes_of (ev_hash e)"
    by (auto simp: kafka_encode_def marshal_event_def go_bind_Val_iff)
  have "json_print v = json_print u" using v(2) u(2) by (metis text_of_bytes)
  moreover have "first_value (json_print v @ []) = Some (v, [])" "first_value (json_print u @ []) = Some (u, [])"
    using event_json_ok[OF assms(3) v(1)] event_json_ok[OF assms(4) u(1)]
    by (intro parse_print; simp)+
  ultimately have "v = u" by simp
  with v(1) u(1) have "e = f" by (blast intro: event_json_inject)
  with key show ?thesis by simp
qed

definition sample_tx_event :: tx_event where
  "sample_tx_event = \<lparr>ev_type = EventInbound, ev_chain = ChainBase, ev_address = ''a'',
     ev_counterparty = ''b'', ev_hash = ''h'', ev_amount = \<lparr>amt_asset = native_asset ''ETH'' 18, amt_base = Some 5\<rparr>,
     ev_status = TxConfirmed, ev_height = 6, ev_time = 0\<rparr>"

theorem kafka_publish_bounded_witness:
  "\<exists>k < 5. snd (kafka_publish (counting_writer (\<lambda>n. if n < 2 then Err unknown_topic else Val ())
     (\<lambda>_. None)) sample_tx_event 0) = k + 1"
  using kafka_publish_bounded[of sample_tx_event "\<lambda>n. if n < 2 then Err unknown_topic else Val ()" "\<lambda>_. None"]
  by (auto simp: sample_tx_event_def)

theorem kafka_messages_distinct_witness:
  "\<exists>m. kafka_encode sample_tx_event = Val m \<and> km_key m = bytes_of ''h''"
proof -
  have utf8: "event_text_ok sample_tx_event" by code_simp
  have "\<exists>ts. rfc3339_nano (ev_time sample_tx_event) = Val ts"
    unfolding rfc3339_domain by (simp add: sample_tx_event_def)
  then obtain m where m: "kafka_encode sample_tx_event = Val m"
    by (auto simp: kafka_encode_def marshal_event_def event_json_def)
  from kafka_messages_distinct[OF m m utf8 utf8] m show ?thesis by (auto simp: sample_tx_event_def)
qed

end
