(* ===== verification/Answers.thy ===== *)
theory Answers
  imports Events JsonRaw GoFormat
begin

text \<open>
  What the program shows its users as JSON, for both transports: the domain's structs as
  \<^verbatim>\<open>encoding/json\<close> writes them, compact over HTTP and indented on the command line, each followed by a
  line break. The slices of wallets and accounts that the PostgreSQL repository returns are made by
  \<open>append\<close> to a nil slice, so an empty one is \<open>null\<close>. Both texts are read back as the same value (\<open>compact_text_parses\<close>, \<open>indented_text_parses\<close>).
\<close>

section \<open>Values\<close>

datatype payload =
    PWallet wallet
  | PWallets "wallet list"
  | PFields "(string \<times> string) list"
  | PTransaction transaction
  | PError go_error

definition slice_json :: "json list \<Rightarrow> json" where
  "slice_json vs = (if vs = [] then JNull else JArray vs)"

definition account_json :: "account \<Rightarrow> json" where
  "account_json a = JObject
     [(''Chain'', JText (acc_chain a)), (''Address'', JText (acc_address a)), (''Path'', JText (acc_path a))]"

definition wallet_json :: "texts \<Rightarrow> wallet \<Rightarrow> json go" where
  "wallet_json tx w =
     go_bind (time_json (txt_zone tx) (w_created w)) (\<lambda>created.
     Val (JObject
       [(''ID'', JText (w_id w)), (''Label'', JText (w_label w)), (''CreatedAt'', JText created),
        (''Accounts'', slice_json (map account_json (w_accounts w)))]))"

text \<open>The elements of a slice in order; the first that fails is the error of the whole.\<close>

fun json_all :: "('a \<Rightarrow> json go) \<Rightarrow> 'a list \<Rightarrow> json list go" where
  "json_all f [] = Val []"
| "json_all f (x # xs) = go_bind (f x) (\<lambda>v. go_bind (json_all f xs) (\<lambda>vs. Val (v # vs)))"

definition transaction_json :: "transaction \<Rightarrow> json" where
  "transaction_json t = JObject
     [(''Chain'', JText (tx_chain t)), (''Hash'', JText (tx_hash t)), (''Status'', JText (tx_status t)),
      (''Confirmations'', json_uint (unat (tx_confirmations t))),
      (''BlockHeight'', json_uint (unat (tx_block_height t))), (''Fee'', amount_json (tx_fee t))]"

text \<open>A map is written in the order of its keys.\<close>

fun payload_json :: "texts \<Rightarrow> payload \<Rightarrow> json go" where
  "payload_json tx (PWallet w) = wallet_json tx w"
| "payload_json tx (PWallets ws) = go_bind (json_all (wallet_json tx) ws) (\<lambda>vs. Val (slice_json vs))"
| "payload_json tx (PFields fs) = Val (map_json (map (\<lambda>(k, s). (k, JText s)) fs))"
| "payload_json tx (PTransaction t) = Val (transaction_json t)"
| "payload_json tx (PError e) = Val (map_json [(''error'', JText (error_text tx e))])"

section \<open>Texts\<close>

definition newline :: string where "newline = [CHR 0x0A]"

text \<open>
  \<open>json.NewEncoder(w).Encode(v)\<close>: nothing is written when the value cannot be encoded. With
  \<open>SetIndent("", "  ")\<close> the text is indented.
\<close>

definition encode_compact :: "texts \<Rightarrow> payload \<Rightarrow> string go" where
  "encode_compact tx p = go_bind (payload_json tx p) (\<lambda>v. Val (json_print v @ newline))"

definition encode_indent :: "texts \<Rightarrow> payload \<Rightarrow> string go" where
  "encode_indent tx p = go_bind (payload_json tx p) (\<lambda>v. Val (json_indent v @ newline))"

section \<open>Both texts are read back\<close>

lemma json_uint_fits [simp]: "numbers_ok (json_uint n)" "json_depth (json_uint n) = 0"
  by (simp_all add: json_uint_def)

lemma amount_json_fits: "numbers_ok (amount_json a) \<and> json_depth (amount_json a) \<le> 2"
  by (simp add: amount_json_def asset_json_def split: option.split)

lemma foldr_max_bound: "(\<And>x. x \<in> set xs \<Longrightarrow> x \<le> n) \<Longrightarrow> foldr max xs (0 :: nat) \<le> n"
  by (induction xs) auto

lemma slice_json_fits:
  assumes "\<And>v. v \<in> set vs \<Longrightarrow> numbers_ok v \<and> json_depth v \<le> n"
  shows "numbers_ok (slice_json vs) \<and> json_depth (slice_json vs) \<le> Suc n"
  using assms foldr_max_bound[of "map json_depth vs" n] by (fastforce simp: slice_json_def)

lemma account_json_fits: "numbers_ok (account_json a) \<and> json_depth (account_json a) \<le> 1"
  by (simp add: account_json_def)

lemma wallet_json_fits: "wallet_json tx w = Val v \<Longrightarrow> numbers_ok v \<and> json_depth v \<le> 3"
  using slice_json_fits[of "map account_json (w_accounts w)" 1] account_json_fits
  by (fastforce simp: wallet_json_def go_bind_Val_iff)

lemma json_all_mem: "json_all f xs = Val vs \<Longrightarrow> v \<in> set vs \<Longrightarrow> \<exists>x \<in> set xs. f x = Val v"
  by (induction xs arbitrary: vs) (auto simp: go_bind_Val_iff)

lemma map_json_fits: "numbers_ok (map_json (map (\<lambda>(k, s). (k, JText s)) fs)) \<and>
    json_depth (map_json (map (\<lambda>(k, s). (k, JText s)) fs)) \<le> 1"
proof -
  let ?ms = "sort_keys (map (\<lambda>(k, s). (k, JText s)) fs)"
  have "foldr max (map (\<lambda>(k, v). json_depth v) ?ms) 0 \<le> 0" by (rule foldr_max_bound) auto
  then show ?thesis by (auto simp: map_json_def)
qed

lemma payload_json_fits:
  assumes "payload_json tx p = Val v"
  shows "numbers_ok v \<and> json_depth v \<le> max_depth"
proof -
  have "numbers_ok v \<and> json_depth v \<le> 4"
  proof (cases p)
    case (PWallet w)
    then show ?thesis using assms wallet_json_fits by fastforce
  next
    case (PWallets ws)
    then obtain vs where vs: "json_all (wallet_json tx) ws = Val vs" "v = slice_json vs"
      using assms by (auto simp: go_bind_Val_iff)
    then show ?thesis using slice_json_fits[of vs 3] json_all_mem[OF vs(1)] wallet_json_fits by auto
  next
    case (PFields fs)
    then show ?thesis using assms map_json_fits[of fs] by auto
  next
    case (PTransaction t)
    then show ?thesis using assms amount_json_fits[of "tx_fee t"] by (auto simp: transaction_json_def)
  next
    case (PError e)
    then show ?thesis using assms map_json_fits[of "[(''error'', error_text tx e)]"] by auto
  qed
  then show ?thesis by (simp add: max_depth_def)
qed

lemma newline_ends: "number_end newline"
  by (simp add: newline_def number_end_def is_digit_def code_def)

lemma compact_text_parses: "encode_compact tx p = Val s \<Longrightarrow>
    \<exists>v. payload_json tx p = Val v \<and> first_value s = Some (json_valid v, newline)"
  using parse_compact[OF _ _ newline_ends] payload_json_fits[of tx p]
  by (auto simp: encode_compact_def go_bind_Val_iff)

lemma indented_text_parses: "encode_indent tx p = Val s \<Longrightarrow>
    \<exists>v. payload_json tx p = Val v \<and> first_value s = Some (json_valid v, newline)"
  using parse_indent[OF _ _ newline_ends] payload_json_fits[of tx p]
  by (auto simp: encode_indent_def go_bind_Val_iff)

lemma encode_total: "payload_json tx p \<noteq> Panic"
proof -
  have wallet: "wallet_json tx w \<noteq> Panic" for w
    using time_json_cases(2)[of "txt_zone tx" "w_created w"]
    by (cases "time_json (txt_zone tx) (w_created w)") (simp_all add: wallet_json_def)
  have all: "json_all (wallet_json tx) ws \<noteq> Panic" for ws
  proof (induction ws)
    case (Cons w ws)
    then show ?case using wallet[of w]
      by (cases "wallet_json tx w"; cases "json_all (wallet_json tx) ws") simp_all
  qed simp
  show ?thesis
  proof (cases p)
    case (PWallets ws)
    then show ?thesis using all[of ws] by (cases "json_all (wallet_json tx) ws") simp_all
  qed (simp_all add: wallet)
qed

text \<open>The JSON of an error, and of the balance's fields, in the order of the keys.\<close>

lemma error_json [simp]: "map_json [(k, v)] = JObject [(k, v)]"
  by (simp add: map_json_def sort_keys_def)

end
