(* ===== verification/Bitcoin.thy ===== *)
theory Bitcoin
  imports JsonCodec HdWallet Ports
begin

text \<open>
  \<^verbatim>\<open>internal/adapter/chain/bitcoin/adapter.go\<close>: the UTXO adapter. The node is a record of
  its RPC calls, the raw ones with JSON text both ways; btcd's codecs and scripts are the record
  \<open>btc_lib\<close>. \<open>wire.MsgTx\<close> is the struct whose public fields the code fills in.
  Satoshi values are Go's \<open>int64\<close>, with the wrap-around of every sum and product written.
\<close>

section \<open>Node, library and data\<close>

record utxo =
  u_txid :: string
  u_vout :: "32 word"
  u_satoshis :: int
  u_script :: bytes
  u_coinbase :: bool
  u_height :: int

record unspent =
  us_txid :: string
  us_vout :: "32 word"
  us_script_hex :: string
  us_amount :: float64
  us_coinbase :: bool
  us_height :: int

record tx_in =
  ti_hash :: bytes
  ti_index :: "32 word"
  ti_script :: bytes

record tx_out =
  to_value :: int
  to_script :: bytes

record msg_tx =
  mt_version :: int
  mt_in :: "tx_in list"
  mt_out :: "tx_out list"

text \<open>\<open>RawRequest\<close> takes a method and the JSON text of its parameters, and gives that of the result.\<close>

record 'w btc_node =
  bc_raw_request :: "string \<Rightarrow> string list \<Rightarrow> ('w, string) io"
  bc_send_raw_transaction :: "msg_tx \<Rightarrow> ('w, bytes) io"
  bc_get_raw_transaction_verbose :: "bytes \<Rightarrow> ('w, 64 word) io"

record btc_lib =
  bl_new_amount :: "float64 \<Rightarrow> int option"
  bl_decode_address :: "string \<Rightarrow> bytes go"
  bl_pay_to_addr_script :: "bytes \<Rightarrow> bytes go"
  bl_hash_from_str :: "string \<Rightarrow> bytes go"
  bl_hash_string :: "bytes \<Rightarrow> string"
  bl_serialize :: "msg_tx \<Rightarrow> bytes go"
  bl_deserialize :: "bytes \<Rightarrow> msg_tx go"
  bl_tx_hash :: "msg_tx \<Rightarrow> bytes"
  bl_calc_signature_hash :: "bytes \<Rightarrow> msg_tx \<Rightarrow> nat \<Rightarrow> bytes go"
  bl_build_script :: "bytes list \<Rightarrow> bytes go"
  bl_hash160 :: "bytes \<Rightarrow> bytes"
  bl_address_pub_key_hash :: "bytes \<Rightarrow> string go"

definition native_btc :: asset where
  "native_btc = native_asset ''BTC'' 8"

text \<open>A missing key of the map reads as zero.\<close>

definition fallback_fee_rate :: "fee_speed \<Rightarrow> int" where
  "fallback_fee_rate speed =
     (case map_of [(SpeedEconomy, 5), (SpeedStandard, 10), (SpeedFast, 20)] speed of
        None \<Rightarrow> 0 | Some r \<Rightarrow> r)"

section \<open>Coin selection\<close>

fun pick_utxos :: "int \<Rightarrow> utxo list \<Rightarrow> int \<Rightarrow> utxo list \<Rightarrow> (utxo list \<times> int) go" where
  "pick_utxos need selected tot [] =
     Err (Errorf ''insufficient funds: need %d sat, have %d sat'' [AInt need, AInt tot])"
| "pick_utxos need selected tot (u # us) =
     (let selected' = selected @ [u]; tot' = int64 (tot + u_satoshis u)
      in if tot' \<ge> need then Val (selected', tot')
         else pick_utxos need selected' tot' us)"

text \<open>
  \<open>sort.Slice\<close> is not stable, so the order of equal values is not determined; the sort is
  an argument and \<open>sorts_largest_first\<close> is its documented behaviour.
\<close>

definition sorts_largest_first :: "(utxo list \<Rightarrow> utxo list) \<Rightarrow> bool" where
  "sorts_largest_first srt \<longleftrightarrow>
     (\<forall>us. mset (srt us) = mset us \<and> sorted_wrt (\<lambda>a b. u_satoshis b \<le> u_satoshis a) (srt us))"

definition select_utxos :: "(utxo list \<Rightarrow> utxo list) \<Rightarrow> utxo list \<Rightarrow> int \<Rightarrow> (utxo list \<times> int) go" where
  "select_utxos srt utxos need = pick_utxos need [] 0 (srt utxos)"

section \<open>Reading the node\<close>

fun keep_unspents :: "btc_lib \<Rightarrow> unspent list \<Rightarrow> utxo list" where
  "keep_unspents lib [] = []"
| "keep_unspents lib (u # us) =
     (case bl_new_amount lib (us_amount u) of
        None \<Rightarrow> keep_unspents lib us
      | Some amt \<Rightarrow>
          (case hex_decode (us_script_hex u) of
             Val spk \<Rightarrow>
               \<lparr>u_txid = us_txid u, u_vout = us_vout u, u_satoshis = int64 amt, u_script = spk,
                u_coinbase = us_coinbase u, u_height = us_height u\<rparr> # keep_unspents lib us
           | _ \<Rightarrow> keep_unspents lib us))"

definition unspent_type :: go_type where
  "unspent_type = anon_struct
     [(''TxID'', ''txid'', TyString), (''VOut'', ''vout'', TyUint 32), (''ScriptPubKey'', ''scriptPubKey'', TyString),
      (''Amount'', ''amount'', TyFloat), (''Coinbase'', ''coinbase'', TyBool), (''Height'', ''height'', TyInt 64)]"

definition scan_type :: go_type where
  "scan_type = anon_struct [(''Success'', ''success'', TyBool), (''Unspents'', ''unspents'', TySlice unspent_type)]"

definition unspent_of :: "go_value \<Rightarrow> unspent" where
  "unspent_of v =
     \<lparr>us_txid = the_string (field_value v ''txid''), us_vout = word_of_int (the_int (field_value v ''vout'')),
      us_script_hex = the_string (field_value v ''scriptPubKey''), us_amount = the_float (field_value v ''amount''),
      us_coinbase = the_bool (field_value v ''coinbase''), us_height = the_int (field_value v ''height'')\<rparr>"

definition scan_params :: "string \<Rightarrow> string list" where
  "scan_params addr =
     [json_print (JText ''start''),
      json_print (JArray [JObject [(''desc'', JText (''addr('' @ addr @ '')''))]])]"

definition fetch_utxos :: "btc_lib \<Rightarrow> 'w btc_node \<Rightarrow> string \<Rightarrow> ('w, utxo list) io" where
  "fetch_utxos lib cl addr =
     io_bind (io_wrap (Wrapf ''bitcoin: scantxoutset: %w'' [])
                (bc_raw_request cl ''scantxoutset'' (scan_params addr))) (\<lambda>raw.
     io_bind (io_lift (go_wrap (Wrapf ''bitcoin: parse scantxoutset: %w'' []) (unmarshal scan_type raw))) (\<lambda>result.
     io_return (keep_unspents lib (map unspent_of (the_slice (field_value result ''unspents''))))))"

definition mature :: "int \<Rightarrow> utxo \<Rightarrow> bool" where
  "mature tip u \<longleftrightarrow> \<not> (u_coinbase u \<and> int64 (tip - u_height u) < 99)"

definition spendable :: "'w btc_node \<Rightarrow> utxo list \<Rightarrow> ('w, utxo list) io" where
  "spendable cl utxos =
     io_bind (io_wrap (Wrapf ''bitcoin: getblockcount: %w'' []) (bc_raw_request cl ''getblockcount'' [])) (\<lambda>raw.
     io_bind (io_lift (go_wrap (Wrapf ''bitcoin: parse blockcount: %w'' []) (unmarshal (TyInt 64) raw))) (\<lambda>tip.
     io_return (filter (mature (the_int tip)) utxos)))"

fun sum_satoshis :: "int \<Rightarrow> utxo list \<Rightarrow> int" where
  "sum_satoshis tot [] = tot"
| "sum_satoshis tot (u # us) = sum_satoshis (int64 (tot + u_satoshis u)) us"

definition btc_balance :: "btc_lib \<Rightarrow> 'w btc_node \<Rightarrow> address \<Rightarrow> asset \<Rightarrow> ('w, amount) io" where
  "btc_balance lib cl addr _ =
     io_bind (fetch_utxos lib cl addr) (\<lambda>utxos.
     io_return \<lparr>amt_asset = native_btc, amt_base = Some (sum_satoshis 0 utxos)\<rparr>)"

section \<open>Fees\<close>

text \<open>\<open>int64(result.FeeRate * 1e8 / 1000)\<close>: BTC per kB to satoshi per virtual byte.\<close>

definition sat_per_vbyte :: "float64 \<Rightarrow> int" where
  "sat_per_vbyte rate = f64_to_int64 (f64_div (f64_mul rate (10 ^ 8)) 1000)"

definition btc_vsize :: int where
  "btc_vsize = 1 * 148 + 2 * 34 + 10"

definition feerate_type :: go_type where
  "feerate_type = anon_struct [(''FeeRate'', ''feerate'', TyFloat)]"

definition btc_fee_rate :: "fee_speed \<Rightarrow> go_error + string \<Rightarrow> int" where
  "btc_fee_rate speed reply =
     (case reply of
        Inl _ \<Rightarrow> fallback_fee_rate speed
      | Inr raw \<Rightarrow> (case unmarshal feerate_type raw of
          Val result \<Rightarrow>
            (let rate = the_float (field_value result ''feerate'')
             in if rate > 0 then sat_per_vbyte rate else fallback_fee_rate speed)
        | _ \<Rightarrow> fallback_fee_rate speed))"

definition btc_fee_of :: "fee_speed \<Rightarrow> int \<Rightarrow> fee_estimate" where
  "btc_fee_of speed rate =
     \<lparr>fee_speed = speed,
      fee_total = \<lparr>amt_asset = native_btc, amt_base = Some (int64 (btc_vsize * rate))\<rparr>,
      fee_params = [(''fee_rate_sat_per_vbyte'', show_int rate),
                    (''estimated_vsize'', show_int btc_vsize)]\<rparr>"

definition btc_estimate_fee :: "'w btc_node \<Rightarrow> transfer_request \<Rightarrow> ('w, fee_estimate) io" where
  "btc_estimate_fee cl req =
     io_bind (io_try (bc_raw_request cl ''estimatesmartfee'' [''6''])) (\<lambda>reply.
     io_return (btc_fee_of (req_speed req) (btc_fee_rate (req_speed req) reply)))"

section \<open>Building a transfer\<close>

definition new_msg_tx :: msg_tx where
  "new_msg_tx = \<lparr>mt_version = 1, mt_in = [], mt_out = []\<rparr>"

fun add_inputs :: "btc_lib \<Rightarrow> utxo list \<Rightarrow> msg_tx \<Rightarrow> bytes list \<Rightarrow> (msg_tx \<times> bytes list) go" where
  "add_inputs lib [] tx spks = Val (tx, spks)"
| "add_inputs lib (u # us) tx spks =
     go_bind (go_wrap (Wrapf ''bitcoin: parse txid %s: %w'' [AStr (u_txid u)])
                (bl_hash_from_str lib (u_txid u))) (\<lambda>hash.
     add_inputs lib us
       (tx\<lparr>mt_in := mt_in tx @ [\<lparr>ti_hash = hash, ti_index = u_vout u, ti_script = []\<rparr>]\<rparr>)
       (spks @ [u_script u]))"

text \<open>The part of \<open>BuildTransfer\<close> after the node has answered: selection to outputs.\<close>

definition assemble_tx ::
  "btc_lib \<Rightarrow> (utxo list \<Rightarrow> utxo list) \<Rightarrow> utxo list \<Rightarrow> address \<Rightarrow> address \<Rightarrow> int \<Rightarrow> int
     \<Rightarrow> (msg_tx \<times> bytes list) go" where
  "assemble_tx lib srt utxos from_a to_a sendSat feeSat =
     go_bind (go_wrap (Wrapf ''bitcoin: %w'' []) (select_utxos srt utxos (int64 (sendSat + feeSat))))
       (\<lambda>(selected, totalIn).
     go_bind (go_wrap (Wrapf ''bitcoin: decode to address: %w'' []) (bl_decode_address lib to_a)) (\<lambda>toAddr.
     go_bind (go_wrap (Wrapf ''bitcoin: decode from address: %w'' []) (bl_decode_address lib from_a)) (\<lambda>fromAddr.
     go_bind (go_wrap (Wrapf ''bitcoin: to script: %w'' []) (bl_pay_to_addr_script lib toAddr)) (\<lambda>toScript.
     go_bind (go_wrap (Wrapf ''bitcoin: change script: %w'' []) (bl_pay_to_addr_script lib fromAddr)) (\<lambda>changeScript.
     go_bind (add_inputs lib selected new_msg_tx []) (\<lambda>(tx, spks).
     let tx1 = tx\<lparr>mt_out := mt_out tx @ [\<lparr>to_value = sendSat, to_script = toScript\<rparr>]\<rparr>;
         changeSat = int64 (totalIn - sendSat - feeSat);
         tx2 = (if changeSat > 0
                then tx1\<lparr>mt_out := mt_out tx1 @ [\<lparr>to_value = changeSat, to_script = changeScript\<rparr>]\<rparr>
                else tx1)
     in Val (tx2, spks)))))))"

text \<open>\<open>unsignedPayload\<close> and its two directions.\<close>

definition payload_type :: go_type where
  "payload_type = TyStruct ''bitcoin.unsignedPayload'' ''unsignedPayload''
     [(''tx'', TyBytes), (''spks'', TySlice TyBytes)]"

definition marshal_payload :: "bytes \<times> bytes list \<Rightarrow> bytes" where
  "marshal_payload p = (case p of (rawTx, spks) \<Rightarrow> bytes_of (marshal payload_type
     (GStruct [(''tx'', byte_slice rawTx), (''spks'', GSlice (map byte_slice spks))])))"

definition unmarshal_payload :: "bytes \<Rightarrow> (bytes \<times> bytes list) go" where
  "unmarshal_payload b =
     go_bind (unmarshal payload_type (text_of b)) (\<lambda>v.
     Val (slice_bytes (field_value v ''tx''), map slice_bytes (the_slice (field_value v ''spks''))))"

definition btc_build_transfer ::
  "btc_lib \<Rightarrow> (utxo list \<Rightarrow> utxo list) \<Rightarrow> 'w btc_node \<Rightarrow> transfer_request
     \<Rightarrow> ('w, unsigned_tx) io" where
  "btc_build_transfer lib srt cl req =
     io_bind (btc_estimate_fee cl req) (\<lambda>fee.
     io_bind (io_lift (base_of (fee_total fee))) (\<lambda>feeBase.
     io_bind (fetch_utxos lib cl (req_from req)) (\<lambda>allUTXOs.
     io_bind (spendable cl allUTXOs) (\<lambda>utxos.
     io_bind (io_lift (base_of (req_amount req))) (\<lambda>sendBase.
     io_bind (io_lift (assemble_tx lib srt utxos (req_from req) (req_to req)
                         (big_Int64 sendBase) (big_Int64 feeBase))) (\<lambda>(tx, spks).
     io_bind (io_lift (go_wrap (Wrapf ''bitcoin: serialize tx: %w'' []) (bl_serialize lib tx))) (\<lambda>raw.
     io_return \<lparr>utx_chain = ChainBitcoin, utx_account = zero_account, utx_request = req,
                utx_fee = fee, utx_payload = marshal_payload (raw, spks)\<rparr>)))))))"

section \<open>Signing, broadcasting, looking up\<close>

definition set_input_script :: "msg_tx \<Rightarrow> nat \<Rightarrow> bytes \<Rightarrow> msg_tx" where
  "set_input_script tx i s = tx\<lparr>mt_in := (mt_in tx)[i := (mt_in tx ! i)\<lparr>ti_script := s\<rparr>]\<rparr>"

text \<open>\<open>p.ScriptPubKeys[i]\<close> panics when the payload lists fewer scripts than inputs.\<close>

fun sign_inputs ::
  "btc_lib \<Rightarrow> signer \<Rightarrow> account \<Rightarrow> bytes \<Rightarrow> bytes list \<Rightarrow> nat list \<Rightarrow> msg_tx \<Rightarrow> msg_tx go" where
  "sign_inputs lib sg acc pubKey spks [] tx = Val tx"
| "sign_inputs lib sg acc pubKey spks (i # is) tx =
     (if length spks \<le> i then Panic
      else go_bind (go_wrap (Wrapf ''bitcoin: sig hash input %d: %w'' [AInt (int i)])
                      (bl_calc_signature_hash lib (spks ! i) tx i)) (\<lambda>sigHash.
           go_bind (go_wrap (Wrapf ''bitcoin: sign input %d: %w'' [AInt (int i)])
                      (sg_sign sg acc sigHash)) (\<lambda>sig.
           go_bind (go_wrap (Wrapf ''bitcoin: build scriptsig input %d: %w'' [AInt (int i)])
                      (bl_build_script lib [sig @ [0x01], pubKey])) (\<lambda>scriptSig.
           sign_inputs lib sg acc pubKey spks is (set_input_script tx i scriptSig)))))"

definition btc_sign :: "btc_lib \<Rightarrow> unsigned_tx \<Rightarrow> signer \<Rightarrow> signed_tx go" where
  "btc_sign lib utx sg =
     go_bind (go_wrap (Wrapf ''bitcoin: unmarshal payload: %w'' [])
                (unmarshal_payload (utx_payload utx))) (\<lambda>(rawTx, spks).
     go_bind (go_wrap (Wrapf ''bitcoin: deserialize tx: %w'' []) (bl_deserialize lib rawTx)) (\<lambda>tx.
     go_bind (go_wrap (Wrapf ''bitcoin: get pubkey: %w'' [])
                (sg_public_key sg (utx_account utx))) (\<lambda>pubKey.
     go_bind (sign_inputs lib sg (utx_account utx) pubKey spks [0..<length (mt_in tx)] tx) (\<lambda>stx.
     go_bind (go_wrap (Wrapf ''bitcoin: serialize signed tx: %w'' []) (bl_serialize lib stx)) (\<lambda>raw.
     Val \<lparr>stx_chain = ChainBitcoin, stx_raw = raw, stx_hash = bl_hash_string lib (bl_tx_hash lib stx)\<rparr>)))))"

definition btc_broadcast :: "btc_lib \<Rightarrow> 'w btc_node \<Rightarrow> signed_tx \<Rightarrow> ('w, string) io" where
  "btc_broadcast lib node tx =
     io_bind (io_lift (go_wrap (Wrapf ''bitcoin: deserialize: %w'' []) (bl_deserialize lib (stx_raw tx)))) (\<lambda>msgTx.
     io_bind (io_wrap (Wrapf ''bitcoin: broadcast: %w'' []) (bc_send_raw_transaction node msgTx)) (\<lambda>hash.
     io_return (bl_hash_string lib hash)))"

definition btc_get_transaction :: "btc_lib \<Rightarrow> 'w btc_node \<Rightarrow> string \<Rightarrow> ('w, transaction) io" where
  "btc_get_transaction lib node hash =
     io_bind (io_lift (go_wrap (Wrapf ''bitcoin: invalid hash %q: %w'' [AStr hash])
                         (bl_hash_from_str lib hash))) (\<lambda>h.
     io_bind (io_try (bc_get_raw_transaction_verbose node h)) (\<lambda>reply.
     case reply of
       Inl _ \<Rightarrow> io_return (bare_transaction ChainBitcoin hash TxUnknown)
     | Inr confirmations \<Rightarrow>
         (let status = (if confirmations = 0 then TxPending else TxConfirmed)
          in io_return ((bare_transaction ChainBitcoin hash status)\<lparr>tx_confirmations := confirmations\<rparr>))))"

definition btc_derive_account :: "btc_lib \<Rightarrow> 'k hdkeychain \<Rightarrow> bytes \<Rightarrow> derivation_path \<Rightarrow> account go" where
  "btc_derive_account lib hk seed path =
     go_bind (derive_key hk seed path) (\<lambda>key.
     go_bind (go_wrap (Wrapf ''bitcoin: ec pub key: %w'' []) (hk_ec_pub_key hk key)) (\<lambda>pubKey.
     go_bind (go_wrap (Wrapf ''bitcoin: derive address: %w'' [])
                (bl_address_pub_key_hash lib (bl_hash160 lib pubKey))) (\<lambda>addr.
     Val \<lparr>acc_chain = ChainBitcoin, acc_address = addr, acc_path = path\<rparr>)))"

definition bitcoin_adapter ::
  "btc_lib \<Rightarrow> (utxo list \<Rightarrow> utxo list) \<Rightarrow> 'k hdkeychain \<Rightarrow> 'w btc_node \<Rightarrow> 'w chain_adapter" where
  "bitcoin_adapter lib srt hk node =
     \<lparr>ca_chain = ChainBitcoin,
      ca_derive_account = btc_derive_account lib hk,
      ca_balance = btc_balance lib node,
      ca_estimate_fee = btc_estimate_fee node,
      ca_build_transfer = btc_build_transfer lib srt node,
      ca_sign = btc_sign lib,
      ca_broadcast = btc_broadcast lib node,
      ca_get_transaction = btc_get_transaction lib node\<rparr>"

end
