(* ===== verification/BitcoinFacts.thy ===== *)
theory BitcoinFacts
  imports Bitcoin
begin

text \<open>
  What the Bitcoin adapter promises: coin selection is a smallest covering set, a transfer
  conserves value to the satoshi, signing fills every input and never runs out of scripts,
  the fee conversion is exact up to rounding, only mature coins are spent.
\<close>

section \<open>Coin selection\<close>

definition total_of :: "utxo list \<Rightarrow> int" where
  "total_of us = sum_list (map u_satoshis us)"

text \<open>What the chain guarantees of an address's coins: no negative value, and a sum in range.\<close>

definition coins_ok :: "utxo list \<Rightarrow> bool" where
  "coins_ok us \<longleftrightarrow> (\<forall>u \<in> set us. 0 \<le> u_satoshis u) \<and> total_of us < 2 ^ 63"

lemma total_of_simps [simp]:
  "total_of [] = 0" "total_of (u # us) = u_satoshis u + total_of us"
  "total_of (us @ vs) = total_of us + total_of vs"
  by (simp_all add: total_of_def)

lemma total_of_nonneg: "\<forall>u \<in> set us. 0 \<le> u_satoshis u \<Longrightarrow> 0 \<le> total_of us"
  by (induction us) auto

lemma total_of_mset: "total_of us = (\<Sum>u \<in># mset us. u_satoshis u)"
  by (induction us) auto

lemma coins_ok_mset: "mset us = mset vs \<Longrightarrow> coins_ok us \<longleftrightarrow> coins_ok vs"
  by (metis coins_ok_def mset_eq_setD total_of_mset)

lemma coins_ok_tail:
  "0 \<le> t \<Longrightarrow> \<forall>v \<in> set (u # us). 0 \<le> u_satoshis v \<Longrightarrow> t + total_of (u # us) < 2 ^ 63 \<Longrightarrow>
     int64 (t + u_satoshis u) = t + u_satoshis u"
  using total_of_nonneg[of us] by (auto intro: int64_id)

lemma pick_utxos_Val:
  assumes "pick_utxos need sel tot us = Val (s, t)" and "0 \<le> tot"
    and "\<forall>u \<in> set us. 0 \<le> u_satoshis u" and "tot + total_of us < 2 ^ 63"
  shows "\<exists>k. 0 < k \<and> k \<le> length us \<and> s = sel @ take k us \<and> t = tot + total_of (take k us) \<and>
           need \<le> t \<and> (1 < k \<longrightarrow> tot + total_of (take (k - 1) us) < need)"
  using assms
proof (induction us arbitrary: sel tot)
  case (Cons u us)
  have sum: "int64 (tot + u_satoshis u) = tot + u_satoshis u"
    using Cons.prems by (intro coins_ok_tail) auto
  show ?case
  proof (cases "tot + u_satoshis u \<ge> need")
    case True
    with Cons.prems(1) sum show ?thesis by (intro exI[of _ 1]) (auto simp: Let_def)
  next
    case False
    with Cons.prems(1) sum have "pick_utxos need (sel @ [u]) (tot + u_satoshis u) us = Val (s, t)"
      by (simp add: Let_def)
    from Cons.IH[OF this] Cons.prems(2-4) obtain k where
      k: "0 < k" "k \<le> length us" "s = (sel @ [u]) @ take k us"
         "t = tot + u_satoshis u + total_of (take k us)" "need \<le> t"
         "1 < k \<longrightarrow> tot + u_satoshis u + total_of (take (k - 1) us) < need" by auto
    have "tot + total_of (take (Suc k - 1) (u # us)) < need"
      using k(1,6) False by (cases k; cases "k = 1") auto
    with k show ?thesis by (intro exI[of _ "Suc k"]) auto
  qed
qed simp

lemma pick_utxos_Err_iff:
  assumes "0 \<le> tot" and "\<forall>u \<in> set us. 0 \<le> u_satoshis u" and "tot + total_of us < 2 ^ 63"
  shows "(\<exists>e. pick_utxos need sel tot us = Err e) \<longleftrightarrow> us = [] \<or> tot + total_of us < need"
  using assms
proof (induction us arbitrary: sel tot)
  case (Cons u us)
  have sum: "int64 (tot + u_satoshis u) = tot + u_satoshis u"
    using Cons.prems by (intro coins_ok_tail) auto
  have nonneg: "0 \<le> total_of us" using Cons.prems by (intro total_of_nonneg) auto
  show ?case
  proof (cases "tot + u_satoshis u \<ge> need")
    case True
    with sum nonneg show ?thesis by (simp add: Let_def)
  next
    case False
    with Cons.IH[of "tot + u_satoshis u" "sel @ [u]"] Cons.prems sum show ?thesis
      by (auto simp: Let_def)
  qed
qed simp

lemma pick_utxos_no_panic: "pick_utxos need sel tot us \<noteq> Panic"
  by (induction us arbitrary: sel tot) (auto simp: Let_def)

text \<open>No choice of \<open>n\<close> coins is worth more than the first \<open>n\<close> of the sorted list.\<close>

lemma sum_le_largest:
  assumes "sorted_wrt (\<lambda>a b. u_satoshis b \<le> u_satoshis a) us" and "S \<subseteq># mset us"
  shows "(\<Sum>u \<in># S. u_satoshis u) \<le> total_of (take (size S) us)"
  using assms
proof (induction us arbitrary: S)
  case (Cons x us)
  show ?case
  proof (cases "x \<in># S")
    case True
    then obtain T where S: "S = add_mset x T" by (meson multi_member_split)
    with Cons.prems have "T \<subseteq># mset us" by simp
    with Cons show ?thesis by (simp add: S)
  next
    case False
    with Cons.prems(2) have sub: "S \<subseteq># mset us"
      by (simp add: subset_mset_notin)
    with Cons have IH: "(\<Sum>u \<in># S. u_satoshis u) \<le> total_of (take (size S) us)" by simp
    show ?thesis
    proof (cases "size S")
      case (Suc m)
      with sub have m: "m < length us"
        using size_mset_mono[OF sub] by simp
      then have "total_of (take (Suc m) us) = total_of (take m us) + u_satoshis (us ! m)"
        by (simp add: take_Suc_conv_app_nth)
      moreover have "u_satoshis (us ! m) \<le> u_satoshis x" using Cons.prems(1) m by simp
      ultimately show ?thesis using IH Suc by simp
    qed simp
  qed
qed simp

lemma select_utxos_cases:
  assumes "sorts_largest_first srt" and "coins_ok utxos"
    and "select_utxos srt utxos need = Val (sel, t)"
  obtains k where "0 < k" "k \<le> length (srt utxos)" "sel = take k (srt utxos)"
    "t = total_of sel" "need \<le> t" "1 < k \<longrightarrow> total_of (take (k - 1) (srt utxos)) < need"
proof -
  have "coins_ok (srt utxos)"
    using assms(1,2) coins_ok_mset[of "srt utxos" utxos] by (simp add: sorts_largest_first_def)
  with pick_utxos_Val[of need "[]" 0 "srt utxos" sel t] assms(3) that show ?thesis
    by (auto simp: select_utxos_def coins_ok_def)
qed

text \<open>
  C12. \<open>selectUTXOs\<close> does what its comment says: the coins it returns are among those given, the
  total it reports is theirs and covers the need, and no other choice of coins that covers the
  need is smaller.
\<close>

theorem select_utxos_smallest:
  assumes "sorts_largest_first srt" and "coins_ok utxos"
    and "select_utxos srt utxos need = Val (sel, t)"
  shows "mset sel \<subseteq># mset utxos \<and> t = total_of sel \<and> need \<le> t \<and>
         (\<forall>S. S \<subseteq># mset utxos \<longrightarrow> S \<noteq> {#} \<longrightarrow> need \<le> (\<Sum>u \<in># S. u_satoshis u) \<longrightarrow>
              length sel \<le> size S)"
proof -
  obtain k where k: "0 < k" "k \<le> length (srt utxos)" "sel = take k (srt utxos)"
    "t = total_of sel" "need \<le> t" "1 < k \<longrightarrow> total_of (take (k - 1) (srt utxos)) < need"
    using select_utxos_cases[OF assms] by blast
  have srt: "mset (srt utxos) = mset utxos"
    "sorted_wrt (\<lambda>a b. u_satoshis b \<le> u_satoshis a) (srt utxos)"
    using assms(1) by (simp_all add: sorts_largest_first_def)
  have sub: "mset sel \<subseteq># mset utxos"
    using srt(1) mset_take_subset[of k "srt utxos"] by (simp add: k(3))
  have nonneg: "\<forall>u \<in> set (srt utxos). 0 \<le> u_satoshis u"
    using assms(2) mset_eq_setD[OF srt(1)] by (simp add: coins_ok_def)
  have "length sel \<le> size S"
    if S: "S \<subseteq># mset utxos" "S \<noteq> {#}" "need \<le> (\<Sum>u \<in># S. u_satoshis u)" for S
  proof (rule ccontr)
    assume "\<not> length sel \<le> size S"
    with k have less: "size S < k" by simp
    moreover from S(2) have "0 < size S" by (simp add: nonempty_has_size)
    ultimately have "1 < k" by simp
    have "(\<Sum>u \<in># S. u_satoshis u) \<le> total_of (take (size S) (srt utxos))"
      using srt S(1) by (intro sum_le_largest) auto
    also have "\<dots> \<le> total_of (take (k - 1) (srt utxos))"
    proof -
      have "take (k - 1) (srt utxos) =
              take (size S) (srt utxos) @ take (k - 1 - size S) (drop (size S) (srt utxos))"
        using less take_add[of "size S" "k - 1 - size S" "srt utxos"] by simp
      moreover have "0 \<le> total_of (take (k - 1 - size S) (drop (size S) (srt utxos)))"
        using nonneg by (intro total_of_nonneg) (meson in_set_dropD in_set_takeD)
      ultimately show ?thesis by simp
    qed
    finally show False using \<open>1 < k\<close> k(6) S(3) by simp
  qed
  with sub k show ?thesis by blast
qed

text \<open>
  C38. \<open>selectUTXOs\<close> fails exactly when there is no coin at all or all coins together do not
  cover the need, and it never panics.
\<close>

theorem select_utxos_fails_iff:
  assumes "sorts_largest_first srt" and "coins_ok utxos"
  shows "((\<exists>e. select_utxos srt utxos need = Err e) \<longleftrightarrow> utxos = [] \<or> total_of utxos < need) \<and>
         select_utxos srt utxos need \<noteq> Panic"
proof -
  have srt: "mset (srt utxos) = mset utxos" using assms(1) by (simp add: sorts_largest_first_def)
  then have "coins_ok (srt utxos)" and "total_of (srt utxos) = total_of utxos"
    using assms(2) coins_ok_mset[OF srt] by (simp_all add: total_of_mset)
  moreover have "srt utxos = [] \<longleftrightarrow> utxos = []" using srt by auto
  ultimately have *: "(\<exists>e. pick_utxos need [] 0 (srt utxos) = Err e) \<longleftrightarrow> utxos = [] \<or> total_of utxos < need"
    using pick_utxos_Err_iff[of 0 "srt utxos" need "[]"] by (simp add: coins_ok_def)
  then show ?thesis by (simp add: select_utxos_def pick_utxos_no_panic)
qed

section \<open>Building a transfer\<close>

lemma add_inputs_Val:
  assumes "add_inputs lib us tx spks = Val (tx', spks')"
  shows "mt_version tx' = mt_version tx \<and> mt_out tx' = mt_out tx \<and>
         spks' = spks @ map u_script us \<and>
         (\<exists>ins. mt_in tx' = mt_in tx @ ins \<and>
            list_all2 (\<lambda>i u. bl_hash_from_str lib (u_txid u) = Val (ti_hash i) \<and>
                            ti_index i = u_vout u \<and> ti_script i = []) ins us)"
  using assms
proof (induction us arbitrary: tx spks)
  case (Cons u us)
  from Cons.prems obtain h where h: "bl_hash_from_str lib (u_txid u) = Val h"
    and rec: "add_inputs lib us
      (tx\<lparr>mt_in := mt_in tx @ [\<lparr>ti_hash = h, ti_index = u_vout u, ti_script = []\<rparr>]\<rparr>)
      (spks @ [u_script u]) = Val (tx', spks')"
    by (auto simp: go_bind_Val_iff)
  from Cons.IH[OF rec] obtain ins where
    "mt_in tx' = mt_in tx @ \<lparr>ti_hash = h, ti_index = u_vout u, ti_script = []\<rparr> # ins"
    "list_all2 (\<lambda>i u. bl_hash_from_str lib (u_txid u) = Val (ti_hash i) \<and>
                    ti_index i = u_vout u \<and> ti_script i = []) ins us" by auto
  with Cons.IH[OF rec] h show ?case
    by (intro conjI exI[of _ "\<lparr>ti_hash = h, ti_index = u_vout u, ti_script = []\<rparr> # ins"]) auto
qed simp

definition value_out :: "msg_tx \<Rightarrow> int" where
  "value_out tx = sum_list (map to_value (mt_out tx))"

text \<open>
  C10. A built Bitcoin transfer pays the recipient exactly the requested amount, returns the rest to the
  sender in at most one further, positive output, and leaves exactly the estimated fee to the
  miner: inputs = outputs + fee, to the satoshi. Its inputs are the selected coins, in order,
  unsigned, and the scripts handed to the signer are theirs.
\<close>

theorem assemble_tx_conserves_value:
  assumes "sorts_largest_first srt" and "coins_ok utxos"
    and "0 \<le> send" and "0 \<le> fee" and "send + fee < 2 ^ 63"
    and "assemble_tx lib srt utxos from_a to_a send fee = Val (tx, spks)"
  shows "\<exists>sel toAddr toScript fromAddr changeScript change.
           mset sel \<subseteq># mset utxos \<and>
           list_all2 (\<lambda>i u. bl_hash_from_str lib (u_txid u) = Val (ti_hash i) \<and>
                           ti_index i = u_vout u \<and> ti_script i = []) (mt_in tx) sel \<and>
           spks = map u_script sel \<and>
           bl_decode_address lib to_a = Val toAddr \<and> bl_pay_to_addr_script lib toAddr = Val toScript \<and>
           bl_decode_address lib from_a = Val fromAddr \<and>
           bl_pay_to_addr_script lib fromAddr = Val changeScript \<and>
           mt_out tx = \<lparr>to_value = send, to_script = toScript\<rparr> #
             (if change > 0 then [\<lparr>to_value = change, to_script = changeScript\<rparr>] else []) \<and>
           0 \<le> change \<and> total_of sel = value_out tx + fee"
proof -
  have need: "int64 (send + fee) = send + fee" using assms(3-5) by (intro int64_id) auto
  from assms(6) need obtain sel t toAddr fromAddr toScript changeScript tx0 spks0 where
    sel: "select_utxos srt utxos (send + fee) = Val (sel, t)"
    and dec: "bl_decode_address lib to_a = Val toAddr" "bl_decode_address lib from_a = Val fromAddr"
      "bl_pay_to_addr_script lib toAddr = Val toScript"
      "bl_pay_to_addr_script lib fromAddr = Val changeScript"
    and ins: "add_inputs lib sel new_msg_tx [] = Val (tx0, spks0)"
    and fin: "(let tx1 = tx0\<lparr>mt_out := mt_out tx0 @ [\<lparr>to_value = send, to_script = toScript\<rparr>]\<rparr>;
                   changeSat = int64 (t - send - fee);
                   tx2 = (if changeSat > 0
                          then tx1\<lparr>mt_out := mt_out tx1 @ [\<lparr>to_value = changeSat, to_script = changeScript\<rparr>]\<rparr>
                          else tx1)
               in Val (tx2, spks0)) = Val (tx, spks)"
    unfolding assemble_tx_def go_bind_Val_iff go_wrap_Val_iff split_paired_Ex prod.case by metis
  then have tx: "spks = spks0" "mt_in tx = mt_in tx0"
    "mt_out tx = mt_out tx0 @ \<lparr>to_value = send, to_script = toScript\<rparr> #
       (if int64 (t - send - fee) > 0
        then [\<lparr>to_value = int64 (t - send - fee), to_script = changeScript\<rparr>] else [])"
    by (auto simp: Let_def split: if_splits)
  from select_utxos_cases[OF assms(1,2) sel] obtain k where
    t: "t = total_of sel" "send + fee \<le> t" and k: "sel = take k (srt utxos)" by blast
  have srt: "mset (srt utxos) = mset utxos" using assms(1) by (simp add: sorts_largest_first_def)
  then have sub: "mset sel \<subseteq># mset utxos" by (metis k mset_take_subset)
  have "\<forall>u \<in> set (srt utxos). 0 \<le> u_satoshis u"
    using assms(2) mset_eq_setD[OF srt] by (simp add: coins_ok_def)
  then have "0 \<le> total_of (drop k (srt utxos))"
    by (intro total_of_nonneg) (meson in_set_dropD)
  moreover have "total_of (srt utxos) = total_of utxos" using srt by (simp add: total_of_mset)
  moreover have "total_of (srt utxos) = total_of sel + total_of (drop k (srt utxos))"
    by (metis append_take_drop_id k total_of_simps(3))
  ultimately have "t < 2 ^ 63" using assms(2) t by (simp add: coins_ok_def)
  then have change: "int64 (t - send - fee) = t - send - fee"
    using t(2) assms(3,4) by (intro int64_id) auto
  from add_inputs_Val[OF ins] have i: "mt_out tx0 = []" "spks0 = map u_script sel"
    "list_all2 (\<lambda>i u. bl_hash_from_str lib (u_txid u) = Val (ti_hash i) \<and>
                    ti_index i = u_vout u \<and> ti_script i = []) (mt_in tx0) sel"
    by (auto simp: new_msg_tx_def)
  have "total_of sel = value_out tx + fee"
    using t change by (simp add: value_out_def tx(3) i(1))
  with sub dec i tx t change show ?thesis
    by (intro exI[of _ sel] exI[of _ toAddr] exI[of _ toScript] exI[of _ fromAddr]
        exI[of _ changeScript] exI[of _ "t - send - fee"]) auto
qed

text \<open>
  The coins a transfer may spend are those not minted in a block, and those minted in one
  with at least 100 confirmations: \<open>COINBASE_MATURITY\<close>.
\<close>

lemma spendable_iff_mature:
  assumes "spendable node utxos w = (Val us, w')" and "bc_raw_request node ''getblockcount'' [] w = (Val raw, w1)"
    and "unmarshal (TyInt 64) raw = Val (GInt tip)"
    and "\<forall>u \<in> set utxos. 0 \<le> u_height u \<and> u_height u \<le> tip" and "tip < 2 ^ 62"
  shows "us = filter (\<lambda>u. u_coinbase u \<longrightarrow> 100 \<le> tip - u_height u + 1) utxos"
proof -
  from assms(1-3) have us: "us = filter (mature tip) utxos"
    by (auto simp: spendable_def io_bind_def io_wrap_def)
  have "mature tip u \<longleftrightarrow> (u_coinbase u \<longrightarrow> 100 \<le> tip - u_height u + 1)" if "u \<in> set utxos" for u
  proof -
    have "int64 (tip - u_height u) = tip - u_height u"
      using assms(4,5) that by (intro int64_id) auto
    then show ?thesis by (auto simp: mature_def)
  qed
  then show ?thesis unfolding us by (intro filter_cong) auto
qed

section \<open>Fees\<close>

lemma f64_to_int64_bounds:
  assumes "0 \<le> x" and "x < 2 ^ 62"
  shows "of_int (f64_to_int64 x) \<le> x \<and> x < of_int (f64_to_int64 x) + 1 \<and> 0 \<le> f64_to_int64 x"
proof -
  have "0 \<le> \<lfloor>x\<rfloor>" and "\<lfloor>x\<rfloor> < 2 ^ 62"
    using assms by (simp_all add: floor_less_iff)
  then have "f64_to_int64 x = \<lfloor>x\<rfloor>"
    using assms(1) by (simp add: f64_to_int64_def int64_id)
  moreover have "of_int \<lfloor>x\<rfloor> \<le> x" "x < of_int \<lfloor>x\<rfloor> + 1" by linarith+
  ultimately show ?thesis using \<open>0 \<le> \<lfloor>x\<rfloor>\<close> by simp
qed

text \<open>Two roundings in a row: the error grows to at most $2^{-51}$ of the exact value.\<close>

lemma sat_per_vbyte_float:
  fixes r :: rat
  assumes "0 \<le> r"
  defines "y \<equiv> f64_div (f64_mul r (10 ^ 8)) 1000"
  shows "0 \<le> y \<and> y \<le> r * 10 ^ 5 + r * 10 ^ 5 / 2 ^ 51 \<and> r * 10 ^ 5 - r * 10 ^ 5 / 2 ^ 51 \<le> y"
proof -
  define a where "a = fl (r * 10 ^ 8)"
  have a: "\<bar>a - r * 10 ^ 8\<bar> \<le> r * 10 ^ 8 / 2 ^ 53" "0 \<le> a"
    using fl_error[of "r * 10 ^ 8"] fl_nonneg[of "r * 10 ^ 8"] assms(1) by (simp_all add: a_def)
  have y: "y = fl (a / 1000)" by (simp add: y_def f64_div_def f64_mul_def a_def)
  have b: "\<bar>y - a / 1000\<bar> \<le> a / 1000 / 2 ^ 53"
    unfolding y using a(2) by (intro fl_error) simp
  have "y \<le> r * 10 ^ 5 + r * 10 ^ 5 / 2 ^ 51" and "r * 10 ^ 5 - r * 10 ^ 5 / 2 ^ 51 \<le> y"
    using a b assms(1) unfolding abs_le_iff by (auto simp: field_simps)
  moreover have "0 \<le> y" unfolding y using a(2) by (intro fl_nonneg) simp
  ultimately show ?thesis by simp
qed

text \<open>
  C37. The fee rate taken from the node is its BTC/kB figure times $10^5$, rounded down, up to the
  rounding of two \<open>float64\<close> operations; it is never negative.
\<close>

theorem sat_per_vbyte_accurate:
  assumes "0 \<le> rate" and "rate * 10 ^ 5 < 2 ^ 61"
  shows "0 \<le> sat_per_vbyte rate \<and>
         of_int (sat_per_vbyte rate) \<le> rate * 10 ^ 5 * (1 + 1 / 2 ^ 51) \<and>
         rate * 10 ^ 5 * (1 - 1 / 2 ^ 51) < of_int (sat_per_vbyte rate) + 1"
proof -
  define y where "y = f64_div (f64_mul rate (10 ^ 8)) 1000"
  from sat_per_vbyte_float[OF assms(1)]
  have y: "0 \<le> y" "y \<le> rate * 10 ^ 5 + rate * 10 ^ 5 / 2 ^ 51"
      "rate * 10 ^ 5 - rate * 10 ^ 5 / 2 ^ 51 \<le> y" by (simp_all add: y_def)
  have conv: "sat_per_vbyte rate = f64_to_int64 y" by (simp add: sat_per_vbyte_def y_def)
  have "y < 2 ^ 62" using y(2) assms(2) by (simp add: field_simps)
  from f64_to_int64_bounds[OF y(1) this] y(2,3) show ?thesis
    unfolding conv by (auto simp: field_simps)
qed

text \<open>
  A node estimate below one satoshi per virtual byte (a positive rate under 0.00001 BTC/kB)
  truncates to a rate of zero, and the transfer is built with no fee at all.
\<close>

lemma low_estimate_zero_fee:
  assumes "0 < rate" and "rate \<le> 999 / 10 ^ 8"
    and "bc_raw_request node ''estimatesmartfee'' [''6''] w = (Val raw, w')"
    and "unmarshal feerate_type raw = Val result" and "the_float (field_value result ''feerate'') = rate"
  shows "\<exists>fee. btc_estimate_fee node req w = (Val fee, w') \<and> amt_base (fee_total fee) = Some 0"
proof -
  define y where "y = f64_div (f64_mul rate (10 ^ 8)) 1000"
  from sat_per_vbyte_float[of rate] assms(1)
  have y: "0 \<le> y" "y \<le> rate * 10 ^ 5 + rate * 10 ^ 5 / 2 ^ 51"
      "rate * 10 ^ 5 - rate * 10 ^ 5 / 2 ^ 51 \<le> y" by (simp_all add: y_def)
  have conv: "sat_per_vbyte rate = f64_to_int64 y" by (simp add: sat_per_vbyte_def y_def)
  have "y < 1" using y(2) assms(2) by (simp add: field_simps)
  then have "of_int (f64_to_int64 y) < (1 :: rat) \<and> 0 \<le> f64_to_int64 y"
    using f64_to_int64_bounds[of y] y(1) by auto
  then have "sat_per_vbyte rate = 0" by (simp add: conv)
  with assms(1,3-5) show ?thesis
    by (simp add: btc_estimate_fee_def io_bind_def io_try_def btc_fee_rate_def btc_fee_of_def
        int64_id)
qed

text \<open>
  The fee estimate is the fixed size of 226 virtual bytes times the rate, whatever the number
  of inputs turns out to be; without an answer of the node the rate is 5, 10 or 20 by speed, and
  zero for any other speed string.
\<close>

lemma btc_fee_formula:
  assumes "bc_raw_request node ''estimatesmartfee'' [''6''] w = (r, w')" and "r \<noteq> Panic"
  shows "\<exists>rate. btc_estimate_fee node req w = (Val (btc_fee_of (req_speed req) rate), w') \<and>
           amt_base (fee_total (btc_fee_of (req_speed req) rate)) = Some (int64 (226 * rate)) \<and>
           (rate = (case r of
               Val raw \<Rightarrow> (case unmarshal feerate_type raw of
                   Val v \<Rightarrow> (let x = the_float (field_value v ''feerate'')
                     in if 0 < x then sat_per_vbyte x else fallback_fee_rate (req_speed req))
                 | _ \<Rightarrow> fallback_fee_rate (req_speed req))
             | _ \<Rightarrow> fallback_fee_rate (req_speed req))) \<and>
           fallback_fee_rate (req_speed req) =
             (if req_speed req = ''economy'' then 5 else if req_speed req = ''standard'' then 10
              else if req_speed req = ''fast'' then 20 else 0)"
  using assms
  by (auto simp: btc_estimate_fee_def io_bind_def io_try_def btc_fee_rate_def btc_fee_of_def
      btc_vsize_def fallback_fee_rate_def speed_defs split: go.splits)

section \<open>Signing\<close>

text \<open>What signing may not touch: version, outputs and the coins spent.\<close>

definition skeleton :: "msg_tx \<Rightarrow> int \<times> tx_out list \<times> (bytes \<times> 32 word) list" where
  "skeleton tx = (mt_version tx, mt_out tx, map (\<lambda>i. (ti_hash i, ti_index i)) (mt_in tx))"

lemma skeleton_set_input_script [simp]: "skeleton (set_input_script tx i s) = skeleton tx"
  unfolding skeleton_def set_input_script_def by (simp add: map_update_same)

lemma skeleton_length: "skeleton s = skeleton t \<Longrightarrow> length (mt_in s) = length (mt_in t)"
  by (auto simp: skeleton_def dest: map_eq_imp_length_eq)

lemma script_set_input_script:
  "i < length (mt_in tx) \<Longrightarrow>
     ti_script (mt_in (set_input_script tx i s) ! j) =
       (if j = i then s else ti_script (mt_in tx ! j))"
  by (simp add: set_input_script_def nth_list_update)

text \<open>An input is signed when its script carries a signature over a hash of this transaction.\<close>

definition input_signed ::
  "btc_lib \<Rightarrow> signer \<Rightarrow> account \<Rightarrow> bytes \<Rightarrow> bytes list \<Rightarrow> msg_tx \<Rightarrow> nat \<Rightarrow> bool" where
  "input_signed lib sg acc pubKey spks tx i \<longleftrightarrow>
     (\<exists>tx1 digest sig. skeleton tx1 = skeleton tx \<and>
        bl_calc_signature_hash lib (spks ! i) tx1 i = Val digest \<and>
        sg_sign sg acc digest = Val sig \<and>
        bl_build_script lib [sig @ [0x01], pubKey] = Val (ti_script (mt_in tx ! i)))"

lemma sign_inputs_Val:
  assumes "sign_inputs lib sg acc pk spks is tx = Val tx'" and "distinct is"
    and "\<forall>i \<in> set is. i < length (mt_in tx)"
  shows "skeleton tx' = skeleton tx \<and>
         (\<forall>i. i \<notin> set is \<longrightarrow> ti_script (mt_in tx' ! i) = ti_script (mt_in tx ! i)) \<and>
         (\<forall>i \<in> set is. input_signed lib sg acc pk spks tx' i)"
  using assms
proof (induction "is" arbitrary: tx)
  case (Cons i "is")
  from Cons.prems(1) obtain d sig scr where
    d: "bl_calc_signature_hash lib (spks ! i) tx i = Val d" "sg_sign sg acc d = Val sig"
       "bl_build_script lib [sig @ [0x01], pk] = Val scr"
    and rec: "sign_inputs lib sg acc pk spks is (set_input_script tx i scr) = Val tx'"
    by (auto simp: go_bind_Val_iff split: if_splits)
  have len: "length (mt_in (set_input_script tx i scr)) = length (mt_in tx)"
    by (rule skeleton_length) simp
  from Cons.IH[OF rec] Cons.prems(2,3) len have IH:
    "skeleton tx' = skeleton tx"
    "\<forall>j. j \<notin> set is \<longrightarrow> ti_script (mt_in tx' ! j) = ti_script (mt_in (set_input_script tx i scr) ! j)"
    "\<forall>j \<in> set is. input_signed lib sg acc pk spks tx' j" by auto
  have i: "i \<notin> set is" "i < length (mt_in tx)" using Cons.prems(2,3) by auto
  then have "ti_script (mt_in tx' ! i) = scr" using IH(2) by (simp add: script_set_input_script)
  then have "input_signed lib sg acc pk spks tx' i"
    unfolding input_signed_def
    by (intro exI[of _ tx] exI[of _ d] exI[of _ sig]) (simp add: d IH(1))
  moreover have "ti_script (mt_in tx' ! j) = ti_script (mt_in tx ! j)" if "j \<notin> set (i # is)" for j
    using IH(2) i(2) that by (simp add: script_set_input_script)
  ultimately show ?case using IH(1,3) by simp
qed simp

lemma sign_inputs_no_panic:
  assumes "\<And>s t i. bl_calc_signature_hash lib s t i \<noteq> Panic" and "\<And>ds. bl_build_script lib ds \<noteq> Panic"
    and "\<And>d. sg_sign sg acc d \<noteq> Panic" and "\<forall>i \<in> set is. i < length spks"
  shows "sign_inputs lib sg acc pk spks is tx \<noteq> Panic"
  using assms(4)
proof (induction "is" arbitrary: tx)
  case (Cons i "is")
  then show ?case
    using assms(1-3) by (auto simp: not_le go_bind_Panic_iff)
qed simp

text \<open>
  What the lifecycle theorems rely on from btcd: decoding what was encoded gives it back, and the
  calls return an error rather than panic.
\<close>

definition btc_codecs_ok :: "btc_lib \<Rightarrow> bool" where
  "btc_codecs_ok lib \<longleftrightarrow> (\<forall>t b. bl_serialize lib t = Val b \<longrightarrow> bl_deserialize lib b = Val t)"

definition btc_calls_return :: "btc_lib \<Rightarrow> signer \<Rightarrow> bool" where
  "btc_calls_return lib sg \<longleftrightarrow>
     (\<forall>t. bl_serialize lib t \<noteq> Panic) \<and> (\<forall>s t i. bl_calc_signature_hash lib s t i \<noteq> Panic) \<and>
     (\<forall>ds. bl_build_script lib ds \<noteq> Panic) \<and>
     (\<forall>a d. sg_sign sg a d \<noteq> Panic) \<and> (\<forall>a. sg_public_key sg a \<noteq> Panic)"

lemma payload_type_ok: "type_ok payload_type" "type_depth payload_type \<le> max_depth"
proof -
  have "valid_utf8 ''tx''" "valid_utf8 ''spks''" by code_simp+
  then show "type_ok payload_type" "type_depth payload_type \<le> max_depth"
    by (simp_all add: payload_type_def max_depth_def)
qed

lemma slice_byte_slice [simp]: "slice_bytes (byte_slice bs) = bs"
  by (simp add: byte_slice_def comp_def)

lemma unmarshal_marshal_payload [simp]: "unmarshal_payload (marshal_payload p) = Val p"
proof -
  obtain raw spks where p: "p = (raw, spks)" by (cases p)
  let ?v = "GStruct [(''tx'', byte_slice raw), (''spks'', GSlice (map byte_slice spks))]"
  have "text_ok (byte_slice bs)" for bs by (simp add: byte_slice_def)
  moreover have "has_type payload_type ?v"
    using has_byte_slice by (simp add: payload_type_def)
  ultimately have "unmarshal payload_type (marshal payload_type ?v) = Val ?v"
    by (intro unmarshal_marshal payload_type_ok) simp_all
  then show ?thesis by (simp add: p unmarshal_payload_def marshal_payload_def comp_def)
qed

lemma assemble_tx_scripts:
  assumes "assemble_tx lib srt utxos from_a to_a send fee = Val (tx, spks)"
  shows "length spks = length (mt_in tx)"
proof -
  from assms obtain sel tx0 where ins: "add_inputs lib sel new_msg_tx [] = Val (tx0, spks)"
    and "mt_in tx = mt_in tx0"
    by (auto simp: assemble_tx_def go_bind_Val_iff Let_def split: prod.splits if_splits)
  with add_inputs_Val[OF ins] show ?thesis
    by (auto simp: new_msg_tx_def dest: list_all2_lengthD)
qed

lemma btc_build_transfer_Val:
  assumes "btc_build_transfer lib srt node req w = (Val utx, w')"
  obtains fee utxos sendBase feeBase tx spks raw where
    "amt_base (fee_total fee) = Some feeBase" "amt_base (req_amount req) = Some sendBase"
    "assemble_tx lib srt utxos (req_from req) (req_to req) (big_Int64 sendBase) (big_Int64 feeBase)
       = Val (tx, spks)"
    "bl_serialize lib tx = Val raw" "utx_payload utx = marshal_payload (raw, spks)"
    "utx_chain utx = ChainBitcoin" "utx_request utx = req" "utx_fee utx = fee"
  using assms
  by (auto simp: btc_build_transfer_def io_bind_eq_Val_iff base_of_def split: option.splits)

text \<open>
  C22. What \<open>BuildTransfer\<close> built, \<open>Sign\<close> never panics on: the payload has one script per
  input, so the unchecked \<open>p.ScriptPubKeys[i]\<close> is in range for every input.
\<close>

theorem btc_sign_built_no_panic:
  assumes "btc_codecs_ok lib" and "btc_calls_return lib sg"
    and "btc_build_transfer lib srt node req w = (Val utx, w')"
  shows "btc_sign lib (utx\<lparr>utx_account := acc\<rparr>) sg \<noteq> Panic"
proof -
  from assms(3) obtain tx spks raw utxos feeBase sendBase where
    asm: "assemble_tx lib srt utxos (req_from req) (req_to req) (big_Int64 sendBase)
            (big_Int64 feeBase) = Val (tx, spks)"
    and raw: "bl_serialize lib tx = Val raw"
    and payload: "utx_payload utx = marshal_payload (raw, spks)"
    by (rule btc_build_transfer_Val)
  have dec: "unmarshal_payload (utx_payload utx) = Val (raw, spks)"
    "bl_deserialize lib raw = Val tx"
    using assms(1) raw payload by (auto simp: btc_codecs_ok_def)
  have "sign_inputs lib sg acc pk spks [0..<length (mt_in tx)] tx \<noteq> Panic" for pk
    using assms(2) assemble_tx_scripts[OF asm]
    by (intro sign_inputs_no_panic) (auto simp: btc_calls_return_def)
  with dec assms(2) show ?thesis
    by (auto simp: btc_sign_def go_bind_Panic_iff btc_calls_return_def)
qed

text \<open>
  C11. A signed Bitcoin transaction is the unsigned one of the payload with every input signed: version,
  outputs and spent coins are untouched, each input's script is the account's signature over
  that input's hash followed by its public key, and the hash reported is the hash of what will be
  broadcast.
\<close>

theorem btc_sign_signs_every_input:
  assumes "btc_codecs_ok lib" and "btc_sign lib utx sg = Val stx"
  shows "\<exists>raw spks tx stx_tx pk.
           unmarshal_payload (utx_payload utx) = Val (raw, spks) \<and>
           bl_deserialize lib raw = Val tx \<and> bl_deserialize lib (stx_raw stx) = Val stx_tx \<and>
           sg_public_key sg (utx_account utx) = Val pk \<and>
           skeleton stx_tx = skeleton tx \<and>
           (\<forall>i < length (mt_in tx). input_signed lib sg (utx_account utx) pk spks stx_tx i) \<and>
           stx_chain stx = ChainBitcoin \<and> stx_hash stx = bl_hash_string lib (bl_tx_hash lib stx_tx)"
proof -
  from assms(2) obtain raw spks tx pk tx' raw' where
    d: "unmarshal_payload (utx_payload utx) = Val (raw, spks)"
      "bl_deserialize lib raw = Val tx" "sg_public_key sg (utx_account utx) = Val pk"
    and s: "sign_inputs lib sg (utx_account utx) pk spks [0..<length (mt_in tx)] tx = Val tx'"
    and r: "bl_serialize lib tx' = Val raw'" "stx_raw stx = raw'" "stx_chain stx = ChainBitcoin"
      "stx_hash stx = bl_hash_string lib (bl_tx_hash lib tx')"
    by (auto simp: btc_sign_def go_bind_Val_iff)
  from sign_inputs_Val[OF s] have "skeleton tx' = skeleton tx"
    "\<forall>i < length (mt_in tx). input_signed lib sg (utx_account utx) pk spks tx' i" by auto
  moreover have "bl_deserialize lib (stx_raw stx) = Val tx'"
    using assms(1) r by (simp add: btc_codecs_ok_def)
  ultimately show ?thesis using d r by blast
qed

section \<open>Amounts that do not fit\<close>

lemma big_Int64_add_period: "0 \<le> a \<Longrightarrow> big_Int64 (a + 2 ^ 64) = big_Int64 a"
  by (simp add: big_Int64_def Let_def)

text \<open>
  The amount is narrowed to 64 bits without a check: a request for $a + 2^{64}$ satoshi builds
  the very transaction, payload and fee, that a request for $a$ builds.
\<close>

lemma btc_amount_truncated:
  assumes "0 \<le> a" and "amt_base (req_amount req) = Some a"
    and "btc_build_transfer lib srt node req w = (Val utx, w')"
  shows "\<exists>utx'. btc_build_transfer lib srt node
                  (req\<lparr>req_amount := (req_amount req)\<lparr>amt_base := Some (a + 2 ^ 64)\<rparr>\<rparr>) w = (Val utx', w') \<and>
                utx_payload utx' = utx_payload utx \<and> utx_fee utx' = utx_fee utx"
proof -
  from assms(2,3) obtain fee w1 feeBase all w2 utxos tx spks raw payload where
    run: "btc_estimate_fee node req w = (Val fee, w1)" "base_of (fee_total fee) = Val feeBase"
      "fetch_utxos lib node (req_from req) w1 = (Val all, w2)"
      "spendable node all w2 = (Val utxos, w')"
      "assemble_tx lib srt utxos (req_from req) (req_to req) (big_Int64 a) (big_Int64 feeBase)
         = Val (tx, spks)"
      "bl_serialize lib tx = Val raw"
    and utx: "utx_payload utx = marshal_payload (raw, spks)" "utx_fee utx = fee"
    by (auto simp: btc_build_transfer_def io_bind_eq_Val_iff)
  have est: "btc_estimate_fee node (req\<lparr>req_amount := x\<rparr>) w = (Val fee, w1)" for x
    using run(1) by (simp add: btc_estimate_fee_def)
  show ?thesis
    unfolding btc_build_transfer_def
    by (simp add: io_bind_def est run(3,4) run(2,5,6) big_Int64_add_period[OF assms(1), simplified]
        base_of_Some utx)
qed

text \<open>
  Looking a transaction up answers \<open>unknown\<close>, with no error, for every failure of the
  node's call, a connection error included; otherwise it is confirmed exactly when it has a
  confirmation. A malformed hash is an error and no call is made.
\<close>

lemma btc_get_transaction_status:
  "bl_hash_from_str lib hash = Val h \<Longrightarrow> bc_get_raw_transaction_verbose node h w = (r, w') \<Longrightarrow> r \<noteq> Panic \<Longrightarrow>
     (\<exists>tx. btc_get_transaction lib node hash w = (Val tx, w') \<and> tx_hash tx = hash \<and>
        tx_status tx = (case r of Val n \<Rightarrow> if n = 0 then TxPending else TxConfirmed | _ \<Rightarrow> TxUnknown) \<and>
        tx_confirmations tx = (case r of Val n \<Rightarrow> n | _ \<Rightarrow> 0))"
  by (auto simp: btc_get_transaction_def io_bind_def io_try_def bare_transaction_def Let_def
      split: go.splits)

section \<open>A concrete instance\<close>

text \<open>
  A library and a node small enough to evaluate, on which every theorem above applies: three
  coins, addresses that decode to their bytes, and codecs that know two transactions.
\<close>

definition sample_sort :: "utxo list \<Rightarrow> utxo list" where
  "sample_sort us = sort_key (\<lambda>u. - u_satoshis u) us"

definition sample_coin :: "int \<Rightarrow> utxo" where
  "sample_coin v = \<lparr>u_txid = ''aa'', u_vout = 0, u_satoshis = v, u_script = [7],
                    u_coinbase = False, u_height = 0\<rparr>"

definition sample_coins :: "utxo list" where
  "sample_coins = [sample_coin 5000, sample_coin 70000, sample_coin 20000]"

definition sample_tx :: msg_tx where
  "sample_tx = \<lparr>mt_version = 1, mt_in = [\<lparr>ti_hash = [9], ti_index = 0, ti_script = []\<rparr>],
     mt_out = [\<lparr>to_value = 60000, to_script = [98]\<rparr>, \<lparr>to_value = 7740, to_script = [97]\<rparr>]\<rparr>"

definition sample_signed_tx :: msg_tx where
  "sample_signed_tx = sample_tx\<lparr>mt_in := [\<lparr>ti_hash = [9], ti_index = 0, ti_script = [1, 2, 3]\<rparr>]\<rparr>"

definition sample_lib :: btc_lib where
  "sample_lib = \<lparr>bl_new_amount = (\<lambda>x. Some (\<lfloor>x * 10 ^ 8 + 1 / 2\<rfloor>)),
     bl_decode_address = (\<lambda>a. Val (bytes_of a)), bl_pay_to_addr_script = (\<lambda>a. Val a),
     bl_hash_from_str = (\<lambda>_. Val [9]), bl_hash_string = hex_encode,
     bl_serialize = (\<lambda>t. if t = sample_tx then Val [1] else if t = sample_signed_tx then Val [2]
                          else Err (Foreign ''serialize'')),
     bl_deserialize = (\<lambda>b. if b = [1] then Val sample_tx else if b = [2] then Val sample_signed_tx
                          else Err (Foreign ''deserialize'')),
     bl_tx_hash = (\<lambda>_. [9]), bl_calc_signature_hash = (\<lambda>_ _ _. Val [5]),
     bl_build_script = (\<lambda>ds. Val (concat ds)), bl_hash160 = (\<lambda>b. b),
     bl_address_pub_key_hash = (\<lambda>b. Val (hex_encode b))\<rparr>"

definition sample_signer :: signer where
  "sample_signer = \<lparr>sg_sign = (\<lambda>_ _. Val []), sg_public_key = (\<lambda>_. Val [2, 3])\<rparr>"

definition sample_scan :: json where
  "sample_scan = JObject [(''success'', JBoolean True), (''unspents'', JArray [JObject
     [(''txid'', JText ''aa''), (''vout'', JNumber ''0''), (''scriptPubKey'', JText ''07''), (''desc'', JNull),
      (''amount'', JNumber ''0.0007''), (''coinbase'', JBoolean False), (''height'', JNumber ''0'')]])]"

definition sample_node :: "go_error + string \<Rightarrow> unit btc_node" where
  "sample_node rate = \<lparr>
     bc_raw_request = (\<lambda>m ps.
       if m = ''estimatesmartfee'' then (case rate of Inl e \<Rightarrow> io_fail e | Inr raw \<Rightarrow> io_return raw)
       else if m = ''scantxoutset'' then io_return (json_print sample_scan) else io_return ''500''),
     bc_send_raw_transaction = (\<lambda>_. io_return [9]),
     bc_get_raw_transaction_verbose = (\<lambda>_. io_return 3)\<rparr>"

definition sample_request :: "int \<Rightarrow> transfer_request" where
  "sample_request a = \<lparr>req_network = \<lparr>net_chain = ChainBitcoin, net_env = EnvLocal\<rparr>,
     req_from = ''a'', req_to = ''b'',
     req_amount = \<lparr>amt_asset = native_btc, amt_base = Some a\<rparr>, req_speed = SpeedStandard\<rparr>"

lemmas sample_defs = sample_coin_def sample_coins_def sample_tx_def sample_signed_tx_def
  sample_signer_def sample_request_def

lemma sample_sort_ok: "sorts_largest_first sample_sort"
  unfolding sorts_largest_first_def
proof (intro allI conjI)
  fix us
  show "mset (sample_sort us) = mset us" by (simp add: sample_sort_def)
  have "sorted (map (\<lambda>u. - u_satoshis u) (sample_sort us))"
    by (simp add: sample_sort_def)
  then show "sorted_wrt (\<lambda>a b. u_satoshis b \<le> u_satoshis a) (sample_sort us)"
    by (simp add: sorted_wrt_map)
qed

lemma sample_coins_ok: "coins_ok sample_coins"
  by (simp add: coins_ok_def sample_defs)

lemma sample_select:
  "select_utxos sample_sort sample_coins 75000 = Val ([sample_coin 70000, sample_coin 20000], 90000)"
  by (simp add: select_utxos_def sample_sort_def sample_defs int64_id Let_def)

lemma sample_codecs_ok: "btc_codecs_ok sample_lib"
  by (auto simp: btc_codecs_ok_def sample_lib_def sample_defs split: if_splits)

lemma sample_calls_return: "btc_calls_return sample_lib sample_signer"
  by (simp add: btc_calls_return_def sample_lib_def sample_signer_def)

lemma sample_assemble:
  "assemble_tx sample_lib sample_sort [sample_coin 70000] ''a'' ''b'' 60000 2260 = Val (sample_tx, [[7]])"
  by (simp add: assemble_tx_def select_utxos_def sample_sort_def sample_defs sample_lib_def
      int64_id Let_def new_msg_tx_def bytes_of_def)


lemma unmarshal_print:
  "json_ok v \<Longrightarrow> json_depth v \<le> max_depth \<Longrightarrow> unmarshal t (json_print v) = decode_json t v"
  using parse_print[of v "[]"] by (simp add: unmarshal_def)

lemma sample_bounds: "\<lfloor>fl (7 / 10000) * 10 ^ 8 + 1 / 2\<rfloor> = (70000 :: int)"
proof -
  have "\<bar>fl (7 / 10000) - 7 / 10000\<bar> \<le> 7 / 10000 / 2 ^ 53" by (rule fl_error) simp
  then have "fl (7 / 10000) - 7 / 10000 \<le> 7 / 10000 / 2 ^ 53" "- (fl (7 / 10000) - 7 / 10000) \<le> 7 / 10000 / 2 ^ 53"
    unfolding abs_le_iff by (rule conjunct1, rule conjunct2)
  then have "fl (7 / 10000) \<le> 7 / 10000 + 1 / 10 ^ 10" "7 / 10000 - 1 / 10 ^ 10 \<le> fl (7 / 10000)" by simp_all
  then show ?thesis by (intro floor_unique) simp_all
qed

lemma sample_decoded_scan:
  assumes "f64_of_rat (literal_value ''0.0007'') = Some x"
  shows "decode_json scan_type sample_scan = Val (GStruct [(''success'', GBool True), (''unspents'', GSlice [GStruct
     [(''txid'', GString ''aa''), (''vout'', GInt 0), (''scriptPubKey'', GString ''07''), (''amount'', GFloat x),
      (''coinbase'', GBool False), (''height'', GInt 0)]])])"
proof -
  let ?fs = "[(''success'', TyBool), (''unspents'', TySlice unspent_type)]"
  let ?us = "[(''txid'', TyString), (''vout'', TyUint 32),
       (''scriptPubKey'', TyString), (''amount'', TyFloat), (''coinbase'', TyBool), (''height'', TyInt 64)]"
  obtain n where scan: "scan_type = TyStruct n [] ?fs"
    by (simp add: scan_type_def anon_struct_def Let_def)
  obtain m where unspent: "unspent_type = TyStruct m [] ?us"
    by (simp add: unspent_type_def anon_struct_def Let_def)
  have keys: "field_of ?fs ''success'' = Some (''success'', TyBool)"
    "field_of ?fs ''unspents'' = Some (''unspents'', TySlice unspent_type)"
    "field_of ?us ''txid'' = Some (''txid'', TyString)" "field_of ?us ''vout'' = Some (''vout'', TyUint 32)"
    "field_of ?us ''scriptPubKey'' = Some (''scriptPubKey'', TyString)"
    "field_of ?us ''amount'' = Some (''amount'', TyFloat)" "field_of ?us ''coinbase'' = Some (''coinbase'', TyBool)"
    "field_of ?us ''height'' = Some (''height'', TyInt 64)"
    by (rule field_of_distinct; simp)+
  have desc: "field_of ?us ''desc'' = None" by code_simp
  have nums: "set_string10 ''0'' = Some 0" "parse_uint 32 ''0'' = Some 0"
    using set_string10_show_int[of 0] parse_uint_show_nat[of 0 32]
    by (simp_all only: show_int_def show_nat_0 nat_0 if_False less_irrefl zero_less_power zero_less_numeral)
  have scal: "unmarshal_value p TyBool v o1 e = decode_scalar p TyBool v o1 e"
    "unmarshal_value p TyString v o1 e = decode_scalar p TyString v o1 e"
    "unmarshal_value p TyFloat v o1 e = decode_scalar p TyFloat v o1 e"
    "unmarshal_value p (TyInt k) v o1 e = decode_scalar p (TyInt k) v o1 e"
    "unmarshal_value p (TyUint k) v o1 e = decode_scalar p (TyUint k) v o1 e" for p v o1 e k
    by (simp_all add: unmarshal_value.simps)
  show ?thesis
    using assms
    by (simp add: decode_json_def decode_into_def scan sample_scan_def unmarshal_struct unmarshal_slice unspent keys[unfolded unspent]
       desc nums scal get_field_def set_field_def int_fits_def del: set_string10.simps)
qed
lemma sample_unspents:
  "\<exists>v x. unmarshal scan_type (json_print sample_scan) = Val v \<and> \<lfloor>x * 10 ^ 8 + 1 / 2\<rfloor> = (70000 :: int) \<and>
     map unspent_of (the_slice (field_value v ''unspents'')) =
       [\<lparr>us_txid = ''aa'', us_vout = 0, us_script_hex = ''07'', us_amount = x, us_coinbase = False, us_height = 0\<rparr>]"
proof -
  have lit: "literal_value ''0.0007'' = 7 / 10000" by code_simp
  have "- 1074 \<le> ulp_exponent (7 / 10000)" by code_simp
  then have "f64_of_rat (literal_value ''0.0007'') = Some (fl (7 / 10000))"
    unfolding lit by (intro f64_of_rat_fl) (simp_all add: self_le_power)
  note dec = sample_decoded_scan[OF this]
  have "json_ok sample_scan" "json_depth sample_scan \<le> max_depth" by code_simp+
  with dec sample_bounds show ?thesis by (simp add: unmarshal_print unspent_of_def)
qed

lemma sample_tip: "unmarshal (TyInt 64) ''500'' = Val (GInt 500)"
  by code_simp

lemma sample_fetch: "fetch_utxos sample_lib (sample_node r) a () = (Val [sample_coin 70000], ())"
  using sample_unspents
  by (auto simp: fetch_utxos_def io_defs sample_node_def sample_lib_def from_hex_char_def
      sample_coin_def int64_id)

abbreviation sample_payload :: bytes where
  "sample_payload \<equiv> marshal_payload ([1], [[7]])"

lemma sample_build:
  "btc_build_transfer sample_lib sample_sort (sample_node (Inl (Foreign ''down''))) (sample_request 60000) () =
     (Val \<lparr>utx_chain = ChainBitcoin, utx_account = zero_account, utx_request = sample_request 60000,
           utx_fee = btc_fee_of SpeedStandard 10, utx_payload = sample_payload\<rparr>, ())"
proof -
  have est: "btc_estimate_fee (sample_node (Inl (Foreign ''down''))) (sample_request 60000) () =
      (Val (btc_fee_of SpeedStandard 10), ())"
    by (simp add: btc_estimate_fee_def io_defs sample_node_def btc_fee_rate_def sample_request_def
        fallback_fee_rate_def speed_defs)
  have sp: "spendable (sample_node r) [sample_coin 70000] () = (Val [sample_coin 70000], ())" for r
    by (simp add: spendable_def io_defs sample_node_def mature_def sample_coin_def sample_tip)
  have fee: "amt_base (fee_total (btc_fee_of SpeedStandard 10)) = Some 2260"
    by (simp add: btc_fee_of_def btc_vsize_def int64_id)
  have send: "amt_base (req_amount (sample_request 60000)) = Some 60000"
    and ft: "req_from (sample_request 60000) = ''a''" "req_to (sample_request 60000) = ''b''"
    by (simp_all add: sample_request_def)
  have ser: "bl_serialize sample_lib sample_tx = Val [1]"
    by (simp add: sample_lib_def)
  show ?thesis
    by (simp add: btc_build_transfer_def io_bind_def est sample_fetch sp base_of_Some[OF fee]
        base_of_Some[OF send] ft big_Int64_id sample_assemble ser)
qed

theorem select_utxos_smallest_witness:
  "mset [sample_coin 70000, sample_coin 20000] \<subseteq># mset sample_coins \<and>
   90000 = total_of [sample_coin 70000, sample_coin 20000] \<and> (75000::int) \<le> 90000 \<and>
   length [sample_coin 70000, sample_coin 20000] \<le> size {#sample_coin 5000, sample_coin 70000#}"
  using select_utxos_smallest[OF sample_sort_ok sample_coins_ok sample_select]
  by (simp add: sample_coins_def)

theorem select_utxos_fails_iff_witness:
  "(\<exists>e. select_utxos sample_sort sample_coins 100000 = Err e) \<and>
   \<not> (\<exists>e. select_utxos sample_sort sample_coins 95000 = Err e)"
  using select_utxos_fails_iff[OF sample_sort_ok sample_coins_ok, of 100000]
    select_utxos_fails_iff[OF sample_sort_ok sample_coins_ok, of 95000]
  by (simp add: sample_defs)

theorem assemble_tx_conserves_value_witness:
  "value_out sample_tx + 2260 = 70000 \<and>
   (\<exists>sel. mset sel \<subseteq># mset [sample_coin 70000] \<and> total_of sel = value_out sample_tx + 2260)"
proof -
  have "coins_ok [sample_coin 70000]" by (simp add: coins_ok_def sample_coin_def)
  from assemble_tx_conserves_value[OF sample_sort_ok this _ _ _ sample_assemble]
  have "\<exists>sel. mset sel \<subseteq># mset [sample_coin 70000] \<and> total_of sel = value_out sample_tx + 2260"
    by auto
  then show ?thesis by (simp add: value_out_def sample_tx_def)
qed

theorem sat_per_vbyte_accurate_witness:
  "0 \<le> sat_per_vbyte (1 / 10 ^ 4) \<and> 10 - 10 / 2 ^ 51 < of_int (sat_per_vbyte (1 / 10 ^ 4)) + (1 :: rat)"
  using sat_per_vbyte_accurate[of "1 / 10 ^ 4"] by simp

theorem btc_sign_built_no_panic_witness:
  "btc_sign sample_lib (\<lparr>utx_chain = ChainBitcoin, utx_account = zero_account,
      utx_request = sample_request 60000, utx_fee = btc_fee_of SpeedStandard 10,
      utx_payload = sample_payload\<rparr>\<lparr>utx_account := zero_account\<rparr>) sample_signer \<noteq> Panic"
  by (rule btc_sign_built_no_panic[OF sample_codecs_ok sample_calls_return sample_build])

theorem btc_sign_signs_every_input_witness:
  "\<exists>utx stx. btc_sign sample_lib utx sample_signer = Val stx \<and>
     bl_deserialize sample_lib (stx_raw stx) = Val sample_signed_tx \<and>
     skeleton sample_signed_tx = skeleton sample_tx"
proof -
  let ?utx = "\<lparr>utx_chain = ChainBitcoin, utx_account = zero_account,
      utx_request = sample_request 60000, utx_fee = btc_fee_of SpeedStandard 10,
      utx_payload = sample_payload\<rparr>"
  have run: "btc_sign sample_lib ?utx sample_signer =
      Val \<lparr>stx_chain = ChainBitcoin, stx_raw = [2], stx_hash = hex_encode [9]\<rparr>"
    by (simp add: btc_sign_def sample_lib_def sample_defs set_input_script_def)
  have dec: "bl_deserialize sample_lib [1] = Val sample_tx"
    "bl_deserialize sample_lib [2] = Val sample_signed_tx"
    by (simp_all add: sample_lib_def sample_defs)
  from btc_sign_signs_every_input[OF sample_codecs_ok run]
  have "skeleton sample_signed_tx = skeleton sample_tx" by (auto simp: dec)
  with run dec(2) show ?thesis by (metis signed_tx.select_convs(2))
qed

end
