(* ===== verification/Evm.thy ===== *)
theory Evm
  imports HdWallet Ports
begin

text \<open>
  \<^verbatim>\<open>internal/adapter/chain/evm/adapter.go\<close>: the adapter that serves Ethereum and Base.
  go-ethereum is the record \<open>'tx evm_lib\<close> (a \<open>types.Transaction\<close> is an opaque \<open>'tx\<close>, an
  address or hash its bytes); the node is a record of the client calls. \<open>big.Int\<close> is an
  unbounded integer.
\<close>

section \<open>Node, library and data\<close>

record evm_config =
  cfg_rpc_url :: string
  cfg_chain_id :: int
  cfg_chain :: chain_id

record dynamic_fee_tx =
  df_chain_id :: int
  df_nonce :: "64 word"
  df_gas_tip_cap :: int
  df_gas_fee_cap :: int
  df_gas :: int
  df_to :: bytes
  df_value :: "int option"

record 'tx evm_lib =
  el_hex_to_address :: "string \<Rightarrow> bytes"
  el_address_hex :: "bytes \<Rightarrow> string"
  el_hex_to_hash :: "string \<Rightarrow> bytes"
  el_new_tx :: "dynamic_fee_tx \<Rightarrow> 'tx"
  el_marshal :: "'tx \<Rightarrow> bytes go"
  el_unmarshal :: "bytes \<Rightarrow> 'tx go"
  el_sig_hash :: "int \<Rightarrow> 'tx \<Rightarrow> bytes"
  el_with_signature :: "int \<Rightarrow> 'tx \<Rightarrow> bytes \<Rightarrow> 'tx go"
  el_sender :: "int \<Rightarrow> 'tx \<Rightarrow> bytes go"
  el_hash_hex :: "'tx \<Rightarrow> string"
  el_to :: "'tx \<Rightarrow> bytes option"
  el_value :: "'tx \<Rightarrow> int"
  el_gas_price :: "'tx \<Rightarrow> int"
  el_pubkey_address :: "bytes \<Rightarrow> bytes"

record receipt =
  rc_status :: "64 word"
  rc_effective_gas_price :: "int option"
  rc_gas_used :: "64 word"
  rc_block_number :: "int option"

record ('w, 'tx) evm_client =
  ec_balance_at :: "bytes \<Rightarrow> ('w, int) io"
  ec_suggest_gas_tip_cap :: "('w, int) io"
  ec_latest_base_fee :: "('w, int option) io"
  ec_pending_nonce_at :: "bytes \<Rightarrow> ('w, 64 word) io"
  ec_send_transaction :: "'tx \<Rightarrow> ('w, unit) io"
  ec_transaction_by_hash :: "bytes \<Rightarrow> ('w, 'tx) io"
  ec_transaction_receipt :: "bytes \<Rightarrow> ('w, receipt) io"

definition native_eth :: asset where
  "native_eth = native_asset ''ETH'' 18"

definition ethereum_not_found :: go_error where
  "ethereum_not_found = Foreign ''ethereum.NotFound''"

section \<open>Accounts and balances\<close>

definition evm_derive_account ::
  "'tx evm_lib \<Rightarrow> evm_config \<Rightarrow> 'k hdkeychain \<Rightarrow> bytes \<Rightarrow> derivation_path \<Rightarrow> account go" where
  "evm_derive_account lib cfg hk seed path =
     go_bind (derive_key hk seed path) (\<lambda>key.
     go_bind (go_wrap (Wrapf ''evm: ec priv key: %w'' []) (hk_ec_priv_key hk key)) (\<lambda>privKey.
     Val \<lparr>acc_chain = cfg_chain cfg,
          acc_address = el_address_hex lib (el_pubkey_address lib privKey),
          acc_path = path\<rparr>))"

definition evm_balance ::
  "'tx evm_lib \<Rightarrow> ('w, 'tx) evm_client \<Rightarrow> address \<Rightarrow> asset \<Rightarrow> ('w, amount) io" where
  "evm_balance lib cl addr _ =
     io_bind (io_wrap (Wrapf ''evm: balance %s: %w'' [AStr addr])
                (ec_balance_at cl (el_hex_to_address lib addr))) (\<lambda>bal.
     io_return \<lparr>amt_asset = native_eth, amt_base = Some bal\<rparr>)"

section \<open>Fees\<close>

definition scale_tip :: "int \<Rightarrow> fee_speed \<Rightarrow> int" where
  "scale_tip tip speed =
     (let m = (if speed = SpeedFast then 15 else if speed = SpeedEconomy then 8 else 10)
      in (tip * m) div 10)"

definition gas_limit :: int where "gas_limit = 21000"

definition evm_fee_of :: "fee_speed \<Rightarrow> int \<Rightarrow> int \<Rightarrow> fee_estimate" where
  "evm_fee_of speed maxFee adjustedTip =
     \<lparr>fee_speed = speed,
      fee_total = \<lparr>amt_asset = native_eth, amt_base = Some (maxFee * gas_limit)\<rparr>,
      fee_params = [(''gas_limit'', show_int gas_limit),
                    (''max_fee_per_gas'', show_int maxFee),
                    (''max_priority_fee_per_gas'', show_int adjustedTip)]\<rparr>"

definition evm_estimate_fee :: "('w, 'tx) evm_client \<Rightarrow> transfer_request \<Rightarrow> ('w, fee_estimate) io" where
  "evm_estimate_fee cl req =
     io_bind (io_wrap (Wrapf ''evm: suggest tip: %w'' []) (ec_suggest_gas_tip_cap cl)) (\<lambda>tip.
     io_bind (io_wrap (Wrapf ''evm: latest header: %w'' []) (ec_latest_base_fee cl)) (\<lambda>headBaseFee.
     let baseFee = (case headBaseFee of None \<Rightarrow> 0 | Some b \<Rightarrow> b);
         adjustedTip = scale_tip tip (req_speed req);
         maxFee = baseFee * 2 + adjustedTip
     in io_return (evm_fee_of (req_speed req) maxFee adjustedTip)))"

section \<open>Transfers\<close>

text \<open>\<open>SetString\<close> on a fresh \<open>big.Int\<close> whose result is not looked at.\<close>

definition big_of_param :: "(string \<times> string) list \<Rightarrow> string \<Rightarrow> int" where
  "big_of_param ps k = (case set_string10 (param ps k) of None \<Rightarrow> 0 | Some n \<Rightarrow> n)"

definition evm_transfer_tx ::
  "'tx evm_lib \<Rightarrow> evm_config \<Rightarrow> transfer_request \<Rightarrow> 64 word \<Rightarrow> fee_estimate \<Rightarrow> dynamic_fee_tx" where
  "evm_transfer_tx lib cfg req nonce fee =
     \<lparr>df_chain_id = cfg_chain_id cfg, df_nonce = nonce,
      df_gas_tip_cap = big_of_param (fee_params fee) ''max_priority_fee_per_gas'',
      df_gas_fee_cap = big_of_param (fee_params fee) ''max_fee_per_gas'',
      df_gas = 21000, df_to = el_hex_to_address lib (req_to req),
      df_value = amt_base (req_amount req)\<rparr>"

definition evm_build_transfer ::
  "'tx evm_lib \<Rightarrow> evm_config \<Rightarrow> ('w, 'tx) evm_client \<Rightarrow> transfer_request \<Rightarrow> ('w, unsigned_tx) io" where
  "evm_build_transfer lib cfg cl req =
     io_bind (io_wrap (Wrapf ''evm: nonce: %w'' [])
                (ec_pending_nonce_at cl (el_hex_to_address lib (req_from req)))) (\<lambda>nonce.
     io_bind (evm_estimate_fee cl req) (\<lambda>fee.
     let tx = el_new_tx lib (evm_transfer_tx lib cfg req nonce fee)
     in io_bind (io_lift (go_wrap (Wrapf ''evm: marshal tx: %w'' []) (el_marshal lib tx))) (\<lambda>payload.
        io_return \<lparr>utx_chain = cfg_chain cfg, utx_account = zero_account, utx_request = req,
                   utx_fee = fee, utx_payload = payload\<rparr>)))"

definition evm_sign :: "'tx evm_lib \<Rightarrow> evm_config \<Rightarrow> unsigned_tx \<Rightarrow> signer \<Rightarrow> signed_tx go" where
  "evm_sign lib cfg utx sg =
     go_bind (go_wrap (Wrapf ''evm: unmarshal tx: %w'' []) (el_unmarshal lib (utx_payload utx))) (\<lambda>tx.
     go_bind (go_wrap (Wrapf ''evm: sign: %w'' [])
                (sg_sign sg (utx_account utx) (el_sig_hash lib (cfg_chain_id cfg) tx))) (\<lambda>sig.
     go_bind (go_wrap (Wrapf ''evm: attach signature: %w'' [])
                (el_with_signature lib (cfg_chain_id cfg) tx sig)) (\<lambda>signedTx.
     go_bind (go_wrap (Wrapf ''evm: marshal signed tx: %w'' []) (el_marshal lib signedTx)) (\<lambda>raw.
     Val \<lparr>stx_chain = cfg_chain cfg, stx_raw = raw, stx_hash = el_hash_hex lib signedTx\<rparr>))))"

definition evm_broadcast :: "'tx evm_lib \<Rightarrow> ('w, 'tx) evm_client \<Rightarrow> signed_tx \<Rightarrow> ('w, string) io" where
  "evm_broadcast lib cl tx =
     io_bind (io_lift (go_wrap (Wrapf ''evm: unmarshal: %w'' []) (el_unmarshal lib (stx_raw tx)))) (\<lambda>signedTx.
     io_bind (io_wrap (Wrapf ''evm: broadcast: %w'' []) (ec_send_transaction cl signedTx)) (\<lambda>_.
     io_return (el_hash_hex lib signedTx)))"

definition mined_transaction ::
  "evm_config \<Rightarrow> string \<Rightarrow> receipt \<Rightarrow> int \<Rightarrow> transaction go" where
  "mined_transaction cfg hash receipt txGasPrice =
     (let status = (if rc_status receipt = 0 then TxFailed else TxConfirmed);
          gasPrice = (case rc_effective_gas_price receipt of None \<Rightarrow> txGasPrice | Some p \<Rightarrow> p);
          feeWei = uint (rc_gas_used receipt) * gasPrice
      in case rc_block_number receipt of
           None \<Rightarrow> Panic
         | Some n \<Rightarrow> Val \<lparr>tx_chain = cfg_chain cfg, tx_hash = hash, tx_status = status,
              tx_confirmations = 0, tx_block_height = word_of_int (big_Uint64 n),
              tx_fee = \<lparr>amt_asset = native_eth, amt_base = Some feeWei\<rparr>\<rparr>)"

definition evm_get_transaction ::
  "'tx evm_lib \<Rightarrow> evm_config \<Rightarrow> ('w, 'tx) evm_client \<Rightarrow> string \<Rightarrow> ('w, transaction) io" where
  "evm_get_transaction lib cfg cl hash =
     (let h = el_hex_to_hash lib hash
      in io_bind (io_try (ec_transaction_by_hash cl h)) (\<lambda>r.
         case r of
           Inl e \<Rightarrow> (if e = ethereum_not_found
                     then io_return (bare_transaction (cfg_chain cfg) hash TxUnknown)
                     else io_fail (Wrapf ''evm: get tx %s: %w'' [AStr hash] e))
         | Inr tx \<Rightarrow>
             io_bind (io_try (ec_transaction_receipt cl h)) (\<lambda>r'.
             case r' of
               Inl _ \<Rightarrow> io_return (bare_transaction (cfg_chain cfg) hash TxPending)
             | Inr receipt \<Rightarrow> io_lift (mined_transaction cfg hash receipt (el_gas_price lib tx)))))"

definition evm_adapter ::
  "'tx evm_lib \<Rightarrow> evm_config \<Rightarrow> 'k hdkeychain \<Rightarrow> ('w, 'tx) evm_client \<Rightarrow> 'w chain_adapter" where
  "evm_adapter lib cfg hk cl =
     \<lparr>ca_chain = cfg_chain cfg,
      ca_derive_account = evm_derive_account lib cfg hk,
      ca_balance = evm_balance lib cl,
      ca_estimate_fee = evm_estimate_fee cl,
      ca_build_transfer = evm_build_transfer lib cfg cl,
      ca_sign = evm_sign lib cfg,
      ca_broadcast = evm_broadcast lib cl,
      ca_get_transaction = evm_get_transaction lib cfg cl\<rparr>"

section \<open>The tip and the fee cap\<close>

lemma scale_tip_nonneg: "0 \<le> tip \<Longrightarrow> 0 \<le> scale_tip tip s"
proof -
  assume "0 \<le> tip"
  then have "0 \<le> tip * m div 10" if "0 \<le> m" for m using that by (simp add: div_int_pos_iff)
  then show ?thesis by (simp add: scale_tip_def Let_def)
qed

text \<open>
  \<open>ScaleTip\<close> rounds the scaled tip down: 1.5 times for fast, 0.8 times for economy, the tip
  itself for every other speed, so the speeds are ordered.
\<close>

lemma scale_tip_ordered:
  assumes "0 \<le> tip"
  shows "2 * scale_tip tip SpeedFast \<le> 3 * tip \<and> 3 * tip < 2 * scale_tip tip SpeedFast + 2 \<and>
         5 * scale_tip tip SpeedEconomy \<le> 4 * tip \<and> 4 * tip < 5 * scale_tip tip SpeedEconomy + 5 \<and>
         (s \<noteq> SpeedFast \<longrightarrow> s \<noteq> SpeedEconomy \<longrightarrow> scale_tip tip s = tip) \<and>
         0 \<le> scale_tip tip SpeedEconomy \<and> scale_tip tip SpeedEconomy \<le> scale_tip tip SpeedStandard \<and>
         scale_tip tip SpeedStandard \<le> scale_tip tip SpeedFast"
  using assms scale_tip_nonneg[OF assms] by (auto simp: scale_tip_def speed_defs Let_def)

lemma big_of_param_fee [simp]:
  "big_of_param (fee_params (evm_fee_of s m t)) ''max_fee_per_gas'' = m"
  "big_of_param (fee_params (evm_fee_of s m t)) ''max_priority_fee_per_gas'' = t"
  by (simp_all add: big_of_param_def param_def evm_fee_of_def)

lemma evm_fee_total [simp]:
  "amt_base (fee_total (evm_fee_of s m t)) = Some (m * gas_limit)"
  by (simp add: evm_fee_of_def)

lemma evm_estimate_fee_Val:
  assumes "evm_estimate_fee cl req w = (Val fee, w')"
  obtains tip baseFee w1 where "ec_suggest_gas_tip_cap cl w = (Val tip, w1)"
    "ec_latest_base_fee cl w1 = (Val baseFee, w')"
    "fee = evm_fee_of (req_speed req)
       ((case baseFee of None \<Rightarrow> 0 | Some b \<Rightarrow> b) * 2 + scale_tip tip (req_speed req))
       (scale_tip tip (req_speed req))"
  using assms by (auto simp: evm_estimate_fee_def io_bind_eq_Val_iff Let_def)

lemma evm_build_transfer_Val:
  assumes "evm_build_transfer lib cfg cl req w = (Val utx, w')"
  obtains nonce w1 fee where
    "ec_pending_nonce_at cl (el_hex_to_address lib (req_from req)) w = (Val nonce, w1)"
    "evm_estimate_fee cl req w1 = (Val fee, w')"
    "el_marshal lib (el_new_tx lib (evm_transfer_tx lib cfg req nonce fee)) = Val (utx_payload utx)"
    "utx_fee utx = fee" "utx_request utx = req" "utx_chain utx = cfg_chain cfg"
  using assms by (auto simp: evm_build_transfer_def io_bind_eq_Val_iff Let_def)

text \<open>
  C19. The fee of a built transfer is made of the node's own answers: the tip cap is the tip it
  suggested, one and a half times that for \<open>fast\<close> and four fifths for \<open>economy\<close>, and the fee cap is
  that plus twice the base fee of its latest block (0 where it has none). Both travel through decimal
  strings in \<open>Params\<close> and are parsed back when the transaction is made; nothing is lost: they are
  the caps of the transaction that is serialised, with the nonce the node gave for the sender. The
  estimated total is the most its gas can cost, and for a node whose numbers are not negative the tip
  cap does not exceed the fee cap.
\<close>

theorem evm_transfer_costs_estimate:
  assumes "evm_build_transfer lib cfg cl req w = (Val utx, w')"
  shows "\<exists>nonce tip head tipCap feeCap w1 w2.
     ec_pending_nonce_at cl (el_hex_to_address lib (req_from req)) w = (Val nonce, w1) \<and>
     ec_suggest_gas_tip_cap cl w1 = (Val tip, w2) \<and> ec_latest_base_fee cl w2 = (Val head, w') \<and>
     tipCap = (if req_speed req = SpeedFast then 3 * tip div 2
               else if req_speed req = SpeedEconomy then 4 * tip div 5 else tip) \<and>
     feeCap = 2 * (case head of None \<Rightarrow> 0 | Some b \<Rightarrow> b) + tipCap \<and>
     param (fee_params (utx_fee utx)) ''max_priority_fee_per_gas'' = show_int tipCap \<and>
     param (fee_params (utx_fee utx)) ''max_fee_per_gas'' = show_int feeCap \<and>
     el_marshal lib (el_new_tx lib
       \<lparr>df_chain_id = cfg_chain_id cfg, df_nonce = nonce, df_gas_tip_cap = tipCap, df_gas_fee_cap = feeCap,
        df_gas = 21000, df_to = el_hex_to_address lib (req_to req), df_value = amt_base (req_amount req)\<rparr>) =
       Val (utx_payload utx) \<and>
     amt_base (fee_total (utx_fee utx)) = Some (21000 * feeCap) \<and>
     (0 \<le> tip \<and> head \<noteq> None \<and> 0 \<le> the head \<longrightarrow> 0 \<le> tipCap \<and> tipCap \<le> feeCap)"
proof -
  from assms obtain nonce w1 fee where b:
    "ec_pending_nonce_at cl (el_hex_to_address lib (req_from req)) w = (Val nonce, w1)"
    "evm_estimate_fee cl req w1 = (Val fee, w')"
    "el_marshal lib (el_new_tx lib (evm_transfer_tx lib cfg req nonce fee)) = Val (utx_payload utx)"
    "utx_fee utx = fee"
    by (rule evm_build_transfer_Val)
  let ?tipCap = "\<lambda>tip. scale_tip tip (req_speed req)"
  from b(2) obtain tip head w2 where e: "ec_suggest_gas_tip_cap cl w1 = (Val tip, w2)"
    "ec_latest_base_fee cl w2 = (Val head, w')"
    "fee = evm_fee_of (req_speed req) ((case head of None \<Rightarrow> 0 | Some b \<Rightarrow> b) * 2 + ?tipCap tip) (?tipCap tip)"
    by (rule evm_estimate_fee_Val)
  have "?tipCap tip = (if req_speed req = SpeedFast then 3 * tip div 2
      else if req_speed req = SpeedEconomy then 4 * tip div 5 else tip)"
    unfolding scale_tip_def Let_def by (simp split: if_split; presburger)
  moreover have "0 \<le> tip \<Longrightarrow> 0 \<le> ?tipCap tip" by (rule scale_tip_nonneg)
  moreover have "param (fee_params fee) ''max_priority_fee_per_gas'' = show_int (?tipCap tip)"
    "param (fee_params fee) ''max_fee_per_gas'' = show_int (2 * (case head of None \<Rightarrow> 0 | Some b \<Rightarrow> b) + ?tipCap tip)"
    by (simp_all add: e(3) evm_fee_of_def param_def mult.commute)
  ultimately show ?thesis
    using b(1,3,4) e by (auto simp: evm_transfer_tx_def gas_limit_def mult.commute intro!: exI[of _ nonce] exI[of _ tip] exI[of _ head] exI[of _ w1] exI[of _ w2])
qed

section \<open>The envelope\<close>

text \<open>What is relied on from go-ethereum: decoding an encoded transaction gives it back.\<close>

definition evm_codec_ok :: "'tx evm_lib \<Rightarrow> bool" where
  "evm_codec_ok lib \<longleftrightarrow> (\<forall>t b. el_marshal lib t = Val b \<longrightarrow> el_unmarshal lib b = Val t)"

text \<open>
  Build, sign, broadcast: when all three succeed, the transaction the node receives is the
  one built from the request, carrying a signature by the given account over its London signing
  hash for the configured chain id, and the returned hash is that transaction's.
\<close>

lemma evm_lifecycle:
  assumes "evm_codec_ok lib"
    and "evm_build_transfer lib cfg cl req w = (Val utx, w1)"
    and "evm_sign lib cfg (utx\<lparr>utx_account := acc\<rparr>) sg = Val stx"
    and "evm_broadcast lib cl stx w2 = (Val hash, w3)"
  shows "\<exists>nonce fee sig tx signed.
           tx = el_new_tx lib (evm_transfer_tx lib cfg req nonce fee) \<and>
           sg_sign sg acc (el_sig_hash lib (cfg_chain_id cfg) tx) = Val sig \<and>
           el_with_signature lib (cfg_chain_id cfg) tx sig = Val signed \<and>
           ec_send_transaction cl signed w2 = (Val (), w3) \<and>
           hash = el_hash_hex lib signed \<and> stx_hash stx = hash \<and> stx_chain stx = cfg_chain cfg"
proof -
  from assms(2) obtain nonce fee where
    "el_marshal lib (el_new_tx lib (evm_transfer_tx lib cfg req nonce fee)) = Val (utx_payload utx)"
    by (rule evm_build_transfer_Val)
  with assms(1) have dec:
    "el_unmarshal lib (utx_payload utx) = Val (el_new_tx lib (evm_transfer_tx lib cfg req nonce fee))"
    by (simp add: evm_codec_ok_def)
  from assms(3) dec obtain sig signed where
    s: "sg_sign sg acc (el_sig_hash lib (cfg_chain_id cfg)
          (el_new_tx lib (evm_transfer_tx lib cfg req nonce fee))) = Val sig"
      "el_with_signature lib (cfg_chain_id cfg)
          (el_new_tx lib (evm_transfer_tx lib cfg req nonce fee)) sig = Val signed"
      "el_marshal lib signed = Val (stx_raw stx)" "stx_hash stx = el_hash_hex lib signed"
      "stx_chain stx = cfg_chain cfg"
    by (auto simp: evm_sign_def go_bind_Val_iff)
  from s(3) assms(1) have "el_unmarshal lib (stx_raw stx) = Val signed" by (simp add: evm_codec_ok_def)
  with assms(4) have "ec_send_transaction cl signed w2 = (Val (), w3)" "hash = el_hash_hex lib signed"
    by (auto simp: evm_broadcast_def io_bind_eq_Val_iff)
  with s show ?thesis by blast
qed

text \<open>
  Every answer of the node gives exactly one status: not found is \<open>unknown\<close>, any other
  failure of the first call is an error, no receipt (for whatever reason) is \<open>pending\<close>, a
  receipt is \<open>failed\<close> when its status is 0 and \<open>confirmed\<close> otherwise, with the receipt's
  height and a fee of gas used times the effective gas price.
\<close>

lemma evm_get_transaction_cases:
  assumes "ec_transaction_by_hash cl (el_hex_to_hash lib hash) w = (r, w1)" and "r \<noteq> Panic"
    and "ec_transaction_receipt cl (el_hex_to_hash lib hash) w1 = (rr, w2)" and "rr \<noteq> Panic"
    and "\<And>rc. rr = Val rc \<Longrightarrow> rc_block_number rc = Some (h rc) \<and> 0 \<le> h rc \<and> h rc < 2 ^ 64"
  shows "evm_get_transaction lib cfg cl hash w =
    (case r of
       Err e \<Rightarrow> (if e = ethereum_not_found
                 then (Val (bare_transaction (cfg_chain cfg) hash TxUnknown), w1)
                 else (Err (Wrapf ''evm: get tx %s: %w'' [AStr hash] e), w1))
     | Val tx \<Rightarrow> (case rr of
         Val rc \<Rightarrow>
           (Val \<lparr>tx_chain = cfg_chain cfg, tx_hash = hash,
                 tx_status = (if rc_status rc = 0 then TxFailed else TxConfirmed),
                 tx_confirmations = 0, tx_block_height = word_of_int (h rc),
                 tx_fee = \<lparr>amt_asset = native_eth, amt_base = Some (uint (rc_gas_used rc) *
                    (case rc_effective_gas_price rc of None \<Rightarrow> el_gas_price lib tx | Some p \<Rightarrow> p))\<rparr>\<rparr>, w2)
       | _ \<Rightarrow> (Val (bare_transaction (cfg_chain cfg) hash TxPending), w2))
     | Panic \<Rightarrow> (Panic, w1))"
  using assms
  by (cases r; cases rr)
    (auto simp: evm_get_transaction_def io_bind_def io_try_def mined_transaction_def Let_def
      big_Uint64_id)

section \<open>A concrete instance\<close>

text \<open>Transactions are their dynamic-fee fields with an optional signature.\<close>

definition sample_evm_lib :: "(dynamic_fee_tx \<times> bytes option) evm_lib" where
  "sample_evm_lib = \<lparr>el_hex_to_address = bytes_of, el_address_hex = hex_encode,
     el_hex_to_hash = bytes_of, el_new_tx = (\<lambda>d. (d, None)),
     el_marshal = (\<lambda>(d, s). case s of
         None \<Rightarrow> if d = \<lparr>df_chain_id = 8453, df_nonce = 7, df_gas_tip_cap = 15, df_gas_fee_cap = 215,
                       df_gas = 21000, df_to = [98], df_value = Some 5\<rparr> then Val [1] else Err (Foreign ''x'')
       | Some _ \<Rightarrow> Err (Foreign ''x'')),
     el_unmarshal = (\<lambda>b. if b = [1] then Val (\<lparr>df_chain_id = 8453, df_nonce = 7, df_gas_tip_cap = 15,
         df_gas_fee_cap = 215, df_gas = 21000, df_to = [98], df_value = Some 5\<rparr>, None) else Err (Foreign ''x'')),
     el_sig_hash = (\<lambda>_ _. [4]), el_with_signature = (\<lambda>_ (d, _) _. Val (d, None)),
     el_sender = (\<lambda>_ _. Val [97]), el_hash_hex = (\<lambda>_. ''0xaa''),
     el_to = (\<lambda>(d, _). Some (df_to d)), el_value = (\<lambda>(d, _). 5), el_gas_price = (\<lambda>_. 3),
     el_pubkey_address = (\<lambda>b. b)\<rparr>"

definition sample_evm_config :: evm_config where
  "sample_evm_config = \<lparr>cfg_rpc_url = ''http://localhost:8546'', cfg_chain_id = 8453, cfg_chain = ChainBase\<rparr>"

definition sample_evm_client :: "('w, dynamic_fee_tx \<times> bytes option) evm_client" where
  "sample_evm_client = \<lparr>ec_balance_at = (\<lambda>_. io_return 9), ec_suggest_gas_tip_cap = io_return 10,
     ec_latest_base_fee = io_return (Some 100), ec_pending_nonce_at = (\<lambda>_. io_return 7),
     ec_send_transaction = (\<lambda>_. io_return ()),
     ec_transaction_by_hash = (\<lambda>_. io_fail ethereum_not_found),
     ec_transaction_receipt = (\<lambda>_. io_fail ethereum_not_found)\<rparr>"

definition sample_evm_request :: transfer_request where
  "sample_evm_request = \<lparr>req_network = \<lparr>net_chain = ChainBase, net_env = EnvLocal\<rparr>,
     req_from = ''a'', req_to = ''b'', req_amount = \<lparr>amt_asset = native_eth, amt_base = Some 5\<rparr>,
     req_speed = SpeedFast\<rparr>"

lemmas sample_evm_defs = sample_evm_lib_def sample_evm_config_def sample_evm_client_def
  sample_evm_request_def

lemma sample_evm_fee:
  "evm_estimate_fee sample_evm_client sample_evm_request w = (Val (evm_fee_of SpeedFast 215 15), w)"
  by (simp add: evm_estimate_fee_def io_bind_def io_wrap_def sample_evm_client_def
      sample_evm_request_def scale_tip_def Let_def)

lemma sample_evm_build:
  "evm_build_transfer sample_evm_lib sample_evm_config sample_evm_client sample_evm_request w =
     (Val \<lparr>utx_chain = ChainBase, utx_account = zero_account, utx_request = sample_evm_request,
           utx_fee = evm_fee_of SpeedFast 215 15, utx_payload = [1]\<rparr>, w)"
proof -
  have tx: "evm_transfer_tx sample_evm_lib sample_evm_config sample_evm_request 7
      (evm_fee_of SpeedFast 215 15) = \<lparr>df_chain_id = 8453, df_nonce = 7, df_gas_tip_cap = 15,
        df_gas_fee_cap = 215, df_gas = 21000, df_to = [98], df_value = Some 5\<rparr>"
    by (simp add: evm_transfer_tx_def) (simp add: sample_evm_defs bytes_of_def)
  have nonce: "ec_pending_nonce_at sample_evm_client a w = (Val 7, w)" for a
    by (simp add: sample_evm_client_def)
  have "el_marshal sample_evm_lib (el_new_tx sample_evm_lib
      (evm_transfer_tx sample_evm_lib sample_evm_config sample_evm_request 7
        (evm_fee_of SpeedFast 215 15))) = Val [1]"
    unfolding tx by (simp add: sample_evm_lib_def)
  moreover have "cfg_chain sample_evm_config = ChainBase" by (simp add: sample_evm_config_def)
  ultimately show ?thesis
    by (simp add: evm_build_transfer_def io_bind_def io_wrap_def nonce sample_evm_fee Let_def)
qed

lemma sample_evm_codec: "evm_codec_ok sample_evm_lib"
  by (auto simp: evm_codec_ok_def sample_evm_lib_def split: if_splits option.splits)

theorem evm_transfer_costs_estimate_witness:
  "el_marshal sample_evm_lib (el_new_tx sample_evm_lib
     \<lparr>df_chain_id = 8453, df_nonce = 7, df_gas_tip_cap = 15, df_gas_fee_cap = 215, df_gas = 21000,
      df_to = [98], df_value = Some 5\<rparr>) = Val [1] \<and> (15 :: int) \<le> 215 \<and>
   amt_base (fee_total (evm_fee_of SpeedFast 215 15)) = Some (21000 * 215)"
proof -
  have to_b: "el_hex_to_address sample_evm_lib ''b'' = [98]" by code_simp
  from evm_transfer_costs_estimate[OF sample_evm_build, of "()"] show ?thesis
    by (auto simp: sample_evm_client_def sample_evm_request_def sample_evm_config_def to_b gas_limit_def)
qed

end
