(* ===== verification/EvmWatcher.thy ===== *)
theory EvmWatcher
  imports Evm
begin

text \<open>
  \<^verbatim>\<open>internal/adapter/chain/evm/watcher.go\<close>: the block-scanning watcher. \<open>MatchTransactions\<close>
  and \<open>Watch\<close> are functions; the goroutine \<open>poll\<close> is a step relation, one rule per
  interaction with the ticker, the node, the channel or the context, because what it does is
  interleaved with its consumer and can be cut off between any two of them.
\<close>

section \<open>Matching the transactions of a block\<close>

definition address_of :: "'tx evm_lib \<Rightarrow> bytes option \<Rightarrow> address" where
  "address_of lib a = (case a of None \<Rightarrow> [] | Some b \<Rightarrow> el_address_hex lib b)"

definition mk_tx_event ::
  "'tx evm_lib \<Rightarrow> tx_event_type \<Rightarrow> chain_id \<Rightarrow> address \<Rightarrow> address \<Rightarrow> 'tx \<Rightarrow> 64 word \<Rightarrow> time \<Rightarrow> tx_event" where
  "mk_tx_event lib typ chain addr counterparty tx blockNumber ts =
     \<lparr>ev_type = typ, ev_chain = chain, ev_address = addr, ev_counterparty = counterparty,
      ev_hash = el_hash_hex lib tx,
      ev_amount = \<lparr>amt_asset = native_eth, amt_base = Some (el_value lib tx)\<rparr>,
      ev_status = TxConfirmed, ev_height = blockNumber, ev_time = ts\<rparr>"

definition match_transaction ::
  "'tx evm_lib \<Rightarrow> chain_id \<Rightarrow> int \<Rightarrow> 64 word \<Rightarrow> time \<Rightarrow> (bytes \<rightharpoonup> address) \<Rightarrow> 'tx \<Rightarrow> tx_event list" where
  "match_transaction lib chain signer blockNumber ts watched tx =
     (let from_r = el_sender lib signer tx;
          to_r = el_to lib tx;
          counterparty = address_of lib to_r;
          outbound = (case from_r of
              Val from_a \<Rightarrow> (case watched from_a of
                  Some addr \<Rightarrow> [mk_tx_event lib EventOutbound chain addr counterparty tx blockNumber ts]
                | None \<Rightarrow> [])
            | _ \<Rightarrow> []);
          inbound = (case to_r of
              Some to_a \<Rightarrow> (case watched to_a of
                  Some addr \<Rightarrow>
                    (let fromAddr = (case from_r of Val from_a \<Rightarrow> el_address_hex lib from_a | _ \<Rightarrow> [])
                     in [mk_tx_event lib EventInbound chain addr fromAddr tx blockNumber ts])
                | None \<Rightarrow> [])
            | None \<Rightarrow> [])
      in outbound @ inbound)"

fun match_loop ::
  "'tx evm_lib \<Rightarrow> chain_id \<Rightarrow> int \<Rightarrow> 64 word \<Rightarrow> time \<Rightarrow> (bytes \<rightharpoonup> address) \<Rightarrow> 'tx list \<Rightarrow> tx_event list" where
  "match_loop lib chain signer n ts watched [] = []"
| "match_loop lib chain signer n ts watched (tx # txs) =
     match_transaction lib chain signer n ts watched tx @ match_loop lib chain signer n ts watched txs"

text \<open>\<open>time.Unix(int64(blockTime), 0)\<close>, in nanoseconds.\<close>

definition block_timestamp :: "64 word \<Rightarrow> time" where
  "block_timestamp t = int64 (uint t) * 10 ^ 9"

definition match_transactions ::
  "'tx evm_lib \<Rightarrow> chain_id \<Rightarrow> int \<Rightarrow> 'tx list \<Rightarrow> 64 word \<Rightarrow> 64 word \<Rightarrow> (bytes \<rightharpoonup> address) \<Rightarrow> tx_event list" where
  "match_transactions lib chain signer txs blockNumber blockTime watched =
     match_loop lib chain signer blockNumber (block_timestamp blockTime) watched txs"

text \<open>The watch set, keyed by the decoded address; a later entry replaces an equal key.\<close>

definition build_watched :: "'tx evm_lib \<Rightarrow> address list \<Rightarrow> bytes \<rightharpoonup> address" where
  "build_watched lib addrs = foldl (\<lambda>m a. m(el_hex_to_address lib a \<mapsto> a)) Map.empty addrs"

section \<open>Starting a watch\<close>

record 'tx block =
  blk_txs :: "'tx list"
  blk_time :: "64 word"

record ('w, 'tx) watcher =
  wt_lib :: "'tx evm_lib"
  wt_cfg :: evm_config
  wt_block_number :: "('w, 64 word) io"
  wt_cursor :: "'w cursor_store option"

text \<open>
  The block to start after: the tip, or the saved cursor when there is one below the tip; an
  error of the cursor store is only logged.
\<close>

definition watch_from :: "('w, 'tx) watcher \<Rightarrow> ('w, 64 word) io" where
  "watch_from wt =
     io_bind (io_wrap (Wrapf ''evm: watcher latest block: %w'' []) (wt_block_number wt)) (\<lambda>tip.
     case wt_cursor wt of
       None \<Rightarrow> io_return tip
     | Some store \<Rightarrow>
         io_bind (io_try (cs_get store (cfg_chain (wt_cfg wt)))) (\<lambda>r.
         case r of
           Inr (Some saved) \<Rightarrow> io_return (if saved < tip then saved else tip)
         | _ \<Rightarrow> io_return tip))"

section \<open>The polling goroutine\<close>

text \<open>
  Where the goroutine is: waiting in the outer \<open>select\<close>; at the head of the inner loop with
  its loop variable and tip; in the loop over a block's events with those not yet sent;
  returned.
\<close>

datatype 'tx poll_pc =
    Waiting
  | Scanning "64 word" "64 word"
  | Sending "64 word" "64 word" "'tx block" "tx_event list"
  | Returned

text \<open>
  \<open>ps_cursor\<close> is what the cursor store holds for the chain; an error of saving it is only
  logged, so \<open>BlockDone n saved\<close> says by \<open>saved\<close> whether the store holds \<open>n\<close> afterwards. \<open>ps_sent\<close> and \<open>ps_scanned\<close>
  record, for the specification only, the events sent and the blocks gone through in full.
\<close>

record 'tx poll_state =
  ps_pc :: "'tx poll_pc"
  ps_next :: "64 word"
  ps_cursor :: "64 word option"
  ps_sent :: "tx_event list"
  ps_scanned :: "(64 word \<times> 'tx block) list"

record 'tx poll_params =
  pp_lib :: "'tx evm_lib"
  pp_chain :: chain_id
  pp_signer :: int
  pp_watched :: "bytes \<rightharpoonup> address"
  pp_cursor_on :: bool

definition block_events :: "'tx poll_params \<Rightarrow> 64 word \<Rightarrow> 'tx block \<Rightarrow> tx_event list" where
  "block_events pp n b =
     match_transactions (pp_lib pp) (pp_chain pp) (pp_signer pp) (blk_txs b) n (blk_time b) (pp_watched pp)"

definition poll_init :: "64 word \<Rightarrow> 64 word option \<Rightarrow> 'tx poll_state" where
  "poll_init start cur =
     \<lparr>ps_pc = Waiting, ps_next = start + 1, ps_cursor = cur, ps_sent = [], ps_scanned = []\<rparr>"

datatype 'tx poll_label =
    CtxDone
  | Tick "64 word go"
  | LoopEnd
  | Fetch "64 word" "'tx block go"
  | SendEvent tx_event
  | BlockDone "64 word" bool

inductive poll_step :: "'tx poll_params \<Rightarrow> 'tx poll_state \<Rightarrow> 'tx poll_label \<Rightarrow> 'tx poll_state \<Rightarrow> bool"
  for pp where
  cancel_wait: "ps_pc s = Waiting \<Longrightarrow> poll_step pp s CtxDone (s\<lparr>ps_pc := Returned\<rparr>)"
| tick_err: "ps_pc s = Waiting \<Longrightarrow> poll_step pp s (Tick (Err e)) s"
| tick: "ps_pc s = Waiting \<Longrightarrow> poll_step pp s (Tick (Val tip)) (s\<lparr>ps_pc := Scanning (ps_next s) tip\<rparr>)"
| loop_end: "ps_pc s = Scanning n tip \<Longrightarrow> \<not> n \<le> tip \<Longrightarrow> poll_step pp s LoopEnd (s\<lparr>ps_pc := Waiting\<rparr>)"
| fetch_err: "ps_pc s = Scanning n tip \<Longrightarrow> n \<le> tip \<Longrightarrow>
     poll_step pp s (Fetch n (Err e)) (s\<lparr>ps_pc := Waiting\<rparr>)"
| fetch: "ps_pc s = Scanning n tip \<Longrightarrow> n \<le> tip \<Longrightarrow>
     poll_step pp s (Fetch n (Val b)) (s\<lparr>ps_pc := Sending n tip b (block_events pp n b)\<rparr>)"
| send: "ps_pc s = Sending n tip b (e # es) \<Longrightarrow>
     poll_step pp s (SendEvent e) (s\<lparr>ps_pc := Sending n tip b es, ps_sent := ps_sent s @ [e]\<rparr>)"
| cancel_send: "ps_pc s = Sending n tip b (e # es) \<Longrightarrow>
     poll_step pp s CtxDone (s\<lparr>ps_pc := Returned\<rparr>)"
| block_done: "ps_pc s = Sending n tip b [] \<Longrightarrow>
     poll_step pp s (BlockDone n saved)
       (s\<lparr>ps_pc := Scanning (n + 1) tip, ps_next := n + 1,
          ps_cursor := (if pp_cursor_on pp \<and> saved then Some n else ps_cursor s),
          ps_scanned := ps_scanned s @ [(n, b)]\<rparr>)"

inductive_cases poll_send_cases: "poll_step pp s (SendEvent e) t"
inductive_cases poll_done_cases: "poll_step pp s (BlockDone n ok) t"

inductive poll_reach :: "'tx poll_params \<Rightarrow> 64 word \<Rightarrow> 64 word option \<Rightarrow> 'tx poll_state \<Rightarrow> bool"
  for pp start cur where
  poll_start: "poll_reach pp start cur (poll_init start cur)"
| poll_next: "poll_reach pp start cur s \<Longrightarrow> poll_step pp s l t \<Longrightarrow> poll_reach pp start cur t"

section \<open>Matching: every watched side, nothing else\<close>

lemma match_loop_concat:
  "match_loop lib chain signer n ts watched txs =
     concat (map (match_transaction lib chain signer n ts watched) txs)"
  by (induction txs) auto

definition outbound_event ::
  "'tx evm_lib \<Rightarrow> chain_id \<Rightarrow> int \<Rightarrow> 64 word \<Rightarrow> time \<Rightarrow> (bytes \<rightharpoonup> address) \<Rightarrow> 'tx \<Rightarrow> tx_event \<Rightarrow> bool" where
  "outbound_event lib chain signer n ts watched tx ev \<longleftrightarrow>
     (\<exists>a addr. el_sender lib signer tx = Val a \<and> watched a = Some addr \<and>
        ev = mk_tx_event lib EventOutbound chain addr
               (case el_to lib tx of None \<Rightarrow> [] | Some b \<Rightarrow> el_address_hex lib b) tx n ts)"

definition inbound_event ::
  "'tx evm_lib \<Rightarrow> chain_id \<Rightarrow> int \<Rightarrow> 64 word \<Rightarrow> time \<Rightarrow> (bytes \<rightharpoonup> address) \<Rightarrow> 'tx \<Rightarrow> tx_event \<Rightarrow> bool" where
  "inbound_event lib chain signer n ts watched tx ev \<longleftrightarrow>
     (\<exists>b addr. el_to lib tx = Some b \<and> watched b = Some addr \<and>
        ev = mk_tx_event lib EventInbound chain addr
               (case el_sender lib signer tx of Val a \<Rightarrow> el_address_hex lib a | _ \<Rightarrow> []) tx n ts)"

lemma outbound_event_iff:
  "outbound_event lib chain signer n ts watched tx ev \<longleftrightarrow>
     ev \<in> set (case el_sender lib signer tx of
         Val a \<Rightarrow> (case watched a of
             Some addr \<Rightarrow> [mk_tx_event lib EventOutbound chain addr (address_of lib (el_to lib tx)) tx n ts]
           | None \<Rightarrow> [])
       | _ \<Rightarrow> [])"
proof (cases "el_sender lib signer tx")
  case (Val a)
  then show ?thesis
    by (cases "watched a") (auto simp: outbound_event_def address_of_def)
qed (simp_all add: outbound_event_def)

lemma inbound_event_iff:
  "inbound_event lib chain signer n ts watched tx ev \<longleftrightarrow>
     ev \<in> set (case el_to lib tx of
         Some b \<Rightarrow> (case watched b of
             Some addr \<Rightarrow> (let f = (case el_sender lib signer tx of Val a \<Rightarrow> el_address_hex lib a | _ \<Rightarrow> [])
                           in [mk_tx_event lib EventInbound chain addr f tx n ts])
           | None \<Rightarrow> [])
       | None \<Rightarrow> [])"
  by (cases "el_to lib tx"; cases "watched (the (el_to lib tx))") (auto simp: inbound_event_def Let_def)

lemma match_transaction_iff:
  "ev \<in> set (match_transaction lib chain signer n ts watched tx) \<longleftrightarrow>
     outbound_event lib chain signer n ts watched tx ev \<or>
     inbound_event lib chain signer n ts watched tx ev"
  unfolding outbound_event_iff inbound_event_iff match_transaction_def by (simp only: Let_def set_append Un_iff)

lemma match_transactions_mem:
  "ev \<in> set (match_transactions lib chain signer txs n t watched) \<longleftrightarrow>
     (\<exists>tx \<in> set txs. outbound_event lib chain signer n (block_timestamp t) watched tx ev \<or>
        inbound_event lib chain signer n (block_timestamp t) watched tx ev)"
  by (simp add: match_transactions_def match_loop_concat match_transaction_iff)

lemma build_watched_map_of:
  "build_watched lib addrs = map_of (map (\<lambda>a. (el_hex_to_address lib a, a)) (rev addrs))"
proof -
  have "foldl (\<lambda>m a. m(f a \<mapsto> a)) m0 xs = m0 ++ map_of (map (\<lambda>a. (f a, a)) (rev xs))"
    for f :: "string \<Rightarrow> bytes" and m0 and xs :: "string list"
    by (induction xs arbitrary: m0) auto
  then show ?thesis by (simp add: build_watched_def)
qed

lemma build_watched_Some:
  "build_watched lib addrs k = Some a \<Longrightarrow> a \<in> set addrs \<and> el_hex_to_address lib a = k"
  by (auto simp: build_watched_map_of dest!: map_of_SomeD)

lemma build_watched_None: "build_watched lib addrs k = None \<longleftrightarrow> k \<notin> el_hex_to_address lib ` set addrs"
  by (auto simp: build_watched_map_of map_of_eq_None_iff image_iff)

text \<open>
  The specification: no map and no loop state. The side \<open>own\<close> of a transaction, if it is known and some
  address of the caller's list decodes to it, gives one event, for the last such spelling of the list.
\<close>

definition is_watched :: "'tx evm_lib \<Rightarrow> address list \<Rightarrow> bytes option \<Rightarrow> bool" where
  "is_watched lib addrs side \<longleftrightarrow> side \<in> (\<lambda>x. Some (el_hex_to_address lib x)) ` set addrs"

definition side_event ::
  "'tx evm_lib \<Rightarrow> chain_id \<Rightarrow> address list \<Rightarrow> 64 word \<Rightarrow> 64 word \<Rightarrow> 'tx \<Rightarrow>
   tx_event_type \<Rightarrow> bytes option \<Rightarrow> bytes option \<Rightarrow> tx_event list" where
  "side_event lib chain addrs n t tx side own other =
     [\<lparr>ev_type = side, ev_chain = chain, ev_address = last (filter (\<lambda>x. el_hex_to_address lib x = the own) addrs),
       ev_counterparty = (case other of None \<Rightarrow> [] | Some b \<Rightarrow> el_address_hex lib b),
       ev_hash = el_hash_hex lib tx,
       ev_amount = \<lparr>amt_asset = native_asset ''ETH'' 18, amt_base = Some (el_value lib tx)\<rparr>,
       ev_status = ''confirmed'', ev_height = n, ev_time = int64 (uint t) * 1000000000\<rparr>.
      is_watched lib addrs own]"

definition sender_of :: "'tx evm_lib \<Rightarrow> int \<Rightarrow> 'tx \<Rightarrow> bytes option" where
  "sender_of lib signer tx = (case el_sender lib signer tx of Val a \<Rightarrow> Some a | _ \<Rightarrow> None)"

lemma build_watched_last:
  "build_watched lib addrs a =
     (if \<exists>x \<in> set addrs. el_hex_to_address lib x = a then Some (last (filter (\<lambda>x. el_hex_to_address lib x = a) addrs)) else None)"
  by (induction addrs rule: rev_induct) (auto simp: build_watched_def)

text \<open>
  C18. \<open>MatchTransactions\<close> over the map \<open>Watch\<close> builds does what searching the caller's list would: for
  each transaction in order exactly one event for its sender, when it can be recovered and is
  watched, and then exactly one for its recipient, when there is one and it is watched; each with the
  address as the caller spelt it (the last spelling), the other side as counterparty, empty when it is
  not known, the value in wei, the status confirmed and the block's height and time. So there are as
  many events as transactions from and to watched addresses together.
\<close>

theorem match_transactions_exact:
  "match_transactions lib chain signer txs n t (build_watched lib addrs) =
     concat (map (\<lambda>tx.
       side_event lib chain addrs n t tx EventOutbound (sender_of lib signer tx) (el_to lib tx) @
       side_event lib chain addrs n t tx EventInbound (el_to lib tx) (sender_of lib signer tx)) txs) \<and>
   length (match_transactions lib chain signer txs n t (build_watched lib addrs)) =
     length (filter (\<lambda>tx. is_watched lib addrs (sender_of lib signer tx)) txs) +
     length (filter (\<lambda>tx. is_watched lib addrs (el_to lib tx)) txs)"
proof -
  have "match_transaction lib chain signer n (block_timestamp t) (build_watched lib addrs) = (\<lambda>tx.
       side_event lib chain addrs n t tx EventOutbound (sender_of lib signer tx) (el_to lib tx) @
       side_event lib chain addrs n t tx EventInbound (el_to lib tx) (sender_of lib signer tx))" (is "_ = ?sides")
  proof
    fix tx
    show "match_transaction lib chain signer n (block_timestamp t) (build_watched lib addrs) tx = ?sides tx"
      by (cases "el_sender lib signer tx"; cases "el_to lib tx")
        (auto simp: match_transaction_def Let_def sender_of_def side_event_def build_watched_last mk_tx_event_def
          block_timestamp_def is_watched_def native_eth_def TxConfirmed_def address_of_def)
  qed
  then have "match_transactions lib chain signer txs n t (build_watched lib addrs) = concat (map ?sides txs)"
    by (simp add: match_transactions_def match_loop_concat)
  moreover have "length (concat (map ?sides txs)) = length (filter (\<lambda>tx. is_watched lib addrs (sender_of lib signer tx)) txs) +
       length (filter (\<lambda>tx. is_watched lib addrs (el_to lib tx)) txs)"
    by (induction txs) (auto simp: side_event_def)
  ultimately show ?thesis by simp
qed

text \<open>
  The events of a watch only name addresses the caller gave, as the caller spelt them, so
  the caller's own table has an entry for each; and every transaction from or to a given address
  yields an event, for the address or for another spelling of it.
\<close>

lemma watch_events_addresses:
  assumes "watched = build_watched lib addrs"
  shows "(\<forall>ev \<in> set (match_transactions lib chain signer txs n t watched). ev_address ev \<in> set addrs) \<and>
         (\<forall>tx \<in> set txs. \<forall>a \<in> set addrs. el_to lib tx = Some (el_hex_to_address lib a) \<longrightarrow>
            (\<exists>ev \<in> set (match_transactions lib chain signer txs n t watched).
               ev_type ev = EventInbound \<and> ev_hash ev = el_hash_hex lib tx \<and>
               el_hex_to_address lib (ev_address ev) = el_hex_to_address lib a))"
proof (intro conjI ballI impI)
  fix ev assume "ev \<in> set (match_transactions lib chain signer txs n t watched)"
  then obtain k where "watched k = Some (ev_address ev)"
    unfolding match_transactions_mem by (auto simp: outbound_event_def inbound_event_def mk_tx_event_def)
  then show "ev_address ev \<in> set addrs" using build_watched_Some assms by blast
next
  fix tx a assume tx: "tx \<in> set txs" "a \<in> set addrs" "el_to lib tx = Some (el_hex_to_address lib a)"
  then obtain addr where w: "watched (el_hex_to_address lib a) = Some addr"
    using build_watched_None[of lib addrs "el_hex_to_address lib a"] assms by force
  then have hex: "el_hex_to_address lib addr = el_hex_to_address lib a"
    using build_watched_Some assms by blast
  let ?ev = "mk_tx_event lib EventInbound chain addr
     (case el_sender lib signer tx of Val a \<Rightarrow> el_address_hex lib a | _ \<Rightarrow> []) tx n (block_timestamp t)"
  have "?ev \<in> set (match_transactions lib chain signer txs n t watched)"
    unfolding match_transactions_mem inbound_event_def using tx w by blast
  with hex show "\<exists>ev \<in> set (match_transactions lib chain signer txs n t watched).
     ev_type ev = EventInbound \<and> ev_hash ev = el_hash_hex lib tx \<and>
     el_hex_to_address lib (ev_address ev) = el_hex_to_address lib a"
    by (intro bexI[of _ ?ev]) (simp_all add: mk_tx_event_def)
qed

section \<open>Polling: every block once, in order, and the cursor behind the events\<close>

definition all_events :: "'tx poll_params \<Rightarrow> (64 word \<times> 'tx block) list \<Rightarrow> tx_event list" where
  "all_events pp bs = concat (map (\<lambda>(n, b). block_events pp n b) bs)"

lemma all_events_simps [simp]:
  "all_events pp [] = []" "all_events pp (bs @ [(n, b)]) = all_events pp bs @ block_events pp n b"
  by (simp_all add: all_events_def)

text \<open>The events of the current block that have been sent: none, or a first part.\<close>

definition sent_part :: "'tx poll_params \<Rightarrow> 'tx poll_state \<Rightarrow> tx_event list \<Rightarrow> bool" where
  "sent_part pp s part \<longleftrightarrow>
     (case ps_pc s of
        Waiting \<Rightarrow> part = []
      | Scanning n tip \<Rightarrow> n = ps_next s \<and> part = []
      | Sending n tip b es \<Rightarrow> n = ps_next s \<and> n \<le> tip \<and> part @ es = block_events pp n b
      | Returned \<Rightarrow> part = [] \<or> (\<exists>b es. part @ es = block_events pp (ps_next s) b))"

definition poll_inv :: "'tx poll_params \<Rightarrow> 64 word \<Rightarrow> 64 word option \<Rightarrow> 'tx poll_state \<Rightarrow> bool" where
  "poll_inv pp start cur s \<longleftrightarrow>
     map fst (ps_scanned s) = map (\<lambda>i. start + 1 + of_nat i) [0..<length (ps_scanned s)] \<and>
     ps_next s = start + 1 + of_nat (length (ps_scanned s)) \<and>
     (ps_cursor s = cur \<or> ps_cursor s \<in> Some ` fst ` set (ps_scanned s)) \<and>
     (\<exists>part. sent_part pp s part \<and> ps_sent s = all_events pp (ps_scanned s) @ part)"

lemma sent_part_prefix:
  "sent_part pp s part \<Longrightarrow> part = [] \<or> (\<exists>b rest. part @ rest = block_events pp (ps_next s) b)"
  by (cases "ps_pc s") (auto simp: sent_part_def)

lemma poll_inv_init: "poll_inv pp start cur (poll_init start cur)"
  by (simp add: poll_inv_def poll_init_def sent_part_def)

lemma poll_inv_step:
  assumes "poll_step pp s l t" and "poll_inv pp start cur s"
  shows "poll_inv pp start cur t"
  using assms
proof (induction rule: poll_step.induct)
  case (cancel_send s n tip b e es)
  then show ?case by (auto simp: poll_inv_def sent_part_def)
next
  case (send s n tip b e es)
  then show ?case by (auto simp: poll_inv_def sent_part_def)
next
  case (block_done s n tip b saved)
  then show ?case by (auto simp: poll_inv_def sent_part_def)
qed (auto simp: poll_inv_def sent_part_def)

lemma poll_reach_inv: "poll_reach pp start cur s \<Longrightarrow> poll_inv pp start cur s"
  by (induction rule: poll_reach.induct) (auto intro: poll_inv_init poll_inv_step)

text \<open>
  C9. Whatever the node answers and whenever the watcher is stopped, the blocks it has gone
  through are those after its start, one after the other without gap or repetition, and what it
  has sent is exactly their events in order, followed by a first part of the next block's.
\<close>

theorem poll_every_block_once:
  assumes "poll_reach pp start cur s"
  shows "map fst (ps_scanned s) = map (\<lambda>i. start + 1 + of_nat i) [0..<length (ps_scanned s)] \<and>
         (\<exists>part. ps_sent s = all_events pp (ps_scanned s) @ part \<and>
            (part = [] \<or> (\<exists>b rest. part @ rest =
               block_events pp (start + 1 + of_nat (length (ps_scanned s))) b)))"
  using poll_reach_inv[OF assms] sent_part_prefix[of pp s] unfolding poll_inv_def by metis

lemma poll_inv_cursor:
  assumes inv: "poll_inv pp start cur s" and "ps_cursor s = Some h" and "ps_cursor s \<noteq> cur"
  shows "\<exists>k < length (ps_scanned s). h = start + 1 + of_nat k \<and>
           (\<exists>rest. ps_sent s = all_events pp (take (Suc k) (ps_scanned s)) @ rest)"
proof -
  from assms obtain p where "p \<in> set (ps_scanned s)" "fst p = h"
    by (auto simp: poll_inv_def)
  then obtain k where k: "k < length (ps_scanned s)" "fst (ps_scanned s ! k) = h"
    by (auto simp: in_set_conv_nth)
  from inv have "map fst (ps_scanned s) ! k = map (\<lambda>i. start + 1 + of_nat i) [0..<length (ps_scanned s)] ! k"
    by (simp add: poll_inv_def)
  with k have "h = start + 1 + of_nat k" by simp
  moreover from inv obtain part where "ps_sent s = all_events pp (ps_scanned s) @ part"
    by (auto simp: poll_inv_def)
  moreover have "all_events pp (ps_scanned s) = all_events pp (take (Suc k) (ps_scanned s)) @
      all_events pp (drop (Suc k) (ps_scanned s))"
    by (simp add: all_events_def flip: concat_append map_append)
  ultimately show ?thesis using k(1) by auto
qed

section \<open>The inner loop ends\<close>

text \<open>Blocks left up to the tip, then the stage in the block, then the events left to send.\<close>

definition scan_measure :: "'tx poll_state \<Rightarrow> nat \<times> nat \<times> nat" where
  "scan_measure s = (case ps_pc s of
      Scanning n tip \<Rightarrow> (unat tip + 1 - unat n, 1, 0)
    | Sending n tip b es \<Rightarrow> (unat tip + 1 - unat n, 0, length es)
    | _ \<Rightarrow> (0, 0, 0))"

definition tip_bounded :: "'tx poll_state \<Rightarrow> bool" where
  "tip_bounded s = (case ps_pc s of
      Scanning n tip \<Rightarrow> tip < - 1
    | Sending n tip b es \<Rightarrow> tip < - 1 \<and> n \<le> tip
    | _ \<Rightarrow> True)"

lemma unat_Suc_below_max: "n < (- 1 :: 64 word) \<Longrightarrow> unat (n + 1) = Suc (unat n)"
proof -
  assume "n < (- 1 :: 64 word)"
  then have "unat n < unat (- 1 :: 64 word)" by (simp only: word_less_nat_alt)
  moreover have "unat (- 1 :: 64 word) = 2 ^ 64 - 1" by (simp add: unsigned_minus_1_eq_mask mask_eq_exp_minus_1)
  ultimately have "unat n + 1 < 2 ^ 64" by simp
  then show ?thesis by (simp add: unat_word_ariths)
qed

lemma inner_step_decreases:
  assumes "poll_step pp s l t" and "ps_pc s \<noteq> Waiting" and "tip_bounded s"
  shows "(scan_measure t, scan_measure s) \<in> less_than <*lex*> less_than <*lex*> less_than \<and>
         (ps_pc t = Waiting \<or> tip_bounded t)"
  using assms
proof (induction rule: poll_step.induct)
  case (block_done s n tip b saved)
  then have n: "n \<le> tip" "tip < - 1" by (auto simp: tip_bounded_def)
  then have "unat (n + 1) = Suc (unat n)" by (intro unat_Suc_below_max) (rule le_less_trans)
  moreover have "unat n \<le> unat tip" using n(1) by (simp add: word_le_nat_alt)
  ultimately show ?case using block_done n by (auto simp: scan_measure_def tip_bounded_def)
qed (auto simp: scan_measure_def tip_bounded_def word_le_nat_alt)

text \<open>
  C36. The scan of one tick ends: below the largest height the inner loop cannot take infinitely
  many steps without returning to the ticker, however many events the blocks hold.
\<close>

theorem scan_terminates:
  assumes "tip_bounded (f 0)"
  shows "\<not> (\<forall>i. ps_pc (f i) \<noteq> Waiting \<and> (\<exists>l. poll_step pp (f i) l (f (Suc i))))"
proof
  assume run: "\<forall>i. ps_pc (f i) \<noteq> Waiting \<and> (\<exists>l. poll_step pp (f i) l (f (Suc i)))"
  have bounded: "tip_bounded (f i)" for i
  proof (induction i)
    case (Suc i)
    then show ?case using run inner_step_decreases by metis
  qed (rule assms)
  have step: "(scan_measure (f (Suc i)), scan_measure (f i)) \<in> less_than <*lex*> less_than <*lex*> less_than"
    for i using run bounded inner_step_decreases by metis
  have "\<exists>g. \<forall>i. (g (Suc i), g i) \<in> less_than <*lex*> less_than <*lex*> less_than"
    by (rule exI[of _ "\<lambda>i. scan_measure (f i)"]) (simp only: step simp_thms)
  moreover have "wf (less_than <*lex*> less_than <*lex*> less_than)" by auto
  ultimately show False unfolding wf_iff_no_infinite_down_chain by contradiction
qed

section \<open>A concrete run\<close>

text \<open>
  A watch on address \<open>b\<close>, started at block 5: the tip is 6, block 6 holds one transfer to
  \<open>b\<close>, its event is sent and the cursor saved.
\<close>

definition sample_dynamic_tx :: "dynamic_fee_tx \<times> bytes option" where
  "sample_dynamic_tx = (\<lparr>df_chain_id = 8453, df_nonce = 7, df_gas_tip_cap = 15, df_gas_fee_cap = 215,
     df_gas = 21000, df_to = [98], df_value = Some 5\<rparr>, None)"

definition sample_block :: "(dynamic_fee_tx \<times> bytes option) block" where
  "sample_block = \<lparr>blk_txs = [sample_dynamic_tx], blk_time = 3\<rparr>"

definition sample_poll :: "(dynamic_fee_tx \<times> bytes option) poll_params" where
  "sample_poll = \<lparr>pp_lib = sample_evm_lib, pp_chain = ChainBase, pp_signer = 8453,
     pp_watched = build_watched sample_evm_lib [''b''], pp_cursor_on = True\<rparr>"

definition sample_event :: tx_event where
  "sample_event = mk_tx_event sample_evm_lib EventInbound ChainBase ''b'' ''61'' sample_dynamic_tx 6 (3 * 10 ^ 9)"

definition sample_polled :: "(dynamic_fee_tx \<times> bytes option) poll_state" where
  "sample_polled = \<lparr>ps_pc = Scanning 7 6, ps_next = 7, ps_cursor = Some 6, ps_sent = [sample_event],
     ps_scanned = [(6, sample_block)]\<rparr>"

lemma sample_hex_encode: "hex_encode [97] = ''61''"
  by code_simp

lemma sample_watched: "build_watched sample_evm_lib [''b''] = [[98] \<mapsto> ''b'']"
  by (simp add: build_watched_def sample_evm_lib_def bytes_of_def)

lemma sample_block_events: "block_events sample_poll 6 sample_block = [sample_event]"
  by (simp add: block_events_def match_transactions_def match_transaction_def sample_poll_def
      sample_watched sample_block_def sample_event_def block_timestamp_def int64_def Let_def)
    (simp add: sample_evm_lib_def sample_dynamic_tx_def sample_hex_encode mk_tx_event_def)

lemma sample_poll_reach: "poll_reach sample_poll 5 (Some 5) sample_polled"
proof -
  let ?s0 = "poll_init 5 (Some 5)"
  let ?s1 = "?s0\<lparr>ps_pc := Scanning 6 6\<rparr>"
  let ?s2 = "?s0\<lparr>ps_pc := Sending 6 6 sample_block [sample_event]\<rparr>"
  let ?s3 = "?s0\<lparr>ps_pc := Sending 6 6 sample_block [], ps_sent := [sample_event]\<rparr>"
  have "poll_step sample_poll ?s0 (Tick (Val 6)) ?s1"
    using poll_step.tick[of ?s0 sample_poll 6] by (simp add: poll_init_def)
  moreover have "poll_step sample_poll ?s1 (Fetch 6 (Val sample_block)) ?s2"
    using poll_step.fetch[of ?s1 6 6 sample_poll sample_block] by (simp add: sample_block_events)
  moreover have "poll_step sample_poll ?s2 (SendEvent sample_event) ?s3"
    using poll_step.send[of ?s2 6 6 sample_block sample_event "[]" sample_poll]
    by (simp add: poll_init_def)
  moreover have "poll_step sample_poll ?s3 (BlockDone 6 True) sample_polled"
    using poll_step.block_done[of ?s3 6 6 sample_block sample_poll True]
    by (simp add: poll_init_def sample_polled_def sample_poll_def)
  ultimately show ?thesis by (meson poll_reach.intros)
qed

theorem poll_every_block_once_witness:
  "\<exists>part. [sample_event] = all_events sample_poll [(6, sample_block)] @ part"
  using poll_every_block_once[OF sample_poll_reach] by (auto simp: sample_polled_def)

definition sample_watcher :: "(64 word option, dynamic_fee_tx \<times> bytes option) watcher" where
  "sample_watcher = \<lparr>wt_lib = sample_evm_lib, wt_cfg = sample_evm_config, wt_block_number = io_return 9,
     wt_cursor = Some \<lparr>cs_get = (\<lambda>_ c. (Val c, c)), cs_set = (\<lambda>_ h _. (Val (), Some h))\<rparr>\<rparr>"

theorem scan_terminates_witness:
  "\<not> (\<forall>i::nat. ps_pc sample_polled \<noteq> Waiting \<and> (\<exists>l. poll_step sample_poll sample_polled l sample_polled))"
  using scan_terminates[of "\<lambda>_. sample_polled" sample_poll] by (simp add: tip_bounded_def sample_polled_def)

end
