(* ===== verification/Monitor.thy ===== *)
theory Monitor
  imports EvmWatcher Registry
begin

text \<open>
  \<^verbatim>\<open>internal/app/monitor_service.go\<close> and \<^verbatim>\<open>cmd/api/monitoring.go\<close>: what is watched, and
  the goroutine that saves and publishes the events. It runs beside the watcher's \<open>poll\<close>, over
  an unbuffered channel, so the pair is one step relation: a send and the receive that takes it
  are one step, everything else interleaves.
\<close>

section \<open>What is watched\<close>

text \<open>The map from address to owner for one chain; a later wallet replaces an equal address.\<close>

definition watched_addresses :: "chain_id \<Rightarrow> wallet list \<Rightarrow> (address \<times> string) list" where
  "watched_addresses chain wallets =
     foldl (\<lambda>addrs w. case wallet_account w chain of
         Some acc \<Rightarrow> AList.update (acc_address acc) (w_id w) addrs
       | None \<Rightarrow> addrs) [] wallets"

text \<open>
  The watches \<open>startMonitoring\<close> starts, one goroutine each; when the wallets cannot be listed
  it only writes to the log.
\<close>

definition start_monitoring :: "'w wallet_repo \<Rightarrow> ('w, (chain_id \<times> (address \<times> string) list) list) io" where
  "start_monitoring repo =
     io_bind (io_try (wr_list repo)) (\<lambda>r.
     case r of
       Inl e \<Rightarrow> io_return []
     | Inr wallets \<Rightarrow> io_return (map (\<lambda>chain. (chain, watched_addresses chain wallets)) [ChainEthereum, ChainBase]))"

text \<open>
  The start of \<open>MonitorService.Watch\<close>: the watcher is looked up and started with the keys of the
  map in some order. What follows is the loop, the step relation below.
\<close>

definition addr_list :: "(address list \<Rightarrow> address list) \<Rightarrow> (address \<times> string) list \<Rightarrow> address list" where
  "addr_list ord addrs = visit ord (map fst addrs)"

definition monitor_start ::
  "('w, 'c) registry_port \<Rightarrow> (address list \<Rightarrow> address list) \<Rightarrow> chain_id \<Rightarrow> (address \<times> string) list \<Rightarrow> ('w, 'c) io" where
  "monitor_start rg ord chain addrs =
     io_bind (io_lift (rg_watcher rg chain)) (\<lambda>watcher. cw_watch watcher (addr_list ord addrs))"

section \<open>The monitor beside the watcher\<close>

text \<open>\<open>MonitorReturned\<close> holds what \<open>Watch\<close> returned.\<close>

datatype monitor_pc =
    Selecting
  | Saving tx_event
  | Publishing tx_event
  | MonitorReturned "unit go"

definition context_canceled :: go_error where
  "context_canceled = Foreign ''context canceled''"

text \<open>
  \<open>pl_saved\<close> holds the arguments of the successful \<open>SaveEvent\<close> calls, \<open>pl_published\<close> those
  of the successful \<open>Publish\<close> calls.
\<close>

record 'tx pipeline =
  pl_poll :: "'tx poll_state"
  pl_monitor :: monitor_pc
  pl_cancelled :: bool
  pl_saved :: "(string \<times> tx_event) list"
  pl_published :: "tx_event list"

definition pipe_init :: "64 word \<Rightarrow> 64 word option \<Rightarrow> 'tx pipeline" where
  "pipe_init start cur =
     \<lparr>pl_poll = poll_init start cur, pl_monitor = Selecting, pl_cancelled = False,
      pl_saved = [], pl_published = []\<rparr>"

fun is_send :: "'tx poll_label \<Rightarrow> bool" where
  "is_send (SendEvent e) = True"
| "is_send _ = False"

inductive pipe_step ::
  "'tx poll_params \<Rightarrow> (address \<times> string) list \<Rightarrow> 'tx pipeline \<Rightarrow> 'tx pipeline \<Rightarrow> bool"
  for pp addrs where
  ctx_cancel: "pipe_step pp addrs s (s\<lparr>pl_cancelled := True\<rparr>)"
| watcher_step: "poll_step pp (pl_poll s) l p \<Longrightarrow> \<not> is_send l \<Longrightarrow> (l = CtxDone \<longrightarrow> pl_cancelled s) \<Longrightarrow>
     pipe_step pp addrs s (s\<lparr>pl_poll := p\<rparr>)"
| hand_over: "poll_step pp (pl_poll s) (SendEvent e) p \<Longrightarrow> pl_monitor s = Selecting \<Longrightarrow>
     pipe_step pp addrs s (s\<lparr>pl_poll := p, pl_monitor := Saving e\<rparr>)"
| monitor_cancel: "pl_monitor s = Selecting \<Longrightarrow> pl_cancelled s \<Longrightarrow>
     pipe_step pp addrs s (s\<lparr>pl_monitor := MonitorReturned (Err context_canceled)\<rparr>)"
| monitor_closed: "pl_monitor s = Selecting \<Longrightarrow> ps_pc (pl_poll s) = Returned \<Longrightarrow>
     pipe_step pp addrs s (s\<lparr>pl_monitor := MonitorReturned (Val ())\<rparr>)"
| save_ok: "pl_monitor s = Saving e \<Longrightarrow>
     pipe_step pp addrs s (s\<lparr>pl_monitor := Publishing e,
        pl_saved := pl_saved s @ [(param addrs (ev_address e), e)]\<rparr>)"
| save_err: "pl_monitor s = Saving e \<Longrightarrow>
     pipe_step pp addrs s (s\<lparr>pl_monitor := MonitorReturned (Err x)\<rparr>)"
| publish_ok: "pl_monitor s = Publishing e \<Longrightarrow>
     pipe_step pp addrs s (s\<lparr>pl_monitor := Selecting, pl_published := pl_published s @ [e]\<rparr>)"
| publish_err: "pl_monitor s = Publishing e \<Longrightarrow>
     pipe_step pp addrs s (s\<lparr>pl_monitor := MonitorReturned (Err x)\<rparr>)"

inductive pipe_steps ::
  "'tx poll_params \<Rightarrow> (address \<times> string) list \<Rightarrow> 'tx pipeline \<Rightarrow> 'tx pipeline \<Rightarrow> bool"
  for pp addrs where
  pipe_refl: "pipe_steps pp addrs s s"
| pipe_more: "pipe_steps pp addrs s t \<Longrightarrow> pipe_step pp addrs t u \<Longrightarrow> pipe_steps pp addrs s u"

text \<open>A monitored chain from the start of its watch.\<close>

definition monitor_params ::
  "'tx evm_lib \<Rightarrow> chain_id \<Rightarrow> int \<Rightarrow> bool \<Rightarrow> (address list \<Rightarrow> address list) \<Rightarrow> (address \<times> string) list \<Rightarrow> 'tx poll_params" where
  "monitor_params lib chain sg cursor_on ord addrs =
     \<lparr>pp_lib = lib, pp_chain = chain, pp_signer = sg,
      pp_watched = build_watched lib (addr_list ord addrs), pp_cursor_on = cursor_on\<rparr>"

section \<open>The watched map\<close>

lemma watched_addresses_snoc:
  "watched_addresses chain (ws @ [w]) =
     (case wallet_account w chain of
        Some acc \<Rightarrow> AList.update (acc_address acc) (w_id w) (watched_addresses chain ws)
      | None \<Rightarrow> watched_addresses chain ws)"
  unfolding watched_addresses_def by simp

lemma watched_addresses_owner:
  "map_of (watched_addresses chain ws) addr = Some i \<Longrightarrow>
     \<exists>w \<in> set ws. \<exists>acc. w_id w = i \<and> wallet_account w chain = Some acc \<and> acc_address acc = addr"
  by (induction ws rule: rev_induct)
    (auto simp: watched_addresses_snoc update_conv' watched_addresses_def split: option.splits if_splits)

lemma watched_addresses_complete:
  assumes "w \<in> set ws" and "wallet_account w chain = Some acc"
  shows "\<exists>i. map_of (watched_addresses chain ws) (acc_address acc) = Some i"
  using assms
  by (induction ws rule: rev_induct)
    (auto simp: watched_addresses_snoc update_conv' split: option.splits)

section \<open>Nothing is skipped on the way\<close>

definition in_hand :: "monitor_pc \<Rightarrow> tx_event list \<Rightarrow> bool" where
  "in_hand m es \<longleftrightarrow> (case m of
      Saving e \<Rightarrow> es = [e] | MonitorReturned r \<Rightarrow> length es \<le> 1 | _ \<Rightarrow> es = [])"

definition half_done :: "monitor_pc \<Rightarrow> tx_event list \<Rightarrow> bool" where
  "half_done m es \<longleftrightarrow> (case m of
      Publishing e \<Rightarrow> es = [e] | MonitorReturned r \<Rightarrow> length es \<le> 1 | _ \<Rightarrow> es = [])"

definition pipe_inv ::
  "'tx poll_params \<Rightarrow> (address \<times> string) list \<Rightarrow> 64 word \<Rightarrow> 64 word option \<Rightarrow> 'tx pipeline \<Rightarrow> bool" where
  "pipe_inv pp addrs start cur s \<longleftrightarrow>
     poll_inv pp start cur (pl_poll s) \<and>
     (\<exists>a. in_hand (pl_monitor s) a \<and> ps_sent (pl_poll s) = map snd (pl_saved s) @ a) \<and>
     (\<exists>b. half_done (pl_monitor s) b \<and> map snd (pl_saved s) = pl_published s @ b) \<and>
     (\<forall>(i, e) \<in> set (pl_saved s). i = param addrs (ev_address e))"

lemma poll_step_sent: "poll_step pp s l t \<Longrightarrow> \<not> is_send l \<Longrightarrow> ps_sent t = ps_sent s"
  by (induction rule: poll_step.induct) auto

lemma poll_send_sent: "poll_step pp s (SendEvent e) t \<Longrightarrow> ps_sent t = ps_sent s @ [e]"
  by (erule poll_send_cases) auto

lemma pipe_inv_init: "pipe_inv pp addrs start cur (pipe_init start cur)"
  by (simp add: pipe_inv_def pipe_init_def poll_inv_init in_hand_def half_done_def)
    (simp add: poll_init_def)

lemma pipe_inv_step:
  assumes "pipe_step pp addrs s t" and "pipe_inv pp addrs start cur s"
  shows "pipe_inv pp addrs start cur t"
  using assms
proof (induction rule: pipe_step.induct)
  case (watcher_step s l p)
  then show ?case
    using poll_inv_step[OF watcher_step(1)] poll_step_sent[OF watcher_step(1,2)]
    by (auto simp: pipe_inv_def)
next
  case (hand_over s e p)
  then show ?case
    using poll_inv_step[OF hand_over(1)] poll_send_sent[OF hand_over(1)]
    by (auto simp: pipe_inv_def in_hand_def half_done_def)
qed (auto simp: pipe_inv_def in_hand_def half_done_def)

lemma pipe_steps_inv:
  "pipe_steps pp addrs s t \<Longrightarrow> pipe_inv pp addrs start cur s \<Longrightarrow> pipe_inv pp addrs start cur t"
  by (induction rule: pipe_steps.induct) (auto intro: pipe_inv_step)

lemma pipe_reach_inv: "pipe_steps pp addrs (pipe_init start cur) s \<Longrightarrow> pipe_inv pp addrs start cur s"
  by (erule pipe_steps_inv) (rule pipe_inv_init)

text \<open>
  C8. Events go through the pipeline in order and none is skipped: what has been saved is what the
  watcher sent, except possibly the last event; what has been published is what has been saved,
  again except possibly the last; and an event is always saved before it is published.
\<close>

theorem pipeline_in_order:
  assumes "pipe_steps pp addrs (pipe_init start cur) s"
  shows "\<exists>a b. ps_sent (pl_poll s) = map snd (pl_saved s) @ a \<and> length a \<le> 1 \<and>
           map snd (pl_saved s) = pl_published s @ b \<and> length b \<le> 1 \<and>
           (pl_monitor s = Selecting \<longrightarrow> a = [] \<and> b = [])"
  using pipe_reach_inv[OF assms]
  by (auto simp: pipe_inv_def in_hand_def half_done_def split: monitor_pc.splits)

lemma sent_addresses:
  assumes "poll_step pp s (SendEvent e) t" and "poll_inv pp start cur s"
  shows "\<exists>n b. e \<in> set (block_events pp n b)"
proof -
  from assms(1) obtain n tip b es where pc: "ps_pc s = Sending n tip b (e # es)"
    by (auto elim: poll_send_cases)
  with assms(2) obtain part where "part @ e # es = block_events pp n b"
    by (auto simp: poll_inv_def sent_part_def)
  then have "e \<in> set (block_events pp n b)" by (metis in_set_conv_decomp)
  then show ?thesis by blast
qed

lemma block_events_address:
  assumes "e \<in> set (block_events (monitor_params lib chain sg con ord addrs) n b)"
  shows "ev_address e \<in> fst ` set addrs \<and> ev_chain e = chain"
proof -
  from assms have m: "e \<in> set (match_transactions lib chain sg (blk_txs b) n (blk_time b)
      (build_watched lib (addr_list ord addrs)))"
    by (simp add: block_events_def monitor_params_def)
  then obtain k where "build_watched lib (addr_list ord addrs) k = Some (ev_address e)"
    unfolding match_transactions_mem by (auto simp: outbound_event_def inbound_event_def mk_tx_event_def)
  from build_watched_Some[OF this] have "ev_address e \<in> set (addr_list ord addrs)" by simp
  moreover from m have "ev_chain e = chain"
    unfolding match_transactions_mem by (auto simp: outbound_event_def inbound_event_def mk_tx_event_def)
  ultimately show ?thesis by (simp add: addr_list_def)
qed

lemma saved_are_block_events:
  assumes "pipe_steps pp addrs (pipe_init start cur) s"
  shows "(\<forall>(i, e) \<in> set (pl_saved s). \<exists>n b. e \<in> set (block_events pp n b)) \<and>
         (\<forall>e. pl_monitor s = Saving e \<longrightarrow> (\<exists>n b. e \<in> set (block_events pp n b)))"
  using assms
proof (induction "pipe_init start cur :: 'a pipeline" s rule: pipe_steps.induct)
  case pipe_refl
  then show ?case by (simp add: pipe_init_def)
next
  case (pipe_more t u)
  have inv: "poll_inv pp start cur (pl_poll t)"
    using pipe_reach_inv[OF pipe_more(1)] by (simp add: pipe_inv_def)
  from pipe_more(3) show ?case
  proof (cases rule: pipe_step.cases)
    case (hand_over e p)
    then show ?thesis using pipe_more(2) sent_addresses[OF hand_over(2) inv] by auto
  qed (use pipe_more(2) in auto)
qed

text \<open>
  Every event that is saved is filed under a wallet that exists in the list monitoring started
  from and whose account on that chain has the event's address: the \<open>addrs[evt.Address]\<close> lookup
  never misses.
\<close>

lemma saved_under_owner:
  assumes "addrs = watched_addresses chain wallets"
    and "pipe_steps (monitor_params lib chain sg con ord addrs) addrs (pipe_init start cur) s"
    and "(i, e) \<in> set (pl_saved s)"
  shows "\<exists>w \<in> set wallets. \<exists>acc. w_id w = i \<and> wallet_account w chain = Some acc \<and>
           acc_address acc = ev_address e \<and> ev_chain e = chain"
proof -
  from saved_are_block_events[OF assms(2)] assms(3) obtain n b where
    "e \<in> set (block_events (monitor_params lib chain sg con ord addrs) n b)" by blast
  from block_events_address[OF this] have e: "ev_address e \<in> fst ` set addrs" "ev_chain e = chain"
    by simp_all
  from pipe_reach_inv[OF assms(2)] assms(3) have "i = param addrs (ev_address e)"
    by (auto simp: pipe_inv_def)
  moreover from e(1) obtain j where "map_of addrs (ev_address e) = Some j"
    by (metis map_of_eq_None_iff option.exhaust)
  ultimately have "map_of (watched_addresses chain wallets) (ev_address e) = Some i"
    by (simp add: param_def assms(1))
  from watched_addresses_owner[OF this] e(2) show ?thesis by blast
qed

section \<open>The cursor and the events\<close>

text \<open>
  C7. How far the saved cursor can be ahead of the saved events: once it has moved, every event of
  the blocks up to it has been saved, except possibly one; and while the monitor waits or
  publishes, that one is saved too.
\<close>

theorem cursor_ahead_by_one:
  assumes "pipe_steps pp addrs (pipe_init start cur) s"
    and "ps_cursor (pl_poll s) = Some h" and "ps_cursor (pl_poll s) \<noteq> cur"
  shows "\<exists>k < length (ps_scanned (pl_poll s)). h = start + 1 + of_nat k \<and>
           (\<exists>rest a. map snd (pl_saved s) @ a = all_events pp (take (Suc k) (ps_scanned (pl_poll s))) @ rest \<and>
              length a \<le> 1 \<and> (pl_monitor s = Selecting \<or> (\<exists>e. pl_monitor s = Publishing e) \<longrightarrow> a = []))"
proof -
  from pipe_reach_inv[OF assms(1)] have inv: "poll_inv pp start cur (pl_poll s)"
    and sent: "\<exists>a. in_hand (pl_monitor s) a \<and> ps_sent (pl_poll s) = map snd (pl_saved s) @ a"
    by (auto simp: pipe_inv_def)
  from poll_inv_cursor[OF inv assms(2,3)] obtain k rest where
    "k < length (ps_scanned (pl_poll s))" "h = start + 1 + of_nat k"
    "ps_sent (pl_poll s) = all_events pp (take (Suc k) (ps_scanned (pl_poll s))) @ rest"
    by blast
  moreover from sent obtain a where "in_hand (pl_monitor s) a"
    "ps_sent (pl_poll s) = map snd (pl_saved s) @ a" by blast
  then have "length a \<le> 1 \<and> (pl_monitor s = Selecting \<or> (\<exists>e. pl_monitor s = Publishing e) \<longrightarrow> a = [])"
    by (auto simp: in_hand_def split: monitor_pc.splits)
  ultimately show ?thesis using \<open>ps_sent (pl_poll s) = map snd (pl_saved s) @ a\<close> by metis
qed

lemma pipe_step_stopped:
  assumes "pipe_step pp addrs s t" and "pl_monitor s = MonitorReturned r"
  shows "pl_monitor t = MonitorReturned r \<and> pl_saved t = pl_saved s \<and>
         pl_published t = pl_published s \<and> ps_sent (pl_poll t) = ps_sent (pl_poll s)"
  using assms by (induction rule: pipe_step.induct) (auto simp: poll_step_sent)

lemma pipe_steps_stopped:
  assumes "pipe_steps pp addrs s t" and "pl_monitor s = MonitorReturned r"
  shows "pl_monitor t = MonitorReturned r \<and> pl_saved t = pl_saved s \<and>
         pl_published t = pl_published s \<and> ps_sent (pl_poll t) = ps_sent (pl_poll s)"
  using assms by (induction rule: pipe_steps.induct) (auto dest: pipe_step_stopped)

text \<open>
  C25. A failed save or publish ends the monitoring of the chain. When the monitor leaves the save of
  an event without having saved it, or the publish without having published it, it has returned with
  an error; and in every run from there it stays so, nothing is saved or published any more, and the
  watcher, which is left running, hands over nothing more.
\<close>

theorem failure_ends_monitoring:
  assumes "pl_monitor s = Saving e \<and> pl_saved u = pl_saved s \<or> pl_monitor s = Publishing e \<and> pl_published u = pl_published s"
    and "pipe_step pp addrs s u" and "pl_monitor u \<noteq> pl_monitor s" and "pipe_steps pp addrs u t"
  shows "\<exists>x. pl_monitor u = MonitorReturned (Err x) \<and> pl_monitor t = MonitorReturned (Err x) \<and>
           pl_saved t = pl_saved s \<and> pl_published t = pl_published s \<and> ps_sent (pl_poll t) = ps_sent (pl_poll s)"
proof -
  from assms(2,1,3) obtain x where "pl_monitor u = MonitorReturned (Err x)"
    "pl_saved u = pl_saved s" "pl_published u = pl_published s" "pl_poll u = pl_poll s"
    by (cases rule: pipe_step.cases) auto
  with pipe_steps_stopped[OF assms(4)] show ?thesis by metis
qed

section \<open>A concrete run, and an event that is lost\<close>

text \<open>
  A wallet with address \<open>b\<close> on Base is watched from block 5; block 6 pays it, the watcher hands
  the event over and goes on to save the cursor.
\<close>

definition sample_wallet :: wallet where
  "sample_wallet = \<lparr>w_id = ''w1'', w_label = ''l'', w_created = 0,
     w_accounts = [\<lparr>acc_chain = ChainBase, acc_address = ''b'', acc_path = []\<rparr>]\<rparr>"

definition sample_addrs :: "(address \<times> string) list" where
  "sample_addrs = watched_addresses ChainBase [sample_wallet]"

definition sample_pipeline :: "monitor_pc \<Rightarrow> (string \<times> tx_event) list \<Rightarrow> tx_event list \<Rightarrow>
    (dynamic_fee_tx \<times> bytes option) pipeline" where
  "sample_pipeline m saved published =
     \<lparr>pl_poll = sample_polled, pl_monitor = m, pl_cancelled = False, pl_saved = saved, pl_published = published\<rparr>"

lemma sample_addrs_eq: "sample_addrs = [(''b'', ''w1'')]"
  by (simp add: sample_addrs_def watched_addresses_def sample_wallet_def wallet_account_def)

lemma sample_params: "monitor_params sample_evm_lib ChainBase 8453 True (\<lambda>xs. xs) sample_addrs = sample_poll"
  by (simp add: monitor_params_def sample_poll_def addr_list_def visit_def sample_addrs_eq)

lemma sample_address [simp]: "ev_address sample_event = ''b''"
  by (simp add: sample_event_def mk_tx_event_def)

lemma pipe_stepI: "pipe_steps pp addrs s t \<Longrightarrow> pipe_step pp addrs t u \<Longrightarrow> u = v \<Longrightarrow> pipe_steps pp addrs s v"
  by (auto intro: pipe_more)

lemma sample_handed_over:
  "pipe_steps sample_poll sample_addrs (pipe_init 5 (Some 5)) (sample_pipeline (Saving sample_event) [] [])"
proof -
  let ?s0 = "poll_init 5 (Some 5)"
  let ?s1 = "?s0\<lparr>ps_pc := Scanning 6 6\<rparr>"
  let ?s2 = "?s0\<lparr>ps_pc := Sending 6 6 sample_block [sample_event]\<rparr>"
  let ?s3 = "?s0\<lparr>ps_pc := Sending 6 6 sample_block [], ps_sent := [sample_event]\<rparr>"
  let ?p = "pipe_init 5 (Some 5) :: (dynamic_fee_tx \<times> bytes option) pipeline"
  have tick: "poll_step sample_poll ?s0 (Tick (Val 6)) ?s1"
    using poll_step.tick[of ?s0 sample_poll 6] by (simp add: poll_init_def)
  have fetch: "poll_step sample_poll ?s1 (Fetch 6 (Val sample_block)) ?s2"
    using poll_step.fetch[of ?s1 6 6 sample_poll sample_block] by (simp add: sample_block_events)
  have send: "poll_step sample_poll ?s2 (SendEvent sample_event) ?s3"
    using poll_step.send[of ?s2 6 6 sample_block sample_event "[]" sample_poll]
    by (simp add: poll_init_def)
  have fin: "poll_step sample_poll ?s3 (BlockDone 6 True) sample_polled"
    using poll_step.block_done[of ?s3 6 6 sample_block sample_poll True]
    by (simp add: poll_init_def sample_polled_def sample_poll_def)
  let ?q = "\<lambda>p m. ?p\<lparr>pl_poll := p, pl_monitor := m\<rparr>"
  have "pipe_steps sample_poll sample_addrs ?p (?q ?s0 Selecting)"
    using pipe_refl[of sample_poll sample_addrs ?p] by (simp add: pipe_init_def)
  then have "pipe_steps sample_poll sample_addrs ?p (?q ?s1 Selecting)"
    by (rule pipe_stepI[OF _ watcher_step[where s = "?q ?s0 Selecting" and p = ?s1 and l = "Tick (Val 6)"]])
      (use tick in simp_all)
  then have "pipe_steps sample_poll sample_addrs ?p (?q ?s2 Selecting)"
    by (rule pipe_stepI[OF _ watcher_step[where s = "?q ?s1 Selecting" and p = ?s2
          and l = "Fetch 6 (Val sample_block)"]]) (use fetch in simp_all)
  then have "pipe_steps sample_poll sample_addrs ?p (?q ?s3 (Saving sample_event))"
    by (rule pipe_stepI[OF _ hand_over[where s = "?q ?s2 Selecting" and p = ?s3
          and e = sample_event]]) (use send in simp_all)
  then show ?thesis
    by (rule pipe_stepI[OF _ watcher_step[where s = "?q ?s3 (Saving sample_event)" and p = sample_polled
          and l = "BlockDone 6 True"]])
      (use fin in \<open>simp_all add: pipe_init_def sample_pipeline_def\<close>)
qed

lemma sample_save_failed:
  "pipe_steps sample_poll sample_addrs (pipe_init 5 (Some 5))
     (sample_pipeline (MonitorReturned (Err (Foreign ''connection refused''))) [] [])"
  by (rule pipe_stepI[OF sample_handed_over save_err[where e = sample_event]]) (simp_all add: sample_pipeline_def)

lemma sample_saved:
  "pipe_steps sample_poll sample_addrs (pipe_init 5 (Some 5))
     (sample_pipeline (Publishing sample_event) [(''w1'', sample_event)] [])"
  by (rule pipe_stepI[OF sample_handed_over save_ok[where e = sample_event]])
    (simp_all add: sample_pipeline_def sample_addrs_eq param_def)

text \<open>
  C24. An event can be lost for good: the watcher saves the cursor once the last event of a block
  has been taken from it, not once it has been saved. When that save fails (or the process stops
  before it), block 6 is behind the cursor with its event unsaved, monitoring of the chain has
  ended, and the next start resumes at block 7.
\<close>

theorem event_lost_behind_cursor:
  "\<exists>s. pipe_steps (monitor_params sample_evm_lib ChainBase 8453 True (\<lambda>xs. xs) sample_addrs) sample_addrs
          (pipe_init 5 (Some 5)) s \<and>
       ps_scanned (pl_poll s) = [(6, sample_block)] \<and>
       block_events sample_poll 6 sample_block = [sample_event] \<and>
       pl_saved s = [] \<and> (\<exists>e. pl_monitor s = MonitorReturned (Err e)) \<and>
       ps_cursor (pl_poll s) = Some 6 \<and>
       watch_from sample_watcher (ps_cursor (pl_poll s)) = (Val 6, Some 6)"
proof (intro exI conjI)
  show "pipe_steps (monitor_params sample_evm_lib ChainBase 8453 True (\<lambda>xs. xs) sample_addrs) sample_addrs
      (pipe_init 5 (Some 5)) (sample_pipeline (MonitorReturned (Err (Foreign ''connection refused''))) [] [])"
    unfolding sample_params by (rule sample_save_failed)
  show "watch_from sample_watcher (ps_cursor (pl_poll (sample_pipeline
      (MonitorReturned (Err (Foreign ''connection refused''))) [] []))) = (Val 6, Some 6)"
    by (simp add: watch_from_def sample_watcher_def sample_pipeline_def sample_polled_def
        io_bind_def io_wrap_def io_try_def)
qed (simp_all add: sample_pipeline_def sample_polled_def sample_block_events)

theorem pipeline_in_order_witness:
  "\<exists>b. map snd [(''w1'', sample_event)] = [] @ b \<and> length b \<le> 1"
  using pipeline_in_order[OF sample_saved] by (auto simp: sample_pipeline_def)

theorem cursor_ahead_by_one_witness:
  "\<exists>k < 1. (6 :: 64 word) = 5 + 1 + of_nat k \<and>
     (\<exists>rest a. a @ [] = all_events sample_poll (take (Suc k) [(6, sample_block)]) @ rest \<and> length a \<le> 1)"
  using cursor_ahead_by_one[OF sample_save_failed, of 6]
  by (auto simp: sample_pipeline_def sample_polled_def)

theorem failure_ends_monitoring_witness:
  "\<exists>x. pl_monitor (sample_pipeline (MonitorReturned (Err (Foreign ''connection refused''))) [] []
     \<lparr>pl_cancelled := True\<rparr>) = MonitorReturned (Err x)"
proof -
  let ?s = "sample_pipeline (Saving sample_event) [] []"
  let ?u = "sample_pipeline (MonitorReturned (Err (Foreign ''connection refused''))) [] []"
  have "pipe_step sample_poll sample_addrs ?s (?s\<lparr>pl_monitor := MonitorReturned (Err (Foreign ''connection refused''))\<rparr>)"
    by (rule save_err[where e = sample_event]) (simp add: sample_pipeline_def)
  then have failed: "pipe_step sample_poll sample_addrs ?s ?u"
    by (simp add: sample_pipeline_def)
  have on: "pipe_steps sample_poll sample_addrs ?u (?u\<lparr>pl_cancelled := True\<rparr>)"
    by (rule pipe_more[OF pipe_refl ctx_cancel])
  have "pl_monitor ?s = Saving sample_event \<and> pl_saved ?u = pl_saved ?s \<or>
      pl_monitor ?s = Publishing sample_event \<and> pl_published ?u = pl_published ?s" "pl_monitor ?u \<noteq> pl_monitor ?s"
    by (simp_all add: sample_pipeline_def)
  from failure_ends_monitoring[OF this(1) failed this(2) on] show ?thesis by blast
qed

end
