(* ===== verification/Database.thy ===== *)
theory Database
  imports Ports
begin

text \<open>
  The database as the repositories use it: the tables and constraints of \<^verbatim>\<open>db/schema.sql\<close>, the
  SQL statements that appear in the Go sources, and the interface of the connection pool. The
  statements are translated to functions on the tables; the server and the driver are a record
  of operations of which the locale \<open>postgres\<close> states what is relied on: a statement that
  reports success has had its effect, a transaction's effects become visible at a successful
  commit, and an error at commit leaves all of them or none. The laws are about a caller that
  nobody else writes beside. \<open>serial_pool\<close> is an engine that satisfies them, with every call
  able to fail, before or after its effect.
\<close>

section \<open>Tables\<close>

record wallet_row =
  wlr_id :: string
  wlr_label :: string
  wlr_created :: time

record account_row =
  acr_wallet :: string
  acr_chain :: string
  acr_address :: string
  acr_path :: string

record keystore_row =
  ksr_wallet :: string
  ksr_salt :: bytes
  ksr_nonce :: bytes
  ksr_ciphertext :: bytes

record cursor_row =
  cur_chain :: string
  cur_height :: int
  cur_block_hash :: "string option"
  cur_updated :: time

record tx_row =
  trow_id :: int
  trow_chain :: string
  trow_hash :: string
  trow_status :: string
  trow_from :: "string option"
  trow_to :: "string option"
  trow_amount :: int
  trow_symbol :: string
  trow_fee :: "int option"
  trow_height :: "int option"
  trow_block_hash :: "string option"
  trow_observed :: time
  trow_confirmed :: "time option"

record link_row =
  lnk_tx :: int
  lnk_wallet :: string
  lnk_chain :: string
  lnk_address :: string
  lnk_role :: string

record tables =
  tb_wallets :: "wallet_row list"
  tb_accounts :: "account_row list"
  tb_keystore :: "keystore_row list"
  tb_cursors :: "cursor_row list"
  tb_transactions :: "tx_row list"
  tb_links :: "link_row list"

definition no_tables :: tables where
  "no_tables = \<lparr>tb_wallets = [], tb_accounts = [], tb_keystore = [], tb_cursors = [],
     tb_transactions = [], tb_links = []\<rparr>"

text \<open>Primary keys, unique indexes, foreign keys, checks and column ranges of the schema.\<close>

definition wallets_ok :: "tables \<Rightarrow> bool" where
  "wallets_ok T \<longleftrightarrow> distinct (map wlr_id (tb_wallets T))"

definition accounts_ok :: "tables \<Rightarrow> bool" where
  "accounts_ok T \<longleftrightarrow>
     distinct (map (\<lambda>a. (acr_wallet a, acr_chain a)) (tb_accounts T)) \<and>
     distinct (map (\<lambda>a. (acr_chain a, acr_address a)) (tb_accounts T)) \<and>
     (\<forall>a \<in> set (tb_accounts T). acr_wallet a \<in> wlr_id ` set (tb_wallets T))"

definition keystore_ok :: "tables \<Rightarrow> bool" where
  "keystore_ok T \<longleftrightarrow> distinct (map ksr_wallet (tb_keystore T)) \<and>
     (\<forall>k \<in> set (tb_keystore T). ksr_wallet k \<in> wlr_id ` set (tb_wallets T))"

definition bigint :: "int \<Rightarrow> bool" where
  "bigint x \<longleftrightarrow> - (2 ^ 63) \<le> x \<and> x < 2 ^ 63"

definition cursors_ok :: "tables \<Rightarrow> bool" where
  "cursors_ok T \<longleftrightarrow> distinct (map cur_chain (tb_cursors T)) \<and>
     (\<forall>c \<in> set (tb_cursors T). bigint (cur_height c))"

definition transactions_ok :: "tables \<Rightarrow> bool" where
  "transactions_ok T \<longleftrightarrow> distinct (map trow_id (tb_transactions T)) \<and>
     distinct (map (\<lambda>r. (trow_chain r, trow_hash r)) (tb_transactions T)) \<and>
     (\<forall>r \<in> set (tb_transactions T). trow_status r \<in> {TxPending, TxConfirmed, TxFailed, TxUnknown} \<and>
        \<bar>trow_amount r\<bar> < 10 ^ 78 \<and> (case trow_fee r of None \<Rightarrow> True | Some f \<Rightarrow> \<bar>f\<bar> < 10 ^ 78) \<and>
        (case trow_height r of None \<Rightarrow> True | Some h \<Rightarrow> bigint h))"

definition RoleSender :: string where "RoleSender = ''sender''"
definition RoleReceiver :: string where "RoleReceiver = ''receiver''"

definition links_ok :: "tables \<Rightarrow> bool" where
  "links_ok T \<longleftrightarrow>
     distinct (map (\<lambda>l. (lnk_tx l, lnk_address l, lnk_role l)) (tb_links T)) \<and>
     (\<forall>l \<in> set (tb_links T). lnk_tx l \<in> trow_id ` set (tb_transactions T) \<and>
        lnk_wallet l \<in> wlr_id ` set (tb_wallets T) \<and> lnk_role l \<in> {RoleSender, RoleReceiver})"

definition schema_ok :: "tables \<Rightarrow> bool" where
  "schema_ok T \<longleftrightarrow> wallets_ok T \<and> accounts_ok T \<and> keystore_ok T \<and> cursors_ok T \<and>
     transactions_ok T \<and> links_ok T"

lemmas schema_defs = schema_ok_def wallets_ok_def accounts_ok_def keystore_ok_def cursors_ok_def
  transactions_ok_def links_ok_def

lemma schema_no_tables: "schema_ok no_tables"
  by (simp add: schema_defs no_tables_def)

section \<open>Statements\<close>

text \<open>
  One constructor per \<open>INSERT\<close> of the sources, with the arguments it is given. The amount of a
  transaction is passed as text and parsed by the server.
\<close>

datatype stmt =
    UpsertWallet string string time
  | UpsertAccount string string string string
  | UpsertKeystore string bytes bytes bytes
  | UpsertCursor string int
  | UpsertTransaction string string string "string option" "string option" string string "int option"
  | InsertLink int string string string string

text \<open>\<open>NOW()\<close> and the value the sequence of \<open>transactions.id\<close> would give.\<close>

record stmt_env =
  se_now :: time
  se_next_id :: int

text \<open>\<open>TIMESTAMPTZ\<close> keeps microseconds.\<close>

definition timestamptz :: "time \<Rightarrow> time" where
  "timestamptz t = t div 1000 * 1000"

definition upsert_wallet :: "string \<Rightarrow> string \<Rightarrow> time \<Rightarrow> tables \<Rightarrow> tables" where
  "upsert_wallet i label created T =
     T\<lparr>tb_wallets := upsert (\<lambda>r. wlr_id r = i) (\<lambda>r. r\<lparr>wlr_label := label\<rparr>)
        \<lparr>wlr_id = i, wlr_label = label, wlr_created = timestamptz created\<rparr> (tb_wallets T)\<rparr>"

definition upsert_account :: "string \<Rightarrow> string \<Rightarrow> string \<Rightarrow> string \<Rightarrow> tables \<Rightarrow> tables" where
  "upsert_account i chain addr path T =
     T\<lparr>tb_accounts := upsert (\<lambda>r. acr_wallet r = i \<and> acr_chain r = chain)
        (\<lambda>r. r\<lparr>acr_address := addr, acr_path := path\<rparr>)
        \<lparr>acr_wallet = i, acr_chain = chain, acr_address = addr, acr_path = path\<rparr> (tb_accounts T)\<rparr>"

definition upsert_keystore :: "string \<Rightarrow> bytes \<Rightarrow> bytes \<Rightarrow> bytes \<Rightarrow> tables \<Rightarrow> tables" where
  "upsert_keystore i salt nonce ct T =
     T\<lparr>tb_keystore := upsert (\<lambda>r. ksr_wallet r = i)
        (\<lambda>r. r\<lparr>ksr_salt := salt, ksr_nonce := nonce, ksr_ciphertext := ct\<rparr>)
        \<lparr>ksr_wallet = i, ksr_salt = salt, ksr_nonce = nonce, ksr_ciphertext = ct\<rparr> (tb_keystore T)\<rparr>"

definition upsert_cursor :: "stmt_env \<Rightarrow> string \<Rightarrow> int \<Rightarrow> tables \<Rightarrow> tables" where
  "upsert_cursor env chain h T =
     T\<lparr>tb_cursors := upsert (\<lambda>r. cur_chain r = chain)
        (\<lambda>r. r\<lparr>cur_height := h, cur_updated := se_now env\<rparr>)
        \<lparr>cur_chain = chain, cur_height = h, cur_block_hash = None, cur_updated = se_now env\<rparr> (tb_cursors T)\<rparr>"

definition confirmed_at :: "stmt_env \<Rightarrow> string \<Rightarrow> time option" where
  "confirmed_at env status = (if status = ''confirmed'' then Some (se_now env) else None)"

definition new_tx_row ::
  "stmt_env \<Rightarrow> string \<Rightarrow> string \<Rightarrow> string \<Rightarrow> string option \<Rightarrow> string option \<Rightarrow> int \<Rightarrow> string \<Rightarrow> int option \<Rightarrow> tx_row" where
  "new_tx_row env chain hash status from_a to_a amount name height =
     \<lparr>trow_id = se_next_id env, trow_chain = chain, trow_hash = hash, trow_status = status,
      trow_from = from_a, trow_to = to_a, trow_amount = amount, trow_symbol = name, trow_fee = None,
      trow_height = height, trow_block_hash = None, trow_observed = se_now env, trow_confirmed = confirmed_at env status\<rparr>"

definition upsert_transaction ::
  "stmt_env \<Rightarrow> string \<Rightarrow> string \<Rightarrow> string \<Rightarrow> string option \<Rightarrow> string option \<Rightarrow> int \<Rightarrow> string \<Rightarrow> int option \<Rightarrow> tables \<Rightarrow> tables" where
  "upsert_transaction env chain hash status from_a to_a amount name height T =
     T\<lparr>tb_transactions := upsert (\<lambda>r. (trow_chain r, trow_hash r) = (chain, hash))
        (\<lambda>r. r\<lparr>trow_status := status, trow_height := height, trow_confirmed := confirmed_at env status\<rparr>)
        (new_tx_row env chain hash status from_a to_a amount name height) (tb_transactions T)\<rparr>"

definition find_tx :: "string \<Rightarrow> string \<Rightarrow> tables \<Rightarrow> tx_row option" where
  "find_tx chain hash T = find (\<lambda>r. (trow_chain r, trow_hash r) = (chain, hash)) (tb_transactions T)"

definition insert_link :: "int \<Rightarrow> string \<Rightarrow> string \<Rightarrow> string \<Rightarrow> string \<Rightarrow> tables \<Rightarrow> tables" where
  "insert_link i wallet chain addr role T =
     T\<lparr>tb_links := upsert (\<lambda>l. (lnk_tx l, lnk_address l, lnk_role l) = (i, addr, role)) (\<lambda>l. l)
        \<lparr>lnk_tx = i, lnk_wallet = wallet, lnk_chain = chain, lnk_address = addr, lnk_role = role\<rparr> (tb_links T)\<rparr>"

text \<open>
  The effect of a statement and the id it returns (0 where it returns none); \<open>None\<close> when the
  input does not parse or a constraint is violated.
\<close>

fun stmt_effect :: "stmt_env \<Rightarrow> stmt \<Rightarrow> tables \<Rightarrow> (tables \<times> int) option" where
  "stmt_effect env (UpsertWallet i label created) T = Some (upsert_wallet i label created T, 0)"
| "stmt_effect env (UpsertAccount i chain addr path) T = Some (upsert_account i chain addr path T, 0)"
| "stmt_effect env (UpsertKeystore i salt nonce ct) T = Some (upsert_keystore i salt nonce ct T, 0)"
| "stmt_effect env (UpsertCursor chain h) T = Some (upsert_cursor env chain h T, 0)"
| "stmt_effect env (UpsertTransaction chain hash status from_a to_a amount name height) T =
     (case set_string10 amount of
        None \<Rightarrow> None
      | Some n \<Rightarrow>
          (let T' = upsert_transaction env chain hash status from_a to_a n name height T
           in case find_tx chain hash T' of None \<Rightarrow> None | Some r \<Rightarrow> Some (T', trow_id r)))"
| "stmt_effect env (InsertLink i wallet chain addr role) T = Some (insert_link i wallet chain addr role T, 0)"

definition run_stmt :: "stmt_env \<Rightarrow> stmt \<Rightarrow> tables \<Rightarrow> (tables \<times> int) option" where
  "run_stmt env s T = (case stmt_effect env s T of
      None \<Rightarrow> None
    | Some (T', i) \<Rightarrow> if schema_ok T' then Some (T', i) else None)"

lemma run_stmt_Some: "run_stmt env s T = Some (T', i) \<longleftrightarrow> stmt_effect env s T = Some (T', i) \<and> schema_ok T'"
  by (auto simp: run_stmt_def split: option.splits prod.splits)

lemma run_stmt_schema: "run_stmt env s T = Some (T', i) \<Longrightarrow> schema_ok T'"
  by (simp add: run_stmt_Some)

text \<open>A statement after another, as in a transaction.\<close>

inductive runs :: "stmt list \<Rightarrow> tables \<Rightarrow> tables \<Rightarrow> bool" where
  runs_nil: "runs [] T T"
| runs_cons: "run_stmt env s T = Some (T1, i) \<Longrightarrow> runs ss T1 T2 \<Longrightarrow> runs (s # ss) T T2"

inductive_cases runs_consE: "runs (s # ss) T T2"
inductive_cases runs_nilE: "runs [] T T2"

lemma runs_single: "run_stmt env s T = Some (T1, i) \<Longrightarrow> runs [s] T T1"
  by (blast intro: runs_nil runs_cons)

section \<open>The connection pool\<close>

text \<open>
  A query gives rows, each of which may fail to scan, and an error that ends the iteration early.
\<close>

record 'r rows =
  rows_items :: "'r go list"
  rows_err :: "go_error option"

record ('w, 't) pool =
  pg_begin :: "('w, 't) io"
  pg_tx_exec :: "'t \<Rightarrow> stmt \<Rightarrow> ('w, int) io"
  pg_commit :: "'t \<Rightarrow> ('w, unit) io"
  pg_rollback :: "'t \<Rightarrow> ('w, unit) io"
  pg_exec :: "stmt \<Rightarrow> ('w, unit) io"
  pg_wallet_by_id :: "string \<Rightarrow> ('w, wallet_row) io"
  pg_wallets :: "('w, wallet_row rows) io"
  pg_accounts_of :: "string \<Rightarrow> ('w, account_row rows) io"
  pg_cursor_of :: "string \<Rightarrow> ('w, int) io"
  pg_keystore_of :: "string \<Rightarrow> ('w, keystore_row) io"

definition no_rows :: go_error where
  "no_rows = Foreign ''pgx.ErrNoRows''"

text \<open>What the code reads off a result set when nothing fails.\<close>

fun all_scanned :: "'r go list \<Rightarrow> 'r list option" where
  "all_scanned [] = Some []"
| "all_scanned (Val r # rs) = map_option (\<lambda>xs. r # xs) (all_scanned rs)"
| "all_scanned (_ # rs) = None"

definition rows_are :: "'r rows \<Rightarrow> 'r list \<Rightarrow> bool" where
  "rows_are rs xs \<longleftrightarrow> Panic \<notin> set (rows_items rs) \<and>
     (rows_err rs = None \<longrightarrow> (\<forall>ys. all_scanned (rows_items rs) = Some ys \<longrightarrow> mset ys = mset xs))"

lemma all_scanned_map_Val [simp]: "all_scanned (map Val xs) = Some xs"
  by (induction xs) auto

locale postgres =
  fixes pool :: "('w, 't) pool"
    and committed :: "'w \<Rightarrow> tables"
    and working :: "'w \<Rightarrow> 't \<Rightarrow> tables option"
    and inv :: "'w \<Rightarrow> bool"
  assumes schema: "inv w \<Longrightarrow> schema_ok (committed w)"
    and begin_ok:
      "\<lbrakk>inv w; pg_begin pool w = (r, w')\<rbrakk> \<Longrightarrow> inv w' \<and> committed w' = committed w \<and> r \<noteq> Panic \<and>
         (\<forall>t. r = Val t \<longrightarrow> working w' t = Some (committed w))"
    and tx_exec_ok:
      "\<lbrakk>inv w; working w t = Some T; pg_tx_exec pool t s w = (q, w')\<rbrakk> \<Longrightarrow>
         inv w' \<and> committed w' = committed w \<and> q \<noteq> Panic \<and>
         (\<forall>i. q = Val i \<longrightarrow> (\<exists>env T'. run_stmt env s T = Some (T', i) \<and> working w' t = Some T'))"
    and commit_ok:
      "\<lbrakk>inv w; working w t = Some T; pg_commit pool t w = (u, w')\<rbrakk> \<Longrightarrow>
         inv w' \<and> u \<noteq> Panic \<and> (u = Val () \<longrightarrow> committed w' = T) \<and>
         (committed w' = committed w \<or> committed w' = T)"
    and rollback_ok:
      "\<lbrakk>inv w; pg_rollback pool t w = (u, w')\<rbrakk> \<Longrightarrow> inv w' \<and> committed w' = committed w"
    and exec_ok:
      "\<lbrakk>inv w; pg_exec pool s w = (u, w')\<rbrakk> \<Longrightarrow> inv w' \<and> u \<noteq> Panic \<and>
         (u = Val () \<longrightarrow> runs [s] (committed w) (committed w')) \<and>
         (committed w' = committed w \<or> runs [s] (committed w) (committed w'))"
    and wallet_by_id_ok:
      "\<lbrakk>inv w; pg_wallet_by_id pool i w = (rw, w')\<rbrakk> \<Longrightarrow> inv w' \<and> committed w' = committed w \<and> rw \<noteq> Panic \<and>
         (\<forall>row. rw = Val row \<longrightarrow> find (\<lambda>r. wlr_id r = i) (tb_wallets (committed w)) = Some row)"
    and wallets_query_ok:
      "\<lbrakk>inv w; pg_wallets pool w = (rws, w')\<rbrakk> \<Longrightarrow> inv w' \<and> committed w' = committed w \<and> rws \<noteq> Panic \<and>
         (\<forall>rs. rws = Val rs \<longrightarrow> rows_are rs (tb_wallets (committed w)))"
    and accounts_of_ok:
      "\<lbrakk>inv w; pg_accounts_of pool i w = (ras, w')\<rbrakk> \<Longrightarrow> inv w' \<and> committed w' = committed w \<and> ras \<noteq> Panic \<and>
         (\<forall>rs. ras = Val rs \<longrightarrow> rows_are rs (filter (\<lambda>r. acr_wallet r = i) (tb_accounts (committed w))))"
    and cursor_of_ok:
      "\<lbrakk>inv w; pg_cursor_of pool c w = (rh, w')\<rbrakk> \<Longrightarrow> inv w' \<and> committed w' = committed w \<and> rh \<noteq> Panic \<and>
         (\<forall>h. rh = Val h \<longrightarrow>
            map_option cur_height (find (\<lambda>r. cur_chain r = c) (tb_cursors (committed w))) = Some h) \<and>
         (\<forall>e. rh = Err e \<longrightarrow> errors_is e no_rows \<longrightarrow>
            find (\<lambda>r. cur_chain r = c) (tb_cursors (committed w)) = None)"
    and keystore_of_ok:
      "\<lbrakk>inv w; pg_keystore_of pool i w = (rk, w')\<rbrakk> \<Longrightarrow> inv w' \<and> committed w' = committed w \<and> rk \<noteq> Panic \<and>
         (\<forall>row. rk = Val row \<longrightarrow> find (\<lambda>r. ksr_wallet r = i) (tb_keystore (committed w)) = Some row)"
begin

text \<open>Work in a transaction: the committed tables stay, and the working copy has run them all.\<close>

definition in_tx :: "'t \<Rightarrow> tables \<Rightarrow> stmt list \<Rightarrow> 'w \<Rightarrow> bool" where
  "in_tx t T ss w \<longleftrightarrow> inv w \<and> committed w = T \<and> (\<exists>W. runs ss T W \<and> working w t = Some W)"

lemma in_tx_begin:
  "inv w \<Longrightarrow> pg_begin pool w = (Val t, w') \<Longrightarrow> in_tx t (committed w) [] w'"
  using begin_ok[of w "Val t" w'] by (auto simp: in_tx_def intro: runs_nil)

end

section \<open>An engine\<close>

text \<open>
  One connection, one statement at a time. \<open>en_faults\<close> says, call by call, whether it fails and
  whether its effect has taken place by then; \<open>en_order\<close> is the order in which a query returns
  its rows. Open transactions hold a copy of the tables.
\<close>

record engine =
  en_tables :: tables
  en_open :: "(nat \<times> tables) list"
  en_next_tx :: nat
  en_next_id :: int
  en_tick :: nat
  en_faults :: "nat \<Rightarrow> (go_error \<times> bool) option"

definition en_env :: "engine \<Rightarrow> stmt_env" where
  "en_env w = \<lparr>se_now = int (en_tick w), se_next_id = en_next_id w\<rparr>"

definition en_step :: "engine \<Rightarrow> engine" where
  "en_step w = w\<lparr>en_tick := en_tick w + 1, en_next_id := en_next_id w + 1\<rparr>"

definition constraint_violation :: go_error where
  "constraint_violation = Foreign ''SQLSTATE 23''"

definition unknown_tx :: go_error where
  "unknown_tx = Foreign ''tx is closed''"

definition en_begin :: "(engine, nat) io" where
  "en_begin w = (case en_faults w (en_tick w) of
      Some (e, _) \<Rightarrow> (Err e, en_step w)
    | None \<Rightarrow> (Val (en_next_tx w), (en_step w)\<lparr>en_next_tx := en_next_tx w + 1,
        en_open := (en_next_tx w, en_tables w) # en_open w\<rparr>))"

definition en_tx_exec :: "nat \<Rightarrow> stmt \<Rightarrow> (engine, int) io" where
  "en_tx_exec t s w = (case en_faults w (en_tick w) of
      Some (e, _) \<Rightarrow> (Err e, en_step w)
    | None \<Rightarrow> (case map_of (en_open w) t of
        None \<Rightarrow> (Err unknown_tx, en_step w)
      | Some T \<Rightarrow> (case run_stmt (en_env w) s T of
          None \<Rightarrow> (Err constraint_violation, en_step w)
        | Some (T', i) \<Rightarrow> (Val i, (en_step w)\<lparr>en_open := AList.update t T' (en_open w)\<rparr>))))"

definition en_commit :: "nat \<Rightarrow> (engine, unit) io" where
  "en_commit t w = (case map_of (en_open w) t of
      None \<Rightarrow> (Err unknown_tx, en_step w)
    | Some T \<Rightarrow> (case en_faults w (en_tick w) of
        Some (e, effect) \<Rightarrow> (Err e, (en_step w)\<lparr>en_tables := (if effect then T else en_tables w),
          en_open := AList.delete t (en_open w)\<rparr>)
      | None \<Rightarrow> (Val (), (en_step w)\<lparr>en_tables := T, en_open := AList.delete t (en_open w)\<rparr>)))"

definition en_rollback :: "nat \<Rightarrow> (engine, unit) io" where
  "en_rollback t w = (Val (), (en_step w)\<lparr>en_open := AList.delete t (en_open w)\<rparr>)"

definition en_exec :: "stmt \<Rightarrow> (engine, unit) io" where
  "en_exec s w = (case run_stmt (en_env w) s (en_tables w) of
      None \<Rightarrow> (Err constraint_violation, en_step w)
    | Some (T', i) \<Rightarrow> (case en_faults w (en_tick w) of
        Some (e, effect) \<Rightarrow> (Err e, (en_step w)\<lparr>en_tables := (if effect then T' else en_tables w)\<rparr>)
      | None \<Rightarrow> (Val (), (en_step w)\<lparr>en_tables := T'\<rparr>)))"

definition en_query :: "(tables \<Rightarrow> 'a go) \<Rightarrow> (engine, 'a) io" where
  "en_query q w = (case en_faults w (en_tick w) of
      Some (e, _) \<Rightarrow> (if errors_is e no_rows then (Err constraint_violation, en_step w) else (Err e, en_step w))
    | None \<Rightarrow> (q (en_tables w), en_step w))"

definition en_rows :: "('r list \<Rightarrow> 'r list) \<Rightarrow> 'r list \<Rightarrow> 'r rows go" where
  "en_rows ord xs = Val \<lparr>rows_items = map Val (visit ord xs), rows_err = None\<rparr>"

definition serial_pool ::
  "(wallet_row list \<Rightarrow> wallet_row list) \<Rightarrow> (account_row list \<Rightarrow> account_row list) \<Rightarrow> (engine, nat) pool" where
  "serial_pool word aord =
     \<lparr>pg_begin = en_begin, pg_tx_exec = en_tx_exec, pg_commit = en_commit, pg_rollback = en_rollback,
      pg_exec = en_exec,
      pg_wallet_by_id = (\<lambda>i. en_query (\<lambda>T. of_option no_rows (find (\<lambda>r. wlr_id r = i) (tb_wallets T)))),
      pg_wallets = en_query (\<lambda>T. en_rows word (tb_wallets T)),
      pg_accounts_of = (\<lambda>i. en_query (\<lambda>T. en_rows aord (filter (\<lambda>r. acr_wallet r = i) (tb_accounts T)))),
      pg_cursor_of = (\<lambda>c. en_query (\<lambda>T. of_option no_rows
        (map_option cur_height (find (\<lambda>r. cur_chain r = c) (tb_cursors T))))),
      pg_keystore_of = (\<lambda>i. en_query (\<lambda>T. of_option no_rows (find (\<lambda>r. ksr_wallet r = i) (tb_keystore T))))\<rparr>"

definition engine_ok :: "engine \<Rightarrow> bool" where
  "engine_ok w \<longleftrightarrow> schema_ok (en_tables w) \<and> (\<forall>T \<in> snd ` set (en_open w). schema_ok T)"

definition engine_working :: "engine \<Rightarrow> nat \<Rightarrow> tables option" where
  "engine_working w t = map_of (en_open w) t"

lemma en_step_simps [simp]:
  "en_tables (en_step w) = en_tables w" "en_open (en_step w) = en_open w"
  "engine_ok (en_step w) = engine_ok w"
  by (simp_all add: en_step_def engine_ok_def)

lemma engine_open_schema: "engine_ok w \<Longrightarrow> map_of (en_open w) t = Some T \<Longrightarrow> schema_ok T"
  by (auto simp: engine_ok_def dest!: map_of_SomeD)

lemma all_update: "\<forall>x \<in> set xs. P (snd x) \<Longrightarrow> P v \<Longrightarrow> \<forall>x \<in> set (AList.update k v xs). P (snd x)"
  by (induction xs) auto

lemma all_delete: "\<forall>x \<in> set xs. P (snd x) \<Longrightarrow> \<forall>x \<in> set (AList.delete k xs). P (snd x)"
  by (induction xs) auto

lemma engine_ok_update:
  "engine_ok w \<Longrightarrow> schema_ok T \<Longrightarrow> en_open w' = AList.update t T (en_open w) \<Longrightarrow>
     en_tables w' = en_tables w \<Longrightarrow> engine_ok w'"
  using all_update[of "en_open w" schema_ok T t] by (simp add: engine_ok_def)

lemma engine_ok_delete:
  "engine_ok w \<Longrightarrow> schema_ok (en_tables w') \<Longrightarrow> en_open w' = AList.delete t (en_open w) \<Longrightarrow> engine_ok w'"
  using all_delete[of "en_open w" schema_ok t] by (simp add: engine_ok_def)

lemma engine_tables_schema: "engine_ok w \<Longrightarrow> schema_ok (en_tables w)"
  by (simp add: engine_ok_def)

lemma en_query_state: "en_query q w = (r, w') \<Longrightarrow> engine_ok w \<Longrightarrow>
    engine_ok w' \<and> en_tables w' = en_tables w"
  by (auto simp: en_query_def split: option.splits if_splits)

lemma en_query_Val: "en_query q w = (Val x, w') \<Longrightarrow> q (en_tables w) = Val x"
  by (auto simp: en_query_def split: option.splits if_splits)

lemma en_query_Panic: "en_query q w = (Panic, w') \<Longrightarrow> q (en_tables w) = Panic"
  by (auto simp: en_query_def split: option.splits if_splits)

lemma en_query_no_rows: "en_query q w = (Err e, w') \<Longrightarrow> errors_is e no_rows \<Longrightarrow> q (en_tables w) = Err e"
  by (auto simp: en_query_def constraint_violation_def no_rows_def split: option.splits if_splits)

lemma rows_are_en_rows: "en_rows ord xs = Val rs \<Longrightarrow> rows_are rs xs"
  using is_order_visit[of ord] by (auto simp: en_rows_def rows_are_def is_order_def)

interpretation engine: postgres "serial_pool word aord" en_tables engine_working engine_ok
proof (unfold_locales, goal_cases)
  case (1 w)
  then show ?case by (simp add: engine_ok_def)
next
  case (2 w r w')
  then show ?case
    by (auto simp: serial_pool_def en_begin_def engine_ok_def engine_working_def split: option.splits)
next
  case (3 w t T s q w')
  then show ?case
    by (auto simp: serial_pool_def en_tx_exec_def engine_working_def update_conv'
        split: option.splits prod.splits dest: run_stmt_schema
        intro: engine_ok_update[of w])
next
  case (4 w t T u w')
  then show ?case
    using engine_open_schema[of w t T] engine_tables_schema[of w]
      engine_ok_delete[of w w' t]
    by (auto simp: serial_pool_def en_commit_def engine_working_def
        split: option.splits prod.splits if_splits)
next
  case (5 w t u w')
  then show ?case
    using engine_tables_schema[of w] engine_ok_delete[of w w' t]
    by (auto simp: serial_pool_def en_rollback_def)
next
  case (6 w s u w')
  then show ?case
    by (auto simp: serial_pool_def en_exec_def engine_ok_def split: option.splits prod.splits if_splits
        dest: run_stmt_schema intro: runs_single)
next
  case (7 w i rw w')
  then show ?case
    by (auto simp: serial_pool_def dest: en_query_state en_query_Val en_query_Panic)
next
  case (8 w rws w')
  then show ?case
    by (auto simp: serial_pool_def dest: en_query_state en_query_Val en_query_Panic
        intro: rows_are_en_rows) (auto simp: en_rows_def dest: en_query_Panic)
next
  case (9 w i ras w')
  then show ?case
    by (auto simp: serial_pool_def dest: en_query_state en_query_Val en_query_Panic
        intro: rows_are_en_rows) (auto simp: en_rows_def dest: en_query_Panic)
next
  case (10 w c rh w')
  then show ?case
    by (auto simp: serial_pool_def dest: en_query_state en_query_Val en_query_Panic en_query_no_rows)
      (auto dest!: en_query_no_rows split: option.splits elim: of_option.elims)
next
  case (11 w i rk w')
  then show ?case
    by (auto simp: serial_pool_def dest: en_query_state en_query_Val en_query_Panic)
qed

end
