(* ===== verification/Repositories.thy ===== *)
theory Repositories
  imports Database
begin

text \<open>
  \<^verbatim>\<open>internal/adapter/repository\<close>: the wallet repository in memory and over Postgres, the scan
  cursors and the transaction repository. Both wallet repositories are shown to keep the
  contract \<open>wallet_store\<close>, the cursor repository \<open>cursor_laws\<close>; the Postgres ones for every
  pool that satisfies \<open>postgres\<close>.
\<close>

section \<open>Wallets in memory\<close>

text \<open>The lock makes each operation one step; the state is the map it guards.\<close>

type_synonym memory_wallets = "(string \<times> wallet) list"

definition mem_save :: "wallet \<Rightarrow> (memory_wallets, unit) io" where
  "mem_save w m = (Val (), AList.update (w_id w) w m)"

definition mem_get :: "string \<Rightarrow> (memory_wallets, wallet) io" where
  "mem_get i m = (of_option (Errorf ''repository: wallet %s not found'' [AStr i]) (map_of m i), m)"

definition mem_list :: "(wallet list \<Rightarrow> wallet list) \<Rightarrow> (memory_wallets, wallet list) io" where
  "mem_list ord m = (Val (visit ord (map snd m)), m)"

definition memory_repo :: "(wallet list \<Rightarrow> wallet list) \<Rightarrow> memory_wallets wallet_repo" where
  "memory_repo ord = \<lparr>wr_save = mem_save, wr_get = mem_get, wr_list = mem_list ord\<rparr>"

text \<open>The map holds each wallet under its own id.\<close>

definition mem_ok :: "memory_wallets \<Rightarrow> bool" where
  "mem_ok m \<longleftrightarrow> distinct (map fst m) \<and> (\<forall>(i, w) \<in> set m. w_id w = i)"

lemma mem_ok_values: "mem_ok m \<Longrightarrow> map w_id (map snd m) = map fst m"
  by (auto simp: mem_ok_def)

lemma mem_ok_save: "mem_ok m \<Longrightarrow> mem_ok (AList.update (w_id w) w m)"
proof -
  have "\<forall>(i, v) \<in> set m. w_id v = i \<Longrightarrow> \<forall>(i, v) \<in> set (AList.update (w_id w) w m). w_id v = i"
    by (induction m) auto
  then show "mem_ok m \<Longrightarrow> mem_ok (AList.update (w_id w) w m)" by (simp add: mem_ok_def distinct_update)
qed

interpretation memory: wallet_store "memory_repo ord" "\<lambda>m. map_of m" mem_ok
proof (unfold_locales, goal_cases)
  case (1 w x w')
  then show ?case
    by (auto simp: memory_repo_def mem_save_def update_conv' mem_ok_save intro: stored_as_refl)
next
  case (2 w i x w')
  then show ?case by (auto simp: memory_repo_def mem_get_def)
next
  case (3 w i)
  then show ?case by (simp add: memory_repo_def mem_get_def)
next
  case (4 w xs w')
  then have xs: "xs = visit ord (map snd w)" "w' = w" by (auto simp: memory_repo_def mem_list_def)
  have keys: "w_id ` snd ` set w = fst ` set w" using mem_ok_values[OF 4(1)] by (metis list.set_map)
  have "distinct (map w_id (map snd w))" unfolding mem_ok_values[OF 4(1)] using 4(1) by (simp add: mem_ok_def)
  then have "distinct (map snd w)" "inj_on w_id (set (map snd w))" unfolding distinct_map[of w_id] by blast+
  then have "distinct (map w_id xs)" by (simp add: xs distinct_map is_order_set[OF is_order_visit])
  moreover have "i \<in> w_id ` set xs \<longleftrightarrow> map_of w i \<noteq> None" for i
    using keys by (simp add: xs map_of_eq_None_iff)
  moreover have "\<exists>v. map_of w (w_id x) = Some v \<and> same_wallet v x" if "x \<in> set xs" for x
  proof -
    from that obtain i where "(i, x) \<in> set w" by (auto simp: xs)
    then have "map_of w (w_id x) = Some x" using 4(1) by (auto simp: mem_ok_def)
    then show ?thesis by simp
  qed
  ultimately show ?case using 4(1) by (auto simp: xs)
qed

section \<open>Wallets in Postgres\<close>

fun save_accounts :: "('w, 't) pool \<Rightarrow> 't \<Rightarrow> string \<Rightarrow> account list \<Rightarrow> ('w, unit) io" where
  "save_accounts pool tx i [] = io_return ()"
| "save_accounts pool tx i (acc # accs) =
     io_bind (io_wrap (Wrapf ''repository: save account %s/%s: %w'' [AStr i, AStr (acc_chain acc)])
       (pg_tx_exec pool tx (UpsertAccount i (acc_chain acc) (acc_address acc) (acc_path acc)))) (\<lambda>_.
     save_accounts pool tx i accs)"

definition pg_save :: "('w, 't) pool \<Rightarrow> wallet \<Rightarrow> ('w, unit) io" where
  "pg_save pool w =
     io_bind (io_wrap (Wrapf ''repository: begin: %w'' []) (pg_begin pool)) (\<lambda>tx.
     io_defer (pg_rollback pool tx)
       (io_bind (io_wrap (Wrapf ''repository: save wallet %s: %w'' [AStr (w_id w)])
          (pg_tx_exec pool tx (UpsertWallet (w_id w) (w_label w) (w_created w)))) (\<lambda>_.
        io_bind (save_accounts pool tx (w_id w) (w_accounts w)) (\<lambda>_.
        pg_commit pool tx))))"

definition account_of_row :: "account_row \<Rightarrow> account" where
  "account_of_row r = \<lparr>acc_chain = acr_chain r, acc_address = acr_address r, acc_path = acr_path r\<rparr>"

definition wallet_of_row :: "wallet_row \<Rightarrow> wallet" where
  "wallet_of_row r = \<lparr>w_id = wlr_id r, w_label = wlr_label r, w_created = wlr_created r, w_accounts = []\<rparr>"

text \<open>\<open>for rows.Next()\<close> with a scan per row.\<close>

fun scan_rows :: "(go_error \<Rightarrow> go_error) \<Rightarrow> ('r \<Rightarrow> 'a) \<Rightarrow> 'r go list \<Rightarrow> 'a list go" where
  "scan_rows h f [] = Val []"
| "scan_rows h f (r # rs) =
     go_bind (go_wrap h r) (\<lambda>row. go_bind (scan_rows h f rs) (\<lambda>xs. Val (f row # xs)))"

definition rows_checked :: "(go_error \<Rightarrow> go_error) \<Rightarrow> go_error option \<Rightarrow> 'a \<Rightarrow> 'a go" where
  "rows_checked h e x = (case e of None \<Rightarrow> Val x | Some err \<Rightarrow> Err (h err))"

definition accounts_for :: "('w, 't) pool \<Rightarrow> string \<Rightarrow> ('w, account list) io" where
  "accounts_for pool i =
     io_bind (io_wrap (Wrapf ''repository: list accounts for %s: %w'' [AStr i]) (pg_accounts_of pool i)) (\<lambda>rows.
     io_bind (io_lift (scan_rows (Wrapf ''repository: scan account: %w'' []) account_of_row (rows_items rows))) (\<lambda>accounts.
     io_lift (rows_checked (Wrapf ''repository: list accounts for %s: %w'' [AStr i]) (rows_err rows) accounts)))"

definition pg_get :: "('w, 't) pool \<Rightarrow> string \<Rightarrow> ('w, wallet) io" where
  "pg_get pool i =
     io_bind (io_try (pg_wallet_by_id pool i)) (\<lambda>r.
     case r of
       Inl e \<Rightarrow> (if errors_is e no_rows
                 then io_fail (Errorf ''repository: wallet %s not found'' [AStr i])
                 else io_fail (Wrapf ''repository: get wallet %s: %w'' [AStr i] e))
     | Inr row \<Rightarrow>
         io_bind (accounts_for pool i) (\<lambda>accounts.
         io_return ((wallet_of_row row)\<lparr>w_accounts := accounts\<rparr>)))"

fun fill_accounts :: "('w, 't) pool \<Rightarrow> wallet list \<Rightarrow> ('w, wallet list) io" where
  "fill_accounts pool [] = io_return []"
| "fill_accounts pool (w # ws) =
     io_bind (accounts_for pool (w_id w)) (\<lambda>accounts.
     io_bind (fill_accounts pool ws) (\<lambda>rest.
     io_return (w\<lparr>w_accounts := accounts\<rparr> # rest)))"

definition pg_list :: "('w, 't) pool \<Rightarrow> ('w, wallet list) io" where
  "pg_list pool =
     io_bind (io_wrap (Wrapf ''repository: list wallets: %w'' []) (pg_wallets pool)) (\<lambda>rows.
     io_bind (io_lift (scan_rows (Wrapf ''repository: scan wallet: %w'' []) wallet_of_row (rows_items rows))) (\<lambda>wallets.
     io_bind (io_lift (rows_checked (Wrapf ''repository: list wallets: %w'' []) (rows_err rows) wallets)) (\<lambda>wallets.
     fill_accounts pool wallets)))"

definition postgres_repo :: "('w, 't) pool \<Rightarrow> 'w wallet_repo" where
  "postgres_repo pool = \<lparr>wr_save = pg_save pool, wr_get = pg_get pool, wr_list = pg_list pool\<rparr>"

subsection \<open>Saving is all or nothing\<close>

definition account_stmt :: "string \<Rightarrow> account \<Rightarrow> stmt" where
  "account_stmt i a = UpsertAccount i (acc_chain a) (acc_address a) (acc_path a)"

definition wallet_stmts :: "wallet \<Rightarrow> stmt list" where
  "wallet_stmts w = UpsertWallet (w_id w) (w_label w) (w_created w) # map (account_stmt (w_id w)) (w_accounts w)"

lemma runs_append: "runs ss T T1 \<Longrightarrow> runs ts T1 T2 \<Longrightarrow> runs (ss @ ts) T T2"
  by (induction rule: runs.induct) (auto intro: runs_cons)

lemma runs_snoc: "runs ss T T1 \<Longrightarrow> run_stmt env s T1 = Some (T2, i) \<Longrightarrow> runs (ss @ [s]) T T2"
  by (erule runs_append) (rule runs_single)

context postgres
begin

lemma in_tx_exec:
  assumes "in_tx t T ss w" and "pg_tx_exec pool t s w = (q, w')"
  shows "inv w' \<and> committed w' = T \<and> q \<noteq> Panic \<and> (\<forall>i. q = Val i \<longrightarrow> in_tx t T (ss @ [s]) w')"
proof -
  from assms(1) obtain W where W: "inv w" "committed w = T" "runs ss T W" "working w t = Some W"
    by (auto simp: in_tx_def)
  from tx_exec_ok[OF W(1,4) assms(2)] W(2,3) show ?thesis
    by (auto simp: in_tx_def) (erule (1) runs_snoc)
qed

lemma in_tx_commit:
  assumes "in_tx t T ss w" and "pg_commit pool t w = (u, w')"
  shows "inv w' \<and> u \<noteq> Panic \<and> (u = Val () \<longrightarrow> runs ss T (committed w')) \<and>
         (committed w' = T \<or> runs ss T (committed w'))"
  using assms commit_ok[of w t _ u w'] by (auto simp: in_tx_def)

lemma in_tx_inv: "in_tx t T ss w \<Longrightarrow> inv w \<and> committed w = T"
  by (auto simp: in_tx_def)

lemma save_accounts_tx:
  assumes "in_tx t T ss w" and "save_accounts pool t i accs w = (u, w')"
  shows "inv w' \<and> committed w' = T \<and> u \<noteq> Panic \<and>
         (u = Val () \<longrightarrow> in_tx t T (ss @ map (account_stmt i) accs) w')"
  using assms
proof (induction accs arbitrary: ss w)
  case Nil
  then show ?case by (auto dest: in_tx_inv)
next
  case (Cons acc accs)
  obtain q w1 where q: "pg_tx_exec pool t (account_stmt i acc) w = (q, w1)" by fastforce
  note e = in_tx_exec[OF Cons.prems(1) q]
  show ?case
  proof (cases q)
    case (Val j)
    then have "in_tx t T (ss @ [account_stmt i acc]) w1" using e by blast
    from Cons.IH[OF this] show ?thesis
      using Cons.prems(2) q Val by (simp add: io_bind_def io_wrap_def account_stmt_def)
  next
    case (Err x)
    then show ?thesis using Cons.prems(2) q e by (auto simp: io_bind_def io_wrap_def account_stmt_def)
  qed (use e in simp)
qed

text \<open>
  A body run in a transaction that is rolled back on the way out: if the body only works in the
  transaction until its commit, its effect is all of its statements or none.
\<close>

lemma tx_body:
  assumes "inv w" and "pg_begin pool w = (Val t, w1)"
    and "\<And>v u. in_tx t (committed w) [] w1 \<Longrightarrow> body w1 = (u, v) \<Longrightarrow>
       inv v \<and> u \<noteq> Panic \<and> (u = Val () \<longrightarrow> Q (committed v)) \<and>
       (committed v = committed w \<or> Q (committed v))"
    and "io_defer (pg_rollback pool t) body w1 = (u, w')"
  shows "inv w' \<and> u \<noteq> Panic \<and> (u = Val () \<longrightarrow> Q (committed w')) \<and>
       (committed w' = committed w \<or> Q (committed w'))"
proof -
  obtain v where v: "body w1 = (u, v)" "w' = snd (pg_rollback pool t v)"
    using assms(4) by (auto simp: io_defer_def split: prod.splits)
  note b = assms(3)[OF in_tx_begin[OF assms(1,2)] v(1)]
  obtain x where "pg_rollback pool t v = (x, w')" using v(2) by (metis prod.collapse)
  with rollback_ok[OF _ this] b show ?thesis by simp
qed

lemma pg_save_atomic:
  assumes "inv w" and "pg_save pool x w = (u, w')"
  shows "inv w' \<and> u \<noteq> Panic \<and> (u = Val () \<longrightarrow> runs (wallet_stmts x) (committed w) (committed w')) \<and>
         (committed w' = committed w \<or> runs (wallet_stmts x) (committed w) (committed w'))"
proof -
  let ?s = "UpsertWallet (w_id x) (w_label x) (w_created x)"
  obtain b w1 where b: "pg_begin pool w = (b, w1)" by fastforce
  show ?thesis
  proof (cases b)
    case (Val t)
    show ?thesis
    proof (rule tx_body[OF assms(1)])
      show "pg_begin pool w = (Val t, w1)" using b Val by simp
      show "io_defer (pg_rollback pool t)
         (io_bind (io_wrap (Wrapf ''repository: save wallet %s: %w'' [AStr (w_id x)]) (pg_tx_exec pool t ?s)) (\<lambda>_.
          io_bind (save_accounts pool t (w_id x) (w_accounts x)) (\<lambda>_. pg_commit pool t))) w1 = (u, w')"
        using assms(2) b Val by (simp add: pg_save_def io_bind_def[of "io_wrap _ (pg_begin pool)"] io_wrap_def)
    next
      fix v y
      assume tx: "in_tx t (committed w) [] w1"
        and body: "io_bind (io_wrap (Wrapf ''repository: save wallet %s: %w'' [AStr (w_id x)]) (pg_tx_exec pool t ?s)) (\<lambda>_.
          io_bind (save_accounts pool t (w_id x) (w_accounts x)) (\<lambda>_. pg_commit pool t)) w1 = (y, v)"
      obtain q w2 where q: "pg_tx_exec pool t ?s w1 = (q, w2)" by fastforce
      note e = in_tx_exec[OF tx q]
      obtain p w3 where p: "save_accounts pool t (w_id x) (w_accounts x) w2 = (p, w3)" by fastforce
      obtain z w4 where z: "pg_commit pool t w3 = (z, w4)" by fastforce
      show "inv v \<and> y \<noteq> Panic \<and> (y = Val () \<longrightarrow> runs (wallet_stmts x) (committed w) (committed v)) \<and>
         (committed v = committed w \<or> runs (wallet_stmts x) (committed w) (committed v))"
      proof (cases q)
        case (Val i)
        then have tx2: "in_tx t (committed w) [?s] w2" using e by simp
        note a = save_accounts_tx[OF tx2 p]
        show ?thesis
        proof (cases p)
          case (Val n)
          then have "in_tx t (committed w) (wallet_stmts x) w3" using a by (simp add: wallet_stmts_def)
          from in_tx_commit[OF this z] show ?thesis
            using body q p z Val \<open>q = Val i\<close> by (simp add: io_bind_def io_wrap_def)
        qed (use body q p \<open>q = Val i\<close> a in \<open>auto simp: io_bind_def io_wrap_def\<close>)
      qed (use body q e in \<open>auto simp: io_bind_def io_wrap_def\<close>)
    qed
  qed (use assms(2) b begin_ok[OF assms(1) b] in \<open>auto simp: pg_save_def io_bind_def io_wrap_def\<close>)
qed

end

subsection \<open>What a save leaves to be read\<close>

definition wallet_view :: "tables \<Rightarrow> string \<Rightarrow> wallet option" where
  "wallet_view T i = map_option (\<lambda>r. (wallet_of_row r)\<lparr>w_accounts :=
       map account_of_row (filter (\<lambda>a. acr_wallet a = i) (tb_accounts T))\<rparr>)
     (find (\<lambda>r. wlr_id r = i) (tb_wallets T))"

definition account_at :: "tables \<Rightarrow> string \<Rightarrow> chain_id \<Rightarrow> account option" where
  "account_at T i c = map_option account_of_row (find (\<lambda>a. acr_wallet a = i \<and> acr_chain a = c) (tb_accounts T))"

lemma find_filter: "find P (filter Q xs) = find (\<lambda>x. Q x \<and> P x) xs"
  by (induction xs) auto

lemma find_map_option: "find P (map f xs) = map_option f (find (\<lambda>x. P (f x)) xs)"
  by (induction xs) auto

lemma wallet_view_account: "wallet_view T i = Some v \<Longrightarrow> wallet_account v c = account_at T i c"
  by (auto simp: wallet_view_def wallet_account_def account_at_def find_account_find find_map_option
      find_filter account_of_row_def)

lemma filter_upsert_other:
  assumes "\<And>x. p x \<Longrightarrow> \<not> q x \<and> \<not> q (f x)" and "\<not> q r"
  shows "filter q (upsert p f r xs) = filter q xs"
  using assms by (induction xs) auto

lemma run_account_stmt:
  assumes "run_stmt env (account_stmt i a) T = Some (T', k)"
  shows "tb_wallets T' = tb_wallets T \<and>
         (\<forall>j. j \<noteq> i \<longrightarrow> filter (\<lambda>r. acr_wallet r = j) (tb_accounts T') = filter (\<lambda>r. acr_wallet r = j) (tb_accounts T)) \<and>
         (\<forall>c. c \<noteq> acc_chain a \<longrightarrow> account_at T' i c = account_at T i c) \<and>
         account_at T' i (acc_chain a) = Some a"
proof -
  from assms have T': "T' = upsert_account i (acc_chain a) (acc_address a) (acc_path a) T"
    by (simp add: run_stmt_Some account_stmt_def)
  then have rows: "tb_accounts T' = upsert (\<lambda>r. acr_wallet r = i \<and> acr_chain r = acc_chain a)
        (\<lambda>r. r\<lparr>acr_address := acc_address a, acr_path := acc_path a\<rparr>)
        \<lparr>acr_wallet = i, acr_chain = acc_chain a, acr_address = acc_address a, acr_path = acc_path a\<rparr>
        (tb_accounts T)"
    by (simp add: upsert_account_def)
  have "account_at T' i c = account_at T i c" if "c \<noteq> acc_chain a" for c
    unfolding account_at_def rows using that by (subst find_upsert_other) auto
  moreover have "account_at T' i (acc_chain a) = Some a"
    unfolding account_at_def rows
    by (auto simp: find_upsert_same account_of_row_def find_Some_iff split: option.splits)
  moreover have "filter (\<lambda>r. acr_wallet r = j) (tb_accounts T') = filter (\<lambda>r. acr_wallet r = j) (tb_accounts T)"
    if "j \<noteq> i" for j
    unfolding rows using that by (subst filter_upsert_other) auto
  moreover have "tb_wallets T' = tb_wallets T" by (simp add: T' upsert_account_def)
  ultimately show ?thesis by blast
qed

lemma runs_account_stmts:
  assumes "runs (map (account_stmt i) accs) T T'"
  shows "tb_wallets T' = tb_wallets T \<and>
         (\<forall>j. j \<noteq> i \<longrightarrow> filter (\<lambda>r. acr_wallet r = j) (tb_accounts T') = filter (\<lambda>r. acr_wallet r = j) (tb_accounts T)) \<and>
         (\<forall>c. c \<notin> acc_chain ` set accs \<longrightarrow> account_at T' i c = account_at T i c) \<and>
         (distinct (map acc_chain accs) \<longrightarrow> (\<forall>a \<in> set accs. account_at T' i (acc_chain a) = Some a))"
  using assms
proof (induction accs arbitrary: T)
  case Nil
  then show ?case by (auto elim: runs_nilE)
next
  case (Cons a accs)
  from Cons.prems obtain env T1 k where
    r: "run_stmt env (account_stmt i a) T = Some (T1, k)" "runs (map (account_stmt i) accs) T1 T'"
    by (auto elim: runs_consE)
  from run_account_stmt[OF r(1)] Cons.IH[OF r(2)] show ?case by auto
qed

lemma runs_wallet_stmts:
  assumes "runs (wallet_stmts x) T T'" and "distinct_chains x"
  shows "(\<exists>v. wallet_view T' (w_id x) = Some v \<and> stored_as x v) \<and>
         (\<forall>j. j \<noteq> w_id x \<longrightarrow> wallet_view T' j = wallet_view T j)"
proof -
  let ?i = "w_id x"
  from assms(1) obtain env T1 k where
    r: "run_stmt env (UpsertWallet ?i (w_label x) (w_created x)) T = Some (T1, k)"
      "runs (map (account_stmt ?i) (w_accounts x)) T1 T'"
    unfolding wallet_stmts_def by (erule runs_consE)
  from r(1) have T1: "T1 = upsert_wallet ?i (w_label x) (w_created x) T" by (simp add: run_stmt_Some)
  note accs = runs_account_stmts[OF r(2)]
  have "\<exists>row. find (\<lambda>r. wlr_id r = ?i) (tb_wallets T') = Some row \<and> wlr_id row = ?i \<and> wlr_label row = w_label x"
    using accs by (auto simp: T1 upsert_wallet_def find_upsert_same find_Some_iff split: option.splits)
  then obtain v where v: "wallet_view T' ?i = Some v" "w_id v = ?i" "w_label v = w_label x"
    by (auto simp: wallet_view_def wallet_of_row_def)
  have "stored_as x v"
    using v accs assms(2) by (auto simp: stored_as_def distinct_chains_def wallet_view_account[OF v(1)])
  moreover have "wallet_view T' j = wallet_view T j" if "j \<noteq> ?i" for j
  proof -
    have "tb_wallets T1 = upsert (\<lambda>r. wlr_id r = ?i) (\<lambda>r. r\<lparr>wlr_label := w_label x\<rparr>)
        \<lparr>wlr_id = ?i, wlr_label = w_label x, wlr_created = timestamptz (w_created x)\<rparr> (tb_wallets T)"
      by (simp add: T1 upsert_wallet_def)
    then have "find (\<lambda>r. wlr_id r = j) (tb_wallets T1) = find (\<lambda>r. wlr_id r = j) (tb_wallets T)"
      using that by (simp only:) (subst find_upsert_other, auto)
    moreover have "tb_accounts T1 = tb_accounts T" by (simp add: T1 upsert_wallet_def)
    ultimately show ?thesis using accs that by (simp add: wallet_view_def)
  qed
  ultimately show ?thesis using v(1) by blast
qed

lemma scan_rows_Val:
  "scan_rows h f rs = Val xs \<Longrightarrow> \<exists>ys. all_scanned rs = Some ys \<and> xs = map f ys"
proof (induction rs arbitrary: xs)
  case (Cons r rs)
  then show ?case by (cases r) (auto simp: go_bind_Val_iff)
qed simp

lemma find_account_mset:
  assumes "mset xs = mset ys" and "distinct (map acc_chain ys)"
  shows "find_account xs c = find_account ys c"
proof -
  have "mset (map acc_chain xs) = mset (map acc_chain ys)" using assms(1) by (simp add: mset_map)
  then have "distinct (map acc_chain xs)" using assms(2) mset_eq_imp_distinct_iff by blast
  moreover have "set xs = set ys" using assms(1) by (metis set_mset_mset)
  ultimately have "find_account xs c = Some a \<longleftrightarrow> find_account ys c = Some a" for a
    using assms(2) by (simp add: find_account_distinct)
  then show ?thesis by (metis not_Some_eq)
qed

lemma view_chains_distinct:
  "schema_ok T \<Longrightarrow> distinct (map acc_chain (map account_of_row (filter (\<lambda>a. acr_wallet a = i) (tb_accounts T))))"
proof -
  assume "schema_ok T"
  then have "distinct (map (\<lambda>a. (acr_wallet a, acr_chain a)) (tb_accounts T))"
    by (simp add: schema_ok_def accounts_ok_def)
  then have "distinct (map (\<lambda>a. (acr_wallet a, acr_chain a)) (filter (\<lambda>a. acr_wallet a = i) (tb_accounts T)))"
    by (rule distinct_map_filter)
  then show ?thesis by (auto simp: distinct_map inj_on_def account_of_row_def)
qed

context postgres
begin

lemma accounts_for_ok:
  assumes "inv w" and "accounts_for pool i w = (r, w')"
  shows "inv w' \<and> committed w' = committed w \<and> r \<noteq> Panic \<and>
         (\<forall>as. r = Val as \<longrightarrow> mset as =
            mset (map account_of_row (filter (\<lambda>a. acr_wallet a = i) (tb_accounts (committed w)))))"
proof -
  obtain q w1 where q: "pg_accounts_of pool i w = (q, w1)" by fastforce
  note a = accounts_of_ok[OF assms(1) q]
  show ?thesis
  proof (cases q)
    case (Val rs)
    then have rows: "rows_are rs (filter (\<lambda>a. acr_wallet a = i) (tb_accounts (committed w)))" using a by simp
    have "scan_rows h f rr \<noteq> Panic" if "Panic \<notin> set rr" for h f and rr :: "account_row go list"
      using that
    proof (induction rr)
      case (Cons x rr)
      then show ?case by (cases x) (auto simp: go_bind_Panic_iff)
    qed simp
    moreover have "mset as = mset (map account_of_row (filter (\<lambda>a. acr_wallet a = i) (tb_accounts (committed w))))"
      if s: "scan_rows h account_of_row (rows_items rs) = Val as" and "rows_err rs = None" for h as
      using scan_rows_Val[OF s] rows that(2) by (auto simp: rows_are_def mset_map)
    ultimately show ?thesis
      using assms(2) q Val a rows
      by (auto simp: accounts_for_def io_bind_def io_wrap_def rows_checked_def rows_are_def
          split: go.splits option.splits)
  qed (use assms(2) q a in \<open>auto simp: accounts_for_def io_bind_def io_wrap_def\<close>)
qed

lemma pg_get_ok:
  assumes "inv w" and "pg_get pool i w = (r, w')"
  shows "inv w' \<and> committed w' = committed w \<and> r \<noteq> Panic \<and>
         (\<forall>x. r = Val x \<longrightarrow> (\<exists>v. wallet_view (committed w) i = Some v \<and> same_wallet v x))"
proof -
  obtain q w1 where q: "pg_wallet_by_id pool i w = (q, w1)" by fastforce
  note a = wallet_by_id_ok[OF assms(1) q]
  show ?thesis
  proof (cases q)
    case (Val row)
    obtain s w2 where s: "accounts_for pool i w1 = (s, w2)" by fastforce
    have inv1: "inv w1" using a by blast
    note b = accounts_for_ok[OF inv1 s]
    show ?thesis
    proof (cases s)
      case (Val as)
      let ?as = "map account_of_row (filter (\<lambda>a. acr_wallet a = i) (tb_accounts (committed w)))"
      have "mset as = mset ?as" using b a Val by simp
      from find_account_mset[OF this view_chains_distinct[OF schema[OF assms(1)]]]
      have "same_wallet ((wallet_of_row row)\<lparr>w_accounts := ?as\<rparr>) ((wallet_of_row row)\<lparr>w_accounts := as\<rparr>)"
        by (simp add: same_wallet_def wallet_account_def)
      moreover have "wallet_view (committed w) i = Some ((wallet_of_row row)\<lparr>w_accounts := ?as\<rparr>)"
        using a \<open>q = Val row\<close> by (simp add: wallet_view_def)
      moreover have "r = Val ((wallet_of_row row)\<lparr>w_accounts := as\<rparr>)" "w' = w2"
        using assms(2) q s Val \<open>q = Val row\<close> by (simp_all add: pg_get_def io_bind_def io_try_def)
      ultimately show ?thesis using a b by auto
    qed (use assms(2) q s a b Val in \<open>auto simp: pg_get_def io_bind_def io_try_def\<close>)
  qed (use assms(2) q a in \<open>auto simp: pg_get_def io_bind_def io_try_def split: if_splits\<close>)
qed

lemma list_all2_member:
  "list_all2 P xs ys \<Longrightarrow> y \<in> set ys \<Longrightarrow> \<exists>x \<in> set xs. P x y"
  by (induction rule: list_all2_induct) auto

lemma fill_accounts_ok:
  assumes "inv w" and "fill_accounts pool ws w = (r, w')"
  shows "inv w' \<and> committed w' = committed w \<and> r \<noteq> Panic \<and>
         (\<forall>xs. r = Val xs \<longrightarrow> list_all2 (\<lambda>v x. \<exists>as. x = v\<lparr>w_accounts := as\<rparr> \<and>
            mset as = mset (map account_of_row (filter (\<lambda>a. acr_wallet a = w_id v) (tb_accounts (committed w))))) ws xs)"
  using assms
proof (induction ws arbitrary: w r w')
  case (Cons v ws)
  obtain q w1 where q: "accounts_for pool (w_id v) w = (q, w1)" by fastforce
  note a = accounts_for_ok[OF Cons.prems(1) q]
  show ?case
  proof (cases q)
    case (Val as)
    obtain p w2 where p: "fill_accounts pool ws w1 = (p, w2)" by fastforce
    have inv1: "inv w1" "committed w1 = committed w" using a by blast+
    note b = Cons.IH[OF inv1(1) p, unfolded inv1(2)]
    have run: "(r, w') = (case p of Val rest \<Rightarrow> Val (v\<lparr>w_accounts := as\<rparr> # rest)
        | Err e \<Rightarrow> Err e | Panic \<Rightarrow> Panic, w2)"
      using Cons.prems(2) q Val p by (cases p) (auto simp: io_bind_def)
    show ?thesis
    proof (cases p)
      case (Val rest)
      have "list_all2 (\<lambda>v x. \<exists>as. x = v\<lparr>w_accounts := as\<rparr> \<and>
          mset as = mset (map account_of_row (filter (\<lambda>a. acr_wallet a = w_id v) (tb_accounts (committed w)))))
          (v # ws) (v\<lparr>w_accounts := as\<rparr> # rest)"
        using a b Val \<open>q = Val as\<close> by auto
      with run Val b show ?thesis by simp
    qed (use run b in auto)
  qed (use Cons.prems q a in \<open>auto simp: io_bind_def\<close>)
qed auto

text \<open>Listing gives every wallet once, each as a \<open>Get\<close> would give it.\<close>

lemma pg_list_ok:
  assumes "inv w" and "pg_list pool w = (Val xs, w')"
  shows "inv w' \<and> committed w' = committed w \<and>
         mset (map w_id xs) = mset (map wlr_id (tb_wallets (committed w))) \<and>
         (\<forall>x \<in> set xs. \<exists>v. wallet_view (committed w) (w_id x) = Some v \<and> same_wallet v x)"
proof -
  let ?T = "committed w"
  from assms(2) obtain rs w1 ws where rs: "pg_wallets pool w = (Val rs, w1)"
    and ws: "scan_rows (Wrapf ''repository: scan wallet: %w'' []) wallet_of_row (rows_items rs) = Val ws"
    and err: "rows_err rs = None" and fill: "fill_accounts pool ws w1 = (Val xs, w')"
    by (auto simp: pg_list_def io_bind_eq_Val_iff rows_checked_def split: option.splits)
  have w1: "inv w1" "committed w1 = ?T" "rows_are rs (tb_wallets ?T)"
    using wallets_query_ok[OF assms(1) rs] by auto
  from scan_rows_Val[OF ws] obtain ys where ys: "all_scanned (rows_items rs) = Some ys" "ws = map wallet_of_row ys"
    by blast
  with w1(3) err have mset: "mset ys = mset (tb_wallets ?T)" by (simp add: rows_are_def)
  note f = fill_accounts_ok[OF w1(1) fill, unfolded w1(2)]
  then have all: "list_all2 (\<lambda>v x. \<exists>as. x = v\<lparr>w_accounts := as\<rparr> \<and>
      mset as = mset (map account_of_row (filter (\<lambda>a. acr_wallet a = w_id v) (tb_accounts ?T)))) ws xs"
    by blast
  then have "map w_id xs = map w_id ws" by (induction rule: list_all2_induct) auto
  then have ids: "map w_id xs = map wlr_id ys" by (simp add: ys(2) wallet_of_row_def)
  have "\<exists>v. wallet_view ?T (w_id x) = Some v \<and> same_wallet v x" if "x \<in> set xs" for x
  proof -
    from that list_all2_member[OF all] obtain v as where v: "v \<in> set ws" "x = v\<lparr>w_accounts := as\<rparr>"
      and as: "mset as = mset (map account_of_row (filter (\<lambda>a. acr_wallet a = w_id v) (tb_accounts ?T)))"
      by blast
    from v(1) ys(2) obtain r where r: "r \<in> set ys" "v = wallet_of_row r" by auto
    then have mem: "r \<in> set (tb_wallets ?T)" using mset by (metis set_mset_mset)
    have "distinct (map wlr_id (tb_wallets ?T))" using schema[OF assms(1)] by (simp add: schema_ok_def wallets_ok_def)
    then have "find (\<lambda>s. wlr_id s = wlr_id r) (tb_wallets ?T) = Some r"
      using mem by (induction "tb_wallets ?T") (auto simp: rev_image_eqI find_Some_iff in_set_conv_nth distinct_conv_nth nth_eq_iff_index_eq)
    then have "wallet_view ?T (w_id v) = Some (v\<lparr>w_accounts :=
        map account_of_row (filter (\<lambda>a. acr_wallet a = w_id v) (tb_accounts ?T))\<rparr>)"
      using r(2) by (simp add: wallet_view_def wallet_of_row_def)
    moreover have "same_wallet (v\<lparr>w_accounts :=
        map account_of_row (filter (\<lambda>a. acr_wallet a = w_id v) (tb_accounts ?T))\<rparr>) x"
      using find_account_mset[OF as view_chains_distinct[OF schema[OF assms(1)]]] v(2)
      by (simp add: same_wallet_def wallet_account_def)
    ultimately show ?thesis using v(2) by simp
  qed
  then show ?thesis using f mset ids by (simp add: mset_map)
qed

end

sublocale postgres \<subseteq> wallets: wallet_store "postgres_repo pool" "\<lambda>w. wallet_view (committed w)" inv
proof (unfold_locales, goal_cases)
  case (1 w x w')
  then have "inv w' \<and> runs (wallet_stmts x) (committed w) (committed w')"
    using pg_save_atomic[of w x "Val ()" w'] by (simp add: postgres_repo_def)
  then show ?case using runs_wallet_stmts[OF _ 1(2)] by blast
next
  case (2 w i x w')
  then show ?case using pg_get_ok[of w i "Val x" w'] by (simp add: postgres_repo_def)
next
  case (3 w i)
  obtain r w' where r: "pg_get pool i w = (r, w')" by fastforce
  from pg_get_ok[OF 3(1) r] 3(2) have "\<exists>e. r = Err e" by (cases r) auto
  with r show ?case by (auto simp: postgres_repo_def)
next
  case (4 w xs w')
  then have l: "inv w' \<and> committed w' = committed w \<and>
      mset (map w_id xs) = mset (map wlr_id (tb_wallets (committed w))) \<and>
      (\<forall>x \<in> set xs. \<exists>v. wallet_view (committed w) (w_id x) = Some v \<and> same_wallet v x)"
    using pg_list_ok by (simp add: postgres_repo_def)
  have "distinct (map wlr_id (tb_wallets (committed w)))"
    using schema[OF 4(1)] by (simp add: schema_ok_def wallets_ok_def)
  then have "distinct (map w_id xs)" using l mset_eq_imp_distinct_iff by metis
  moreover have "w_id ` set xs = wlr_id ` set (tb_wallets (committed w))"
    using l by (metis list.set_map set_mset_mset)
  moreover have "wallet_view (committed w) i \<noteq> None \<longleftrightarrow> i \<in> wlr_id ` set (tb_wallets (committed w))" for i
    by (auto simp: wallet_view_def find_None_iff)
  ultimately show ?case using l by auto
qed

section \<open>Scan cursors\<close>

definition pg_cursor_get :: "('w, 't) pool \<Rightarrow> chain_id \<Rightarrow> ('w, 64 word option) io" where
  "pg_cursor_get pool c =
     io_bind (io_try (pg_cursor_of pool c)) (\<lambda>r.
     case r of
       Inl e \<Rightarrow> (if errors_is e no_rows then io_return None
                 else io_fail (Wrapf ''repository: get cursor %s: %w'' [AStr c] e))
     | Inr height \<Rightarrow> io_return (Some (word_of_int height)))"

definition pg_cursor_set :: "('w, 't) pool \<Rightarrow> chain_id \<Rightarrow> 64 word \<Rightarrow> ('w, unit) io" where
  "pg_cursor_set pool c height =
     io_wrap (Wrapf ''repository: set cursor %s: %w'' [AStr c]) (pg_exec pool (UpsertCursor c (int64 (uint height))))"

definition postgres_cursors :: "('w, 't) pool \<Rightarrow> 'w cursor_store" where
  "postgres_cursors pool = \<lparr>cs_get = pg_cursor_get pool, cs_set = pg_cursor_set pool\<rparr>"

definition cursor_view :: "tables \<Rightarrow> chain_id \<rightharpoonup> 64 word" where
  "cursor_view T c = map_option (\<lambda>r. word_of_int (cur_height r)) (find (\<lambda>r. cur_chain r = c) (tb_cursors T))"

text \<open>The height survives the detour through the signed column.\<close>

lemma word_of_int64_uint [simp]: "word_of_int (int64 (uint (h :: 64 word))) = h"
proof -
  have "uint (word_of_int (int64 (uint h)) :: 64 word) = uint64 (int64 (uint h))"
    by (simp add: uint_word_of_int uint64_def take_bit_eq_mod)
  also have "\<dots> = uint h"
    using uint_lt2p[of h] by (simp only: uint64_int64) (simp add: uint64_def)
  finally show ?thesis by (rule word_uint_eqI)
qed

lemma runs_cursor:
  assumes "runs [UpsertCursor c (int64 (uint h))] T T'"
  shows "cursor_view T' = (cursor_view T)(c \<mapsto> h)"
proof -
  from assms obtain env k where "run_stmt env (UpsertCursor c (int64 (uint h))) T = Some (T', k)"
    by (auto elim!: runs_consE runs_nilE)
  then have T': "tb_cursors T' = upsert (\<lambda>r. cur_chain r = c)
      (\<lambda>r. r\<lparr>cur_height := int64 (uint h), cur_updated := se_now env\<rparr>)
      \<lparr>cur_chain = c, cur_height = int64 (uint h), cur_block_hash = None, cur_updated = se_now env\<rparr> (tb_cursors T)"
    by (auto simp: run_stmt_Some upsert_cursor_def)
  have "cursor_view T' d = cursor_view T d" if "d \<noteq> c" for d
    unfolding cursor_view_def T' using that by (subst find_upsert_other) auto
  moreover have "cursor_view T' c = Some h"
    unfolding cursor_view_def T' by (auto simp: find_upsert_same split: option.splits)
  ultimately show ?thesis by (auto simp: fun_eq_iff)
qed

sublocale postgres \<subseteq> cursors: cursor_laws "postgres_cursors pool" "\<lambda>w. cursor_view (committed w)" inv
proof (unfold_locales, goal_cases)
  case (1 w c h w')
  then have "pg_exec pool (UpsertCursor c (int64 (uint h))) w = (Val (), w')"
    by (simp add: postgres_cursors_def pg_cursor_set_def)
  from exec_ok[OF 1(1) this] show ?case by (auto dest: runs_cursor)
next
  case (2 w c r w')
  obtain q w1 where q: "pg_cursor_of pool c w = (q, w1)" by fastforce
  from cursor_of_ok[OF 2(1) q] 2(2) q show ?case
    by (cases q) (auto simp: postgres_cursors_def pg_cursor_get_def io_bind_def io_try_def cursor_view_def
        split: if_splits)
qed

section \<open>Transactions\<close>

definition non_empty_ptr :: "string \<Rightarrow> string option" where
  "non_empty_ptr s = (if s = [] then None else Some s)"

definition from_to :: "tx_event \<Rightarrow> string option \<times> string option" where
  "from_to evt =
     (if ev_type evt = EventOutbound then (Some (ev_address evt), non_empty_ptr (ev_counterparty evt))
      else if ev_type evt = EventInbound then (non_empty_ptr (ev_counterparty evt), Some (ev_address evt))
      else (None, None))"

definition block_height_or_nil :: "64 word \<Rightarrow> int option" where
  "block_height_or_nil h = (if h = 0 then None else Some (int64 (uint h)))"

definition role_for :: "tx_event_type \<Rightarrow> string option" where
  "role_for t = (if t = EventOutbound then Some RoleSender
                 else if t = EventInbound then Some RoleReceiver else None)"

definition event_stmt :: "tx_event \<Rightarrow> stmt" where
  "event_stmt evt = UpsertTransaction (ev_chain evt) (ev_hash evt) (ev_status evt)
     (fst (from_to evt)) (snd (from_to evt)) (base_string (ev_amount evt))
     (asset_symbol (amt_asset (ev_amount evt))) (block_height_or_nil (ev_height evt))"

definition save_event :: "('w, 't) pool \<Rightarrow> string \<Rightarrow> tx_event \<Rightarrow> ('w, unit) io" where
  "save_event pool walletID evt =
     io_bind (io_wrap (Wrapf ''repository: begin: %w'' []) (pg_begin pool)) (\<lambda>tx.
     io_defer (pg_rollback pool tx)
       (io_bind (io_wrap (Wrapf ''repository: save transaction %s/%s: %w'' [AStr (ev_chain evt), AStr (ev_hash evt)])
          (pg_tx_exec pool tx (event_stmt evt))) (\<lambda>txID.
        case role_for (ev_type evt) of
          None \<Rightarrow> pg_commit pool tx
        | Some role \<Rightarrow>
            io_bind (io_wrap (Wrapf ''repository: link tx_addresses %s/%s: %w'' [AStr (ev_chain evt), AStr (ev_hash evt)])
              (pg_tx_exec pool tx (InsertLink txID walletID (ev_chain evt) (ev_address evt) role))) (\<lambda>_.
            pg_commit pool tx))))"

definition postgres_transactions :: "('w, 't) pool \<Rightarrow> 'w tx_repo" where
  "postgres_transactions pool = \<lparr>txr_save_event = save_event pool\<rparr>"

text \<open>The effect of a saved event on the tables.\<close>

definition event_saved :: "string \<Rightarrow> tx_event \<Rightarrow> tables \<Rightarrow> tables \<Rightarrow> bool" where
  "event_saved i evt T T' \<longleftrightarrow> (\<exists>env T1 k. run_stmt env (event_stmt evt) T = Some (T1, k) \<and>
     (case role_for (ev_type evt) of
        None \<Rightarrow> T' = T1
      | Some role \<Rightarrow> \<exists>env2 n. run_stmt env2 (InsertLink k i (ev_chain evt) (ev_address evt) role) T1 = Some (T', n)))"

context postgres
begin

lemma save_event_atomic:
  assumes "inv w" and "save_event pool i evt w = (u, w')"
  shows "inv w' \<and> u \<noteq> Panic \<and> (u = Val () \<longrightarrow> event_saved i evt (committed w) (committed w')) \<and>
         (committed w' = committed w \<or> event_saved i evt (committed w) (committed w'))"
proof -
  let ?body = "\<lambda>tx. io_bind (io_wrap (Wrapf ''repository: save transaction %s/%s: %w'' [AStr (ev_chain evt), AStr (ev_hash evt)])
          (pg_tx_exec pool tx (event_stmt evt))) (\<lambda>txID.
        case role_for (ev_type evt) of
          None \<Rightarrow> pg_commit pool tx
        | Some role \<Rightarrow>
            io_bind (io_wrap (Wrapf ''repository: link tx_addresses %s/%s: %w'' [AStr (ev_chain evt), AStr (ev_hash evt)])
              (pg_tx_exec pool tx (InsertLink txID i (ev_chain evt) (ev_address evt) role))) (\<lambda>_.
            pg_commit pool tx))"
  obtain b w1 where b: "pg_begin pool w = (b, w1)" by fastforce
  have body: "inv v \<and> y \<noteq> Panic \<and> (y = Val () \<longrightarrow> event_saved i evt (committed w) (committed v)) \<and>
         (committed v = committed w \<or> event_saved i evt (committed w) (committed v))"
    if tx: "in_tx t (committed w) [] w1" and run: "?body t w1 = (y, v)" for t y v
  proof -
    from tx have w1: "inv w1" "committed w1 = committed w" "working w1 t = Some (committed w)"
      by (auto simp: in_tx_def elim: runs_nilE)
    obtain q w2 where q: "pg_tx_exec pool t (event_stmt evt) w1 = (q, w2)" by fastforce
    note e = tx_exec_ok[OF w1(1,3) q]
    show ?thesis
    proof (cases q)
      case (Val k)
      then obtain env T1 where T1: "run_stmt env (event_stmt evt) (committed w) = Some (T1, k)"
        "working w2 t = Some T1" "inv w2" "committed w2 = committed w"
        using e w1(2) by auto
      show ?thesis
      proof (cases "role_for (ev_type evt)")
        case None
        then have "pg_commit pool t w2 = (y, v)"
          using run q Val by (simp add: io_bind_def io_wrap_def)
        from commit_ok[OF T1(3,2) this] show ?thesis using T1 None by (auto simp: event_saved_def)
      next
        case (Some role)
        let ?l = "InsertLink k i (ev_chain evt) (ev_address evt) role"
        obtain p w3 where p: "pg_tx_exec pool t ?l w2 = (p, w3)" by fastforce
        note f = tx_exec_ok[OF T1(3,2) p]
        show ?thesis
        proof (cases p)
          case (Val n)
          then obtain env2 T2 where T2: "run_stmt env2 ?l T1 = Some (T2, n)" "working w3 t = Some T2"
            "inv w3" "committed w3 = committed w"
            using f T1(4) by auto
          have "pg_commit pool t w3 = (y, v)"
            using run q p Val \<open>q = Val k\<close> Some by (simp add: io_bind_def io_wrap_def)
          moreover have "event_saved i evt (committed w) T2"
            unfolding event_saved_def Some option.case using T1(1) T2(1) by blast
          ultimately show ?thesis using commit_ok[OF T2(3,2)] T2(4) by metis
        qed (use run q p \<open>q = Val k\<close> Some f T1 in \<open>auto simp: io_bind_def io_wrap_def\<close>)
      qed
    qed (use run q e w1 in \<open>auto simp: io_bind_def io_wrap_def\<close>)
  qed
  show ?thesis
  proof (cases b)
    case (Val t)
    show ?thesis
      by (rule tx_body[OF assms(1), where t = t and ?w1.0 = w1 and body = "?body t"])
        (use body assms(2) b Val in \<open>auto simp: save_event_def io_bind_def[of "io_wrap _ (pg_begin pool)"] io_wrap_def\<close>)
  qed (use assms(2) b begin_ok[OF assms(1) b] in \<open>auto simp: save_event_def io_bind_def io_wrap_def\<close>)
qed

end

subsection \<open>What a saved event leaves in the tables\<close>

definition same_row :: "tx_row \<Rightarrow> tx_row" where
  "same_row r = r\<lparr>trow_confirmed := None\<rparr>"

lemma run_event_stmt:
  assumes "run_stmt env (event_stmt evt) T = Some (T1, k)"
  obtains n where "set_string10 (base_string (ev_amount evt)) = Some n"
    "T1 = upsert_transaction env (ev_chain evt) (ev_hash evt) (ev_status evt) (fst (from_to evt))
       (snd (from_to evt)) n (asset_symbol (amt_asset (ev_amount evt))) (block_height_or_nil (ev_height evt)) T"
    "\<exists>r. find_tx (ev_chain evt) (ev_hash evt) T1 = Some r \<and> trow_id r = k" "schema_ok T1"
  using assms by (auto simp: run_stmt_Some event_stmt_def Let_def split: option.splits)

lemma map_upsert_again:
  assumes "p r1" and "\<And>x. p x \<Longrightarrow> p (f1 x)" and "\<And>x. p x \<Longrightarrow> g (f2 (f1 x)) = g (f1 x)" and "g (f2 r1) = g r1"
  shows "map g (upsert p f2 r2 (upsert p f1 r1 xs)) = map g (upsert p f1 r1 xs)"
  using assms by (induction xs) auto

lemma find_upsert_id:
  assumes "p r1" and "\<And>x. p x \<Longrightarrow> p (f1 x)" and "\<And>x. p x \<Longrightarrow> p (f2 x)" and "\<And>x. h (f2 x) = h x"
  shows "map_option h (find p (upsert p f2 r2 (upsert p f1 r1 xs))) = map_option h (find p (upsert p f1 r1 xs))"
  using assms by (induction xs) auto

lemma event_saved_twice:
  assumes "event_saved i evt T T1" and "event_saved i evt T1 T2"
  shows "tb_links T2 = tb_links T1 \<and> map same_row (tb_transactions T2) = map same_row (tb_transactions T1) \<and>
         tb_wallets T2 = tb_wallets T \<and> tb_accounts T2 = tb_accounts T \<and> tb_cursors T2 = tb_cursors T"
proof -
  let ?key = "\<lambda>r. (trow_chain r, trow_hash r) = (ev_chain evt, ev_hash evt)"
  from assms(1) obtain env U1 k where
    U: "run_stmt env (event_stmt evt) T = Some (U1, k)"
      "case role_for (ev_type evt) of None \<Rightarrow> T1 = U1 | Some role \<Rightarrow>
         \<exists>env2 n. run_stmt env2 (InsertLink k i (ev_chain evt) (ev_address evt) role) U1 = Some (T1, n)"
    by (auto simp: event_saved_def)
  from assms(2) obtain env' V1 k' where
    V: "run_stmt env' (event_stmt evt) T1 = Some (V1, k')"
      "case role_for (ev_type evt) of None \<Rightarrow> T2 = V1 | Some role \<Rightarrow>
         \<exists>env2 n. run_stmt env2 (InsertLink k' i (ev_chain evt) (ev_address evt) role) V1 = Some (T2, n)"
    by (auto simp: event_saved_def)
  from U(1) obtain n where U1: "set_string10 (base_string (ev_amount evt)) = Some n"
    "U1 = upsert_transaction env (ev_chain evt) (ev_hash evt) (ev_status evt) (fst (from_to evt))
       (snd (from_to evt)) n (asset_symbol (amt_asset (ev_amount evt))) (block_height_or_nil (ev_height evt)) T"
    "map_option trow_id (find ?key (tb_transactions U1)) = Some k"
    by (rule run_event_stmt) (auto simp: find_tx_def)
  from V(1) obtain m where V1: "set_string10 (base_string (ev_amount evt)) = Some m"
    "V1 = upsert_transaction env' (ev_chain evt) (ev_hash evt) (ev_status evt) (fst (from_to evt))
       (snd (from_to evt)) m (asset_symbol (amt_asset (ev_amount evt))) (block_height_or_nil (ev_height evt)) T1"
    "map_option trow_id (find ?key (tb_transactions V1)) = Some k'"
    by (rule run_event_stmt) (auto simp: find_tx_def)
  have T1_tx: "tb_transactions T1 = tb_transactions U1"
    using U(2) by (auto simp: run_stmt_Some insert_link_def split: option.splits)
  have T2_tx: "tb_transactions T2 = tb_transactions V1"
    using V(2) by (auto simp: run_stmt_Some insert_link_def split: option.splits)
  have V_upsert: "tb_transactions V1 = upsert ?key (\<lambda>r. r\<lparr>trow_status := ev_status evt,
      trow_height := block_height_or_nil (ev_height evt), trow_confirmed := confirmed_at env' (ev_status evt)\<rparr>)
      (new_tx_row env' (ev_chain evt) (ev_hash evt) (ev_status evt) (fst (from_to evt)) (snd (from_to evt)) m
        (asset_symbol (amt_asset (ev_amount evt))) (block_height_or_nil (ev_height evt))) (tb_transactions U1)"
    by (simp add: V1(2) upsert_transaction_def T1_tx)
  have U_upsert: "tb_transactions U1 = upsert ?key (\<lambda>r. r\<lparr>trow_status := ev_status evt,
      trow_height := block_height_or_nil (ev_height evt), trow_confirmed := confirmed_at env (ev_status evt)\<rparr>)
      (new_tx_row env (ev_chain evt) (ev_hash evt) (ev_status evt) (fst (from_to evt)) (snd (from_to evt)) n
        (asset_symbol (amt_asset (ev_amount evt))) (block_height_or_nil (ev_height evt))) (tb_transactions T)"
    by (simp add: U1(2) upsert_transaction_def)
  have "map same_row (tb_transactions T2) = map same_row (tb_transactions T1)"
    unfolding T2_tx T1_tx V_upsert U_upsert
    by (rule map_upsert_again) (auto simp: new_tx_row_def same_row_def)
  moreover have "k' = k"
  proof -
    have "map_option trow_id (find ?key (tb_transactions V1)) = map_option trow_id (find ?key (tb_transactions U1))"
      unfolding V_upsert U_upsert by (rule find_upsert_id) (auto simp: new_tx_row_def)
    with U1(3) V1(3) have "Some k' = Some k" by (simp only:)
    then show ?thesis by simp
  qed
  then have "tb_links T2 = tb_links T1"
    using U(2) V(2) by (cases "role_for (ev_type evt)")
      (auto simp: run_stmt_Some insert_link_def V1(2) upsert_transaction_def intro!: upsert_upsert)
  moreover have "tb_wallets T2 = tb_wallets T \<and> tb_accounts T2 = tb_accounts T \<and> tb_cursors T2 = tb_cursors T"
    using U(2) V(2) by (cases "role_for (ev_type evt)")
      (auto simp: run_stmt_Some insert_link_def V1(2) U1(2) upsert_transaction_def)
  ultimately show ?thesis by blast
qed

lemma upsert_new: "find p xs = None \<Longrightarrow> upsert p f r xs = xs @ [r]"
  by (induction xs) (auto split: if_splits)

lemma upsert_old: "find p xs \<noteq> None \<Longrightarrow> length (upsert p f r xs) = length xs"
  by (induction xs) (auto split: if_splits)

lemma event_saved_cases:
  assumes "event_saved i evt T T'" and "role_for (ev_type evt) = Some role"
  shows "\<exists>r. find_tx (ev_chain evt) (ev_hash evt) T' = Some r \<and> trow_status r = ev_status evt \<and>
     trow_height r = block_height_or_nil (ev_height evt) \<and>
     tb_links T' = tb_links (insert_link (trow_id r) i (ev_chain evt) (ev_address evt) role T) \<and>
     (case find_tx (ev_chain evt) (ev_hash evt) T of
        Some r0 \<Rightarrow> trow_id r = trow_id r0 \<and> length (tb_transactions T') = length (tb_transactions T)
      | None \<Rightarrow> trow_id r \<notin> trow_id ` set (tb_transactions T) \<and>
                length (tb_transactions T') = length (tb_transactions T) + 1)"
proof -
  let ?key = "\<lambda>r :: tx_row. (trow_chain r, trow_hash r) = (ev_chain evt, ev_hash evt)"
  from assms obtain env U k env2 n where
    U: "run_stmt env (event_stmt evt) T = Some (U, k)"
    and L: "run_stmt env2 (InsertLink k i (ev_chain evt) (ev_address evt) role) U = Some (T', n)"
    by (auto simp: event_saved_def)
  from L have T': "T' = insert_link k i (ev_chain evt) (ev_address evt) role U" by (simp add: run_stmt_Some)
  from U obtain m r where r: "find_tx (ev_chain evt) (ev_hash evt) U = Some r" "trow_id r = k" "schema_ok U"
    "U = upsert_transaction env (ev_chain evt) (ev_hash evt) (ev_status evt) (fst (from_to evt))
       (snd (from_to evt)) m (asset_symbol (amt_asset (ev_amount evt))) (block_height_or_nil (ev_height evt)) T"
    by (rule run_event_stmt) blast
  define f where "f = (\<lambda>x :: tx_row. x\<lparr>trow_status := ev_status evt, trow_height := block_height_or_nil (ev_height evt),
       trow_confirmed := confirmed_at env (ev_status evt)\<rparr>)"
  define row where "row = new_tx_row env (ev_chain evt) (ev_hash evt) (ev_status evt) (fst (from_to evt))
       (snd (from_to evt)) m (asset_symbol (amt_asset (ev_amount evt))) (block_height_or_nil (ev_height evt))"
  have tx: "tb_transactions U = upsert ?key f row (tb_transactions T)"
    by (simp add: r(4) upsert_transaction_def f_def row_def)
  have links: "tb_links U = tb_links T" by (simp add: r(4) upsert_transaction_def)
  have "find ?key (tb_transactions U) = Some (case find ?key (tb_transactions T) of None \<Rightarrow> row | Some x \<Rightarrow> f x)"
    unfolding tx by (rule find_upsert_same) (auto simp: f_def row_def new_tx_row_def)
  with r(1) have r': "r = (case find ?key (tb_transactions T) of None \<Rightarrow> row | Some x \<Rightarrow> f x)"
    by (simp only: find_tx_def) simp
  have status: "trow_status r = ev_status evt" "trow_height r = block_height_or_nil (ev_height evt)"
    unfolding r' by (auto simp: f_def row_def new_tx_row_def split: option.splits)
  have ids: "case find_tx (ev_chain evt) (ev_hash evt) T of
        Some r0 \<Rightarrow> trow_id r = trow_id r0 \<and> length (tb_transactions U) = length (tb_transactions T)
      | None \<Rightarrow> trow_id r \<notin> trow_id ` set (tb_transactions T) \<and>
                length (tb_transactions U) = length (tb_transactions T) + 1"
  proof (cases "find ?key (tb_transactions T)")
    case None
    then have "tb_transactions U = tb_transactions T @ [row]" "r = row"
      using upsert_new[OF None, of f row] by (simp_all only: tx r' option.case)
    then show ?thesis
      using r(3) None by (simp add: schema_ok_def transactions_ok_def find_tx_def)
  next
    case (Some x)
    then have "length (tb_transactions U) = length (tb_transactions T)" "r = f x"
      using upsert_old[of ?key "tb_transactions T" f row] by (simp_all only: tx r' option.case) simp
    then show ?thesis using Some by (simp add: find_tx_def f_def)
  qed
  have "find_tx (ev_chain evt) (ev_hash evt) T' = Some r" "tb_transactions T' = tb_transactions U"
    using r(1) by (simp_all add: T' insert_link_def find_tx_def)
  moreover have "tb_links T' = tb_links (insert_link k i (ev_chain evt) (ev_address evt) role T)"
    by (simp add: T' insert_link_def links)
  ultimately show ?thesis using status ids r(2)
    by (intro exI[of _ r]) (simp split: option.splits)
qed

text \<open>
  C14. \<open>Save\<close> is one transaction: whatever fails and wherever, the tables hold afterwards either
  all of its statements' effects or none, and success means all of them; it never panics. After
  a successful save a \<open>Get\<close> that succeeds returns the wallet's label and, for every account
  saved, that account; the other wallets are as before.
\<close>

theorem wallet_save_atomic:
  assumes "postgres pool committed working ok" and "ok w" and "distinct_chains x"
    and "pg_save pool x w = (u, w')"
  shows "u \<noteq> Panic \<and>
         (committed w' = committed w \<or> runs (wallet_stmts x) (committed w) (committed w')) \<and>
         (u = Val () \<longrightarrow> runs (wallet_stmts x) (committed w) (committed w') \<and>
            (\<forall>y w2. pg_get pool (w_id x) w' = (Val y, w2) \<longrightarrow> stored_as x y) \<and>
            (\<forall>j. j \<noteq> w_id x \<longrightarrow> wallet_view (committed w') j = wallet_view (committed w) j))"
proof -
  note a = postgres.pg_save_atomic[OF assms(1,2,4)]
  have "stored_as x y" if "u = Val ()" "pg_get pool (w_id x) w' = (Val y, w2)" for y w2
  proof -
    have "ok w'" using a by blast
    from postgres.pg_get_ok[OF assms(1) this that(2)] obtain v where
      "wallet_view (committed w') (w_id x) = Some v" "same_wallet v y" by blast
    moreover have "runs (wallet_stmts x) (committed w) (committed w')" using a that(1) by blast
    from runs_wallet_stmts[OF this assms(3)] obtain v' where
      "wallet_view (committed w') (w_id x) = Some v'" "stored_as x v'" by blast
    ultimately show ?thesis by (auto intro: stored_as_same)
  qed
  moreover have "wallet_view (committed w') j = wallet_view (committed w) j" if "u = Val ()" "j \<noteq> w_id x" for j
    using runs_wallet_stmts[OF _ assms(3)] a that by blast
  ultimately show ?thesis using a by blast
qed

text \<open>
  A cursor of any 64-bit height, also one beyond the signed range of the column, reads back as
  it was set, and setting one chain's cursor leaves the others.
\<close>

lemma cursor_roundtrip:
  assumes "postgres pool committed working ok" and "ok w"
    and "pg_cursor_set pool c h w = (Val (), w1)" and "pg_cursor_get pool d w1 = (Val r, w2)"
  shows "r = (if d = c then Some h else cursor_view (committed w) d)"
proof -
  have set: "pg_exec pool (UpsertCursor c (int64 (uint h))) w = (Val (), w1)"
    using assms(3) by (simp add: pg_cursor_set_def)
  from postgres.exec_ok[OF assms(1,2) set] have
    "ok w1" "cursor_view (committed w1) = (cursor_view (committed w))(c \<mapsto> h)"
    by (auto dest: runs_cursor)
  moreover obtain q w3 where q: "pg_cursor_of pool d w1 = (q, w3)" by fastforce
  ultimately show ?thesis
    using postgres.cursor_of_ok[OF assms(1) \<open>ok w1\<close> q] assms(4) q
    by (cases q) (auto simp: pg_cursor_get_def io_bind_def io_try_def cursor_view_def fun_eq_iff
        split: if_splits)
qed

text \<open>
  C15. Saving an event is atomic, and saving it again changes nothing but the confirmation time: no
  second row, no second link, the same status and height.
\<close>

theorem save_event_idempotent:
  assumes "postgres pool committed working ok" and "ok w"
    and "save_event pool i evt w = (u, w1)" and "save_event pool i evt w1 = (u', w2)"
  shows "u \<noteq> Panic \<and> (committed w1 = committed w \<or> event_saved i evt (committed w) (committed w1)) \<and>
         (u = Val () \<longrightarrow> tb_links (committed w2) = tb_links (committed w1) \<and>
            map same_row (tb_transactions (committed w2)) = map same_row (tb_transactions (committed w1)))"
proof -
  note a = postgres.save_event_atomic[OF assms(1,2,3)]
  then have "ok w1" by blast
  from postgres.save_event_atomic[OF assms(1) this assms(4)] have
    "committed w2 = committed w1 \<or> event_saved i evt (committed w1) (committed w2)" by blast
  then have "tb_links (committed w2) = tb_links (committed w1) \<and>
      map same_row (tb_transactions (committed w2)) = map same_row (tb_transactions (committed w1))"
    if "u = Val ()" using a that event_saved_twice by metis
  with a show ?thesis by blast
qed

text \<open>
  C20. A transfer between two own wallets, seen first from its sender and then from its receiver, is
  one row of \<open>transactions\<close> with two links, one per side, each to the right wallet.
\<close>

theorem both_sides_one_row:
  assumes "postgres pool committed working ok" and "ok w"
    and "save_event pool i e w = (Val (), w1)" and "save_event pool j f w1 = (Val (), w2)"
    and "ev_type e = EventOutbound" and "ev_type f = EventInbound"
    and "ev_chain f = ev_chain e" and "ev_hash f = ev_hash e"
    and "find_tx (ev_chain e) (ev_hash e) (committed w) = None"
  shows "\<exists>r. find_tx (ev_chain e) (ev_hash e) (committed w2) = Some r \<and>
           length (tb_transactions (committed w2)) = length (tb_transactions (committed w)) + 1 \<and>
           tb_links (committed w2) = tb_links (committed w) @
             [\<lparr>lnk_tx = trow_id r, lnk_wallet = i, lnk_chain = ev_chain e, lnk_address = ev_address e, lnk_role = RoleSender\<rparr>,
              \<lparr>lnk_tx = trow_id r, lnk_wallet = j, lnk_chain = ev_chain e, lnk_address = ev_address f, lnk_role = RoleReceiver\<rparr>]"
proof -
  have roles: "role_for (ev_type e) = Some RoleSender" "role_for (ev_type f) = Some RoleReceiver"
    using assms(5,6) by (simp_all add: role_for_def event_type_defs)
  from postgres.save_event_atomic[OF assms(1,2,3)] have
    E: "ok w1" "event_saved i e (committed w) (committed w1)" by blast+
  from postgres.save_event_atomic[OF assms(1) E(1) assms(4)] have
    F: "event_saved j f (committed w1) (committed w2)" by blast
  from event_saved_cases[OF E(2) roles(1)] assms(9) obtain r where
    r: "find_tx (ev_chain e) (ev_hash e) (committed w1) = Some r"
      "tb_links (committed w1) = tb_links (insert_link (trow_id r) i (ev_chain e) (ev_address e) RoleSender (committed w))"
      "trow_id r \<notin> trow_id ` set (tb_transactions (committed w))"
      "length (tb_transactions (committed w1)) = length (tb_transactions (committed w)) + 1"
    by auto
  from event_saved_cases[OF F roles(2)] r(1) assms(7,8) obtain r' where
    r': "find_tx (ev_chain e) (ev_hash e) (committed w2) = Some r'" "trow_id r' = trow_id r"
      "tb_links (committed w2) = tb_links (insert_link (trow_id r) j (ev_chain e) (ev_address f) RoleReceiver (committed w1))"
      "length (tb_transactions (committed w2)) = length (tb_transactions (committed w1))"
    by auto
  have old: "lnk_tx l \<noteq> trow_id r" if "l \<in> set (tb_links (committed w))" for l
  proof -
    have "lnk_tx l \<in> trow_id ` set (tb_transactions (committed w))"
      using postgres.schema[OF assms(1,2)] that by (simp add: schema_ok_def links_ok_def)
    with r(3) show ?thesis by metis
  qed
  have l1: "tb_links (committed w1) = tb_links (committed w) @
      [\<lparr>lnk_tx = trow_id r, lnk_wallet = i, lnk_chain = ev_chain e, lnk_address = ev_address e, lnk_role = RoleSender\<rparr>]"
    using r(2) old by (simp add: insert_link_def) (subst upsert_new, auto simp: find_None_iff)
  have "tb_links (committed w2) = tb_links (committed w1) @
      [\<lparr>lnk_tx = trow_id r, lnk_wallet = j, lnk_chain = ev_chain e, lnk_address = ev_address f, lnk_role = RoleReceiver\<rparr>]"
    using r'(3) old l1
    by (simp add: insert_link_def) (subst upsert_new, auto simp: find_None_iff RoleSender_def RoleReceiver_def)
  with l1 r r' show ?thesis by (intro exI[of _ r']) simp
qed

section \<open>A concrete database\<close>

definition sample_tables :: tables where
  "sample_tables = no_tables\<lparr>tb_wallets :=
     [\<lparr>wlr_id = ''w1'', wlr_label = ''a'', wlr_created = 0\<rparr>, \<lparr>wlr_id = ''w2'', wlr_label = ''b'', wlr_created = 0\<rparr>]\<rparr>"

definition sample_engine :: engine where
  "sample_engine = \<lparr>en_tables = sample_tables, en_open = [], en_next_tx = 0, en_next_id = 7, en_tick = 3,
     en_faults = (\<lambda>n. if n = 40 then Some (Foreign ''reset'', False) else None)\<rparr>"

definition sample_pool :: "(engine, nat) pool" where
  "sample_pool = serial_pool (\<lambda>xs. xs) rev"

definition sample_saved_wallet :: wallet where
  "sample_saved_wallet = \<lparr>w_id = ''w1'', w_label = ''new'', w_created = 0, w_accounts =
     [\<lparr>acc_chain = ChainBase, acc_address = ''b'', acc_path = ''m/0''\<rparr>,
      \<lparr>acc_chain = ChainTron, acc_address = ''t'', acc_path = ''m/1''\<rparr>]\<rparr>"

definition sample_in :: tx_event where
  "sample_in = \<lparr>ev_type = EventInbound, ev_chain = ChainBase, ev_address = ''b'', ev_counterparty = ''a'',
     ev_hash = ''h'', ev_amount = \<lparr>amt_asset = native_asset ''ETH'' 18, amt_base = Some 5\<rparr>,
     ev_status = TxConfirmed, ev_height = 6, ev_time = 0\<rparr>"

definition sample_out :: tx_event where
  "sample_out = sample_in\<lparr>ev_type := EventOutbound, ev_address := ''a'', ev_counterparty := ''b''\<rparr>"

lemma sample_postgres: "postgres sample_pool en_tables engine_working engine_ok"
  unfolding sample_pool_def by (rule engine.postgres_axioms)

lemma sample_engine_ok: "engine_ok sample_engine"
  by (simp add: engine_ok_def sample_engine_def schema_defs sample_tables_def no_tables_def)

lemma io_pair: "fst (m w) = r \<Longrightarrow> m w = (r, snd (m w))"
  by (simp add: prod_eq_iff)

theorem wallet_save_atomic_witness:
  "\<exists>w'. pg_save sample_pool sample_saved_wallet sample_engine = (Val (), w') \<and>
     (\<forall>y w2. pg_get sample_pool ''w1'' w' = (Val y, w2) \<longrightarrow> stored_as sample_saved_wallet y) \<and>
     (\<exists>y w2. pg_get sample_pool ''w1'' w' = (Val y, w2))"
proof -
  let ?m = "pg_save sample_pool sample_saved_wallet"
  have "fst (?m sample_engine) = Val ()" by code_simp
  from io_pair[where m = ?m, OF this] have save: "?m sample_engine = (Val (), snd (?m sample_engine))" .
  have "case fst (pg_get sample_pool ''w1'' (snd (?m sample_engine))) of Val _ \<Rightarrow> True | _ \<Rightarrow> False"
    by code_simp
  then have get: "\<exists>y w2. pg_get sample_pool ''w1'' (snd (?m sample_engine)) = (Val y, w2)"
    by (metis go.case(2) go.case(3) go.exhaust prod.collapse)
  have "distinct_chains sample_saved_wallet" by code_simp
  from wallet_save_atomic[OF sample_postgres sample_engine_ok this save] save get show ?thesis
    by (auto simp: sample_saved_wallet_def)
qed

theorem save_event_idempotent_witness:
  "\<exists>w1 w2. save_event sample_pool ''w1'' sample_in sample_engine = (Val (), w1) \<and>
     save_event sample_pool ''w1'' sample_in w1 = (Val (), w2) \<and>
     tb_links (en_tables w2) = tb_links (en_tables w1)"
proof -
  let ?m = "save_event sample_pool ''w1'' sample_in"
  have "fst (?m sample_engine) = Val ()" by code_simp
  from io_pair[where m = ?m, OF this] have one: "?m sample_engine = (Val (), snd (?m sample_engine))" .
  have "fst (?m (snd (?m sample_engine))) = Val ()" by code_simp
  from io_pair[where m = ?m, OF this] obtain w2 where two: "?m (snd (?m sample_engine)) = (Val (), w2)"
    by blast
  from save_event_idempotent[OF sample_postgres sample_engine_ok one two] one two show ?thesis by blast
qed

theorem both_sides_one_row_witness:
  "\<exists>w1 w2. save_event sample_pool ''w1'' sample_out sample_engine = (Val (), w1) \<and>
     save_event sample_pool ''w2'' sample_in w1 = (Val (), w2) \<and>
     length (tb_transactions (en_tables w2)) = 1 \<and> length (tb_links (en_tables w2)) = 2"
proof -
  let ?m = "save_event sample_pool ''w1'' sample_out" and ?n = "save_event sample_pool ''w2'' sample_in"
  have "fst (?m sample_engine) = Val ()" by code_simp
  from io_pair[where m = ?m, OF this] have one: "?m sample_engine = (Val (), snd (?m sample_engine))" .
  have "fst (?n (snd (?m sample_engine))) = Val ()" by code_simp
  from io_pair[where m = ?n, OF this] obtain w2 where two: "?n (snd (?m sample_engine)) = (Val (), w2)"
    by blast
  have "find_tx (ev_chain sample_out) (ev_hash sample_out) (en_tables sample_engine) = None" by code_simp
  from both_sides_one_row[OF sample_postgres sample_engine_ok one two _ _ _ _ this] one two show ?thesis
    by (auto simp: sample_out_def sample_in_def sample_engine_def sample_tables_def no_tables_def)
qed

end
