(* ===== verification/Keystore.thy ===== *)
theory Keystore
  imports HdWallet Repositories
begin

text \<open>
  \<^verbatim>\<open>internal/adapter/keystore\<close>: the in-memory and the Postgres key store, which differ only
  in where the sealed seed is kept, and the signer over an unlocked seed. BIP-39, Argon2id,
  AES-GCM, the random source and the signature schemes are records of functions; of the cipher
  it is relied on that opening a sealed text with the same key and nonce gives the text back.
  Both stores are shown to keep the contract \<open>sealed_keys\<close>.
\<close>

section \<open>Envelopes\<close>

record ('w, 'b, 'g) crypto =
  cy_new_entropy :: "nat \<Rightarrow> ('w, bytes) io"
  cy_new_mnemonic :: "bytes \<Rightarrow> string go"
  cy_new_seed :: "string \<Rightarrow> string \<Rightarrow> bytes"
  cy_read_random :: "nat \<Rightarrow> ('w, bytes) io"
  cy_argon2id :: "bytes \<Rightarrow> bytes \<Rightarrow> 32 word \<Rightarrow> 32 word \<Rightarrow> 8 word \<Rightarrow> 32 word \<Rightarrow> bytes"
  cy_new_cipher :: "bytes \<Rightarrow> 'b go"
  cy_new_gcm :: "'b \<Rightarrow> 'g go"
  cy_nonce_size :: "'g \<Rightarrow> nat"
  cy_seal :: "'g \<Rightarrow> bytes \<Rightarrow> bytes \<Rightarrow> bytes"
  cy_open :: "'g \<Rightarrow> bytes \<Rightarrow> bytes \<Rightarrow> bytes go"

definition argon_time :: "32 word" where "argon_time = 1"
definition argon_memory :: "32 word" where "argon_memory = 64 * 1024"
definition argon_threads :: "8 word" where "argon_threads = 4"
definition argon_key_len :: "32 word" where "argon_key_len = 32"
definition salt_len :: nat where "salt_len = 16"

record envelope =
  env_salt :: bytes
  env_nonce :: bytes
  env_ciphertext :: bytes

definition new_seed :: "('w, 'b, 'g) crypto \<Rightarrow> ('w, bytes) io" where
  "new_seed cy =
     io_bind (cy_new_entropy cy 256) (\<lambda>entropy.
     io_bind (io_lift (cy_new_mnemonic cy entropy)) (\<lambda>mnemonic.
     io_return (cy_new_seed cy mnemonic [])))"

definition stretch_key :: "('w, 'b, 'g) crypto \<Rightarrow> bytes \<Rightarrow> bytes \<Rightarrow> bytes" where
  "stretch_key cy passphrase salt =
     cy_argon2id cy passphrase salt argon_time argon_memory argon_threads argon_key_len"

definition new_gcm :: "('w, 'b, 'g) crypto \<Rightarrow> bytes \<Rightarrow> 'g go" where
  "new_gcm cy key = go_bind (cy_new_cipher cy key) (cy_new_gcm cy)"

definition seal :: "('w, 'b, 'g) crypto \<Rightarrow> bytes \<Rightarrow> bytes \<Rightarrow> ('w, envelope) io" where
  "seal cy plaintext passphrase =
     io_bind (cy_read_random cy salt_len) (\<lambda>salt.
     io_bind (io_lift (new_gcm cy (stretch_key cy passphrase salt))) (\<lambda>gcm.
     io_bind (cy_read_random cy (cy_nonce_size cy gcm)) (\<lambda>nonce.
     io_return \<lparr>env_salt = salt, env_nonce = nonce, env_ciphertext = cy_seal cy gcm nonce plaintext\<rparr>)))"

definition invalid_passphrase :: go_error where
  "invalid_passphrase = Errorf ''keystore: invalid passphrase'' []"

definition open_envelope :: "('w, 'b, 'g) crypto \<Rightarrow> envelope \<Rightarrow> bytes \<Rightarrow> bytes go" where
  "open_envelope cy enc passphrase =
     go_bind (new_gcm cy (stretch_key cy passphrase (env_salt enc))) (\<lambda>gcm.
     go_wrap (\<lambda>_. invalid_passphrase) (cy_open cy gcm (env_nonce enc) (env_ciphertext enc)))"

definition aead_ok :: "('w, 'b, 'g) crypto \<Rightarrow> bool" where
  "aead_ok cy \<longleftrightarrow> (\<forall>g n p. cy_open cy g n (cy_seal cy g n p) = Val p)"

text \<open>Drawing randomness leaves \<open>I\<close> as it is.\<close>

definition random_keeps :: "('w, 'b, 'g) crypto \<Rightarrow> ('w \<Rightarrow> bool) \<Rightarrow> bool" where
  "random_keeps cy I \<longleftrightarrow> (\<forall>n. io_keeps I (cy_new_entropy cy n)) \<and> (\<forall>n. io_keeps I (cy_read_random cy n))"

lemma open_seal:
  assumes "aead_ok cy" and "seal cy plaintext passphrase w = (Val enc, w')"
  shows "open_envelope cy enc passphrase = Val plaintext"
  using assms by (auto simp: seal_def open_envelope_def io_bind_eq_Val_iff aead_ok_def)

lemma new_seed_keeps: "random_keeps cy I \<Longrightarrow> io_keeps I (new_seed cy)"
  unfolding new_seed_def random_keeps_def by (intro io_keeps_bind) auto

lemma seal_keeps: "random_keeps cy I \<Longrightarrow> io_keeps I (seal cy s p)"
  unfolding seal_def random_keeps_def by (intro io_keeps_bind) auto

section \<open>The signer\<close>

text \<open>
  Private keys are their 32 bytes; \<open>sl_ed_*\<close> take the ed25519 seed.
\<close>

record 'k sign_lib =
  sl_hd :: "'k hdkeychain"
  sl_ed_sign :: "bytes \<Rightarrow> bytes \<Rightarrow> bytes"
  sl_ed_public :: "bytes \<Rightarrow> bytes"
  sl_btc_sign :: "bytes \<Rightarrow> bytes \<Rightarrow> bytes"
  sl_eth_sign :: "bytes \<Rightarrow> bytes \<Rightarrow> bytes go"
  sl_btc_public :: "bytes \<Rightarrow> bytes"

text \<open>\<open>ed25519.NewKeyFromSeed\<close> panics on a seed that is not 32 bytes long.\<close>

definition new_key_from_seed :: "bytes \<Rightarrow> bytes go" where
  "new_key_from_seed s = (if length s = 32 then Val s else Panic)"

definition derive_ed25519_key :: "bytes \<Rightarrow> derivation_path \<Rightarrow> bytes go" where
  "derive_ed25519_key seed path = go_bind (derive_key_ed25519 seed path) new_key_from_seed"

definition derive_priv_key :: "'k sign_lib \<Rightarrow> bytes \<Rightarrow> derivation_path \<Rightarrow> bytes go" where
  "derive_priv_key lib seed path = go_bind (derive_key (sl_hd lib) seed path) (hk_ec_priv_key (sl_hd lib))"

definition mem_sign :: "'k sign_lib \<Rightarrow> bytes \<Rightarrow> account \<Rightarrow> bytes \<Rightarrow> bytes go" where
  "mem_sign lib seed account digest =
     (if acc_chain account = ChainSolana
      then go_bind (derive_ed25519_key seed (acc_path account)) (\<lambda>priv. Val (sl_ed_sign lib priv digest))
      else go_bind (derive_priv_key lib seed (acc_path account)) (\<lambda>priv.
           if acc_chain account = ChainBitcoin then Val (sl_btc_sign lib priv digest)
           else sl_eth_sign lib priv digest))"

definition mem_public_key :: "'k sign_lib \<Rightarrow> bytes \<Rightarrow> account \<Rightarrow> bytes go" where
  "mem_public_key lib seed account =
     (if acc_chain account = ChainSolana
      then go_bind (derive_ed25519_key seed (acc_path account)) (\<lambda>priv. Val (sl_ed_public lib priv))
      else go_bind (derive_priv_key lib seed (acc_path account)) (\<lambda>priv. Val (sl_btc_public lib priv)))"

definition mem_signer :: "'k sign_lib \<Rightarrow> bytes \<Rightarrow> signer" where
  "mem_signer lib seed = \<lparr>sg_sign = mem_sign lib seed, sg_public_key = mem_public_key lib seed\<rparr>"

text \<open>The seed of an ed25519 key always has the length the library insists on.\<close>

lemma derive_ed25519_key_eq: "derive_ed25519_key seed path = derive_key_ed25519 seed path"
  using derive_key_ed25519_length[of seed path]
  by (cases "derive_key_ed25519 seed path") (auto simp: derive_ed25519_key_def new_key_from_seed_def)

lemma derive_ed25519_key_no_panic: "derive_ed25519_key seed path \<noteq> Panic"
  by (simp add: derive_ed25519_key_eq derive_key_ed25519_no_panic)

section \<open>In memory\<close>

text \<open>The state is the map beside the source of randomness.\<close>

type_synonym 'r memory_keys = "(string \<times> envelope) list \<times> 'r"

definition on_random :: "('r, 'a) io \<Rightarrow> ('r memory_keys, 'a) io" where
  "on_random m sr = (case m (snd sr) of (a, r') \<Rightarrow> (a, (fst sr, r')))"

definition mk_create :: "('r, 'b, 'g) crypto \<Rightarrow> string \<Rightarrow> bytes \<Rightarrow> ('r memory_keys, bytes) io" where
  "mk_create cy i passphrase =
     io_bind (on_random (new_seed cy)) (\<lambda>seed.
     io_bind (on_random (seal cy seed passphrase)) (\<lambda>enc.
     (\<lambda>(store, r). (Val seed, (AList.update i enc store, r)))))"

definition mk_unlock :: "('r, 'b, 'g) crypto \<Rightarrow> string \<Rightarrow> bytes \<Rightarrow> ('r memory_keys, bytes) io" where
  "mk_unlock cy i passphrase sr =
     (case map_of (fst sr) i of
        None \<Rightarrow> (Err (Errorf ''keystore: wallet %s not found'' [AStr i]), sr)
      | Some enc \<Rightarrow> (open_envelope cy enc passphrase, sr))"

definition mk_signer ::
  "('r, 'b, 'g) crypto \<Rightarrow> 'k sign_lib \<Rightarrow> string \<Rightarrow> bytes \<Rightarrow> ('r memory_keys, signer) io" where
  "mk_signer cy lib i passphrase =
     io_bind (mk_unlock cy i passphrase) (\<lambda>seed. io_return (mem_signer lib seed))"

definition memory_key_store :: "('r, 'b, 'g) crypto \<Rightarrow> 'k sign_lib \<Rightarrow> 'r memory_keys key_store" where
  "memory_key_store cy lib =
     \<lparr>ks_create = mk_create cy, ks_unlock = mk_unlock cy, ks_signer = mk_signer cy lib\<rparr>"

definition memory_sealed ::
  "('r, 'b, 'g) crypto \<Rightarrow> 'r memory_keys \<Rightarrow> string \<Rightarrow> bytes \<Rightarrow> bytes \<Rightarrow> bool" where
  "memory_sealed cy sr i p s \<longleftrightarrow> (\<exists>enc. map_of (fst sr) i = Some enc \<and> open_envelope cy enc p = Val s)"

lemma on_random_Val: "on_random m sr = (Val a, sr') \<longleftrightarrow> fst sr' = fst sr \<and> m (snd sr) = (Val a, snd sr')"
  by (cases sr') (auto simp: on_random_def split: prod.splits)

lemma mk_create_Val:
  assumes "mk_create cy i p sr = (Val s, sr')"
  obtains enc r1 r2 where "seal cy s p r1 = (Val enc, r2)" "fst sr' = AList.update i enc (fst sr)"
  using assms by (auto simp: mk_create_def io_bind_eq_Val_iff on_random_Val split: prod.splits)

interpretation memory_keys: sealed_keys "memory_key_store cy lib" "memory_sealed cy" "\<lambda>_. True" "aead_ok cy"
proof (unfold_locales, goal_cases)
  case (1 w i p s w')
  then have create: "mk_create cy i p w = (Val s, w')" by (simp add: memory_key_store_def)
  from create show ?case
  proof (rule mk_create_Val)
    fix enc r1 r2 assume "seal cy s p r1 = (Val enc, r2)" "fst w' = AList.update i enc (fst w)"
    then show ?thesis using open_seal[OF 1(1)] by (auto simp: memory_sealed_def update_conv')
  qed
next
  case (2 w i p t w')
  then show ?case
    by (auto simp: memory_key_store_def mk_unlock_def memory_sealed_def split: option.splits)
next
  case (3 w i p s t)
  then show ?case by (auto simp: memory_sealed_def)
next
  case (4 w i p sg w')
  then show ?case by (auto simp: memory_key_store_def mk_signer_def io_bind_eq_Val_iff)
qed

section \<open>In Postgres\<close>

definition pk_create :: "('w, 't) pool \<Rightarrow> ('w, 'b, 'g) crypto \<Rightarrow> string \<Rightarrow> bytes \<Rightarrow> ('w, bytes) io" where
  "pk_create pool cy i passphrase =
     io_bind (new_seed cy) (\<lambda>seed.
     io_bind (seal cy seed passphrase) (\<lambda>enc.
     io_bind (io_wrap (Wrapf ''keystore: save %s: %w'' [AStr i])
       (pg_exec pool (UpsertKeystore i (env_salt enc) (env_nonce enc) (env_ciphertext enc)))) (\<lambda>_.
     io_return seed)))"

definition envelope_of_row :: "keystore_row \<Rightarrow> envelope" where
  "envelope_of_row r = \<lparr>env_salt = ksr_salt r, env_nonce = ksr_nonce r, env_ciphertext = ksr_ciphertext r\<rparr>"

definition pk_unlock :: "('w, 't) pool \<Rightarrow> ('w, 'b, 'g) crypto \<Rightarrow> string \<Rightarrow> bytes \<Rightarrow> ('w, bytes) io" where
  "pk_unlock pool cy i passphrase =
     io_bind (io_try (pg_keystore_of pool i)) (\<lambda>r.
     case r of
       Inl e \<Rightarrow> (if errors_is e no_rows
                 then io_fail (Errorf ''keystore: wallet %s not found'' [AStr i])
                 else io_fail (Wrapf ''keystore: query %s: %w'' [AStr i] e))
     | Inr row \<Rightarrow> io_lift (open_envelope cy (envelope_of_row row) passphrase))"

definition pk_signer ::
  "('w, 't) pool \<Rightarrow> ('w, 'b, 'g) crypto \<Rightarrow> 'k sign_lib \<Rightarrow> string \<Rightarrow> bytes \<Rightarrow> ('w, signer) io" where
  "pk_signer pool cy lib i passphrase =
     io_bind (pk_unlock pool cy i passphrase) (\<lambda>seed. io_return (mem_signer lib seed))"

definition postgres_key_store ::
  "('w, 't) pool \<Rightarrow> ('w, 'b, 'g) crypto \<Rightarrow> 'k sign_lib \<Rightarrow> 'w key_store" where
  "postgres_key_store pool cy lib =
     \<lparr>ks_create = pk_create pool cy, ks_unlock = pk_unlock pool cy, ks_signer = pk_signer pool cy lib\<rparr>"

definition tables_sealed :: "('w, 'b, 'g) crypto \<Rightarrow> tables \<Rightarrow> string \<Rightarrow> bytes \<Rightarrow> bytes \<Rightarrow> bool" where
  "tables_sealed cy T i p s \<longleftrightarrow> (\<exists>row. find (\<lambda>r. ksr_wallet r = i) (tb_keystore T) = Some row \<and>
     open_envelope cy (envelope_of_row row) p = Val s)"

text \<open>The cipher works and drawing randomness does not touch the database.\<close>

definition crypto_trusted :: "('w, 'b, 'g) crypto \<Rightarrow> ('w \<Rightarrow> tables) \<Rightarrow> ('w \<Rightarrow> bool) \<Rightarrow> bool" where
  "crypto_trusted cy committed ok \<longleftrightarrow> aead_ok cy \<and> (\<forall>T. random_keeps cy (\<lambda>w. ok w \<and> committed w = T))"

lemma runs_keystore:
  assumes "runs [UpsertKeystore i salt nonce ct] T T'"
  shows "(\<forall>p s. open_envelope cy \<lparr>env_salt = salt, env_nonce = nonce, env_ciphertext = ct\<rparr> p = Val s \<longrightarrow>
            tables_sealed cy T' i p s) \<and>
         (\<forall>j q t. j \<noteq> i \<longrightarrow> tables_sealed cy T' j q t \<longleftrightarrow> tables_sealed cy T j q t) \<and>
         tb_wallets T' = tb_wallets T \<and> tb_accounts T' = tb_accounts T"
proof -
  from assms obtain env k where "run_stmt env (UpsertKeystore i salt nonce ct) T = Some (T', k)"
    by (auto elim!: runs_consE runs_nilE)
  then have T': "T' = upsert_keystore i salt nonce ct T" by (simp add: run_stmt_Some)
  then have rows: "tb_keystore T' = upsert (\<lambda>r. ksr_wallet r = i)
        (\<lambda>r. r\<lparr>ksr_salt := salt, ksr_nonce := nonce, ksr_ciphertext := ct\<rparr>)
        \<lparr>ksr_wallet = i, ksr_salt = salt, ksr_nonce = nonce, ksr_ciphertext = ct\<rparr> (tb_keystore T)"
    by (simp add: upsert_keystore_def)
  have "\<exists>row. find (\<lambda>r. ksr_wallet r = i) (tb_keystore T') = Some row \<and>
      envelope_of_row row = \<lparr>env_salt = salt, env_nonce = nonce, env_ciphertext = ct\<rparr>"
    unfolding rows by (auto simp: find_upsert_same envelope_of_row_def split: option.splits)
  moreover have "find (\<lambda>r. ksr_wallet r = j) (tb_keystore T') = find (\<lambda>r. ksr_wallet r = j) (tb_keystore T)"
    if "j \<noteq> i" for j
    unfolding rows using that by (subst find_upsert_other) auto
  ultimately show ?thesis by (auto simp: tables_sealed_def T' upsert_keystore_def)
qed

context postgres
begin

lemma pk_create_ok:
  assumes "crypto_trusted cy committed inv" and "inv w" and "pk_create pool cy i p w = (Val s, w')"
  shows "inv w' \<and> tables_sealed cy (committed w') i p s \<and>
         (\<forall>j q t. j \<noteq> i \<longrightarrow> tables_sealed cy (committed w') j q t \<longleftrightarrow> tables_sealed cy (committed w) j q t) \<and>
         wallet_view (committed w') = wallet_view (committed w)"
proof -
  from assms(3) obtain w1 enc w2 where
    c: "new_seed cy w = (Val s, w1)" "seal cy s p w1 = (Val enc, w2)"
      "pg_exec pool (UpsertKeystore i (env_salt enc) (env_nonce enc) (env_ciphertext enc)) w2 = (Val (), w')"
    by (auto simp: pk_create_def io_bind_eq_Val_iff)
  have keeps: "random_keeps cy (\<lambda>v. inv v \<and> committed v = committed w)" and "aead_ok cy"
    using assms(1) by (simp_all add: crypto_trusted_def)
  have "inv w1 \<and> committed w1 = committed w"
    using io_keepsD[OF new_seed_keeps[OF keeps] _ c(1)] assms(2) by blast
  then have w2: "inv w2 \<and> committed w2 = committed w"
    using io_keepsD[OF seal_keeps[OF keeps] _ c(2)] by blast
  then have "inv w'" "runs [UpsertKeystore i (env_salt enc) (env_nonce enc) (env_ciphertext enc)]
      (committed w) (committed w')"
    using exec_ok[OF _ c(3)] by auto
  moreover from open_seal[OF \<open>aead_ok cy\<close> c(2)] have
    "open_envelope cy \<lparr>env_salt = env_salt enc, env_nonce = env_nonce enc, env_ciphertext = env_ciphertext enc\<rparr> p = Val s"
    by (cases enc) simp
  ultimately show ?thesis using runs_keystore[of i "env_salt enc" "env_nonce enc" "env_ciphertext enc" _ _ cy]
    by (auto simp: fun_eq_iff wallet_view_def)
qed

lemma pk_unlock_ok:
  assumes "inv w" and "pk_unlock pool cy i p w = (r, w')"
  shows "inv w' \<and> committed w' = committed w \<and> (\<forall>t. r = Val t \<longrightarrow> tables_sealed cy (committed w) i p t)"
proof -
  obtain q w1 where q: "pg_keystore_of pool i w = (q, w1)" by fastforce
  from keystore_of_ok[OF assms(1) q] assms(2) q show ?thesis
    by (cases q) (auto simp: pk_unlock_def io_bind_def io_try_def tables_sealed_def split: if_splits)
qed

end

sublocale postgres \<subseteq> keys: sealed_keys "postgres_key_store pool cy lib"
    "\<lambda>w. tables_sealed cy (committed w)" inv "crypto_trusted cy committed inv"
  for cy lib
proof (unfold_locales, goal_cases)
  case (1 w i p s w')
  then have "pk_create pool cy i p w = (Val s, w')" by (simp add: postgres_key_store_def)
  from pk_create_ok[OF 1(1,2) this] show ?case by blast
next
  case (2 w i p t w')
  then show ?case using pk_unlock_ok[OF 2(1), of cy i p "Val t" w'] by (simp add: postgres_key_store_def)
next
  case (3 w i p s t)
  then show ?case by (auto simp: tables_sealed_def)
next
  case (4 w i p sg w')
  then show ?case by (auto simp: postgres_key_store_def pk_signer_def io_bind_eq_Val_iff)
qed

section \<open>What the stores give back\<close>

text \<open>
  C17. A seed created for a wallet is what \<open>Unlock\<close> with the same passphrase gives back, from the
  database as well; the seeds of other wallets stay sealed as they were; and because of the
  foreign key a seed can only be created for a wallet that has been saved.
\<close>

theorem keystore_create_unlock:
  assumes "postgres pool committed working ok" and "crypto_trusted cy committed ok" and "ok w"
    and "pk_create pool cy i p w = (Val s, w1)"
  shows "(\<forall>t w2. pk_unlock pool cy i p w1 = (Val t, w2) \<longrightarrow> t = s) \<and>
         (\<forall>j q t u w2. j \<noteq> i \<longrightarrow> tables_sealed cy (committed w) j q t \<longrightarrow>
            pk_unlock pool cy j q w1 = (Val u, w2) \<longrightarrow> u = t) \<and>
         i \<in> wlr_id ` set (tb_wallets (committed w1))"
proof -
  note c = postgres.pk_create_ok[OF assms(1,2,3,4)]
  then have w1: "ok w1" by blast
  have "t = s" if "pk_unlock pool cy i p w1 = (Val t, w2)" for t w2
    using postgres.pk_unlock_ok[OF assms(1) w1 that] c by (auto simp: tables_sealed_def)
  moreover have "u = t" if "j \<noteq> i" "tables_sealed cy (committed w) j q t" "pk_unlock pool cy j q w1 = (Val u, w2)"
    for j q t u w2
  proof -
    have "tables_sealed cy (committed w1) j q t" using c that(1,2) by blast
    then show ?thesis
      using postgres.pk_unlock_ok[OF assms(1) w1 that(3)] by (auto simp: tables_sealed_def)
  qed
  moreover have "i \<in> wlr_id ` set (tb_wallets (committed w1))"
  proof -
    from c obtain row where "row \<in> set (tb_keystore (committed w1))" "ksr_wallet row = i"
      by (auto simp: tables_sealed_def find_Some_iff dest: nth_mem)
    then show ?thesis
      using postgres.schema[OF assms(1) w1] by (auto simp: schema_ok_def keystore_ok_def)
  qed
  ultimately show ?thesis by blast
qed

text \<open>A cipher that prefixes the key.\<close>

definition sample_crypto :: "('w, bytes, bytes) crypto" where
  "sample_crypto = \<lparr>cy_new_entropy = (\<lambda>n. io_return [1]), cy_new_mnemonic = (\<lambda>e. Val ''abandon''),
     cy_new_seed = (\<lambda>m p. bytes_of m), cy_read_random = (\<lambda>n. io_return (replicate n 7)),
     cy_argon2id = (\<lambda>p s t m th l. take (unat l) (p @ s)), cy_new_cipher = (\<lambda>k. Val k), cy_new_gcm = (\<lambda>k. Val k),
     cy_nonce_size = (\<lambda>g. 12), cy_seal = (\<lambda>g n p. g @ p),
     cy_open = (\<lambda>g n c. if take (length g) c = g then Val (drop (length g) c) else Err (Foreign ''auth''))\<rparr>"

lemma sample_crypto_trusted: "crypto_trusted sample_crypto committed ok"
  by (simp add: crypto_trusted_def aead_ok_def random_keeps_def sample_crypto_def)

theorem keystore_create_unlock_witness:
  "\<exists>w1. pk_create sample_pool sample_crypto ''w1'' [5] sample_engine = (Val (bytes_of ''abandon''), w1) \<and>
     (\<forall>t w2. pk_unlock sample_pool sample_crypto ''w1'' [5] w1 = (Val t, w2) \<longrightarrow> t = bytes_of ''abandon'')"
proof -
  let ?m = "pk_create sample_pool sample_crypto ''w1'' [5]"
  let ?salt = "replicate 16 7 :: bytes" and ?nonce = "replicate 12 7 :: bytes"
  have "fst (pg_exec sample_pool (UpsertKeystore ''w1'' ?salt ?nonce ((5 # ?salt) @ bytes_of ''abandon''))
      sample_engine) = Val ()" by code_simp
  then have "fst (?m sample_engine) = Val (bytes_of ''abandon'')"
    by (auto simp: pk_create_def new_seed_def seal_def new_gcm_def io_bind_def io_wrap_def
        stretch_key_def argon_key_len_def salt_len_def sample_crypto_def split: prod.splits)
  from io_pair[where m = ?m, OF this] have
    c: "?m sample_engine = (Val (bytes_of ''abandon''), snd (?m sample_engine))" .
  note facts = keystore_create_unlock[OF sample_postgres sample_crypto_trusted sample_engine_ok c]
  show ?thesis by (intro exI conjI, rule c, rule conjunct1[OF facts])
qed

end
