(* ===== verification/Tron.thy ===== *)
theory Tron
  imports JsonRaw HdWallet Ports
begin

text \<open>
  \<^verbatim>\<open>internal/adapter/chain/tron/adapter.go\<close>: the adapter that speaks JSON over HTTP. The HTTP
  client is a record with the outcome of a request; requests and replies are JSON text.
  base58check and the key-to-address hash are functions of the library record.
\<close>

section \<open>Libraries and requests\<close>

record tron_lib =
  tl_check_decode :: "string \<Rightarrow> (bytes \<times> 8 word) go"
  tl_check_encode :: "bytes \<Rightarrow> 8 word \<Rightarrow> string"
  tl_pubkey_address :: "bytes \<Rightarrow> bytes"

record tron_info =
  ti_block_number :: int
  ti_receipt_result :: string

record 'w http_client =
  hc_new_request :: "string \<Rightarrow> go_error option"
  hc_do :: "string \<Rightarrow> bytes \<Rightarrow> ('w, nat \<times> bytes) io"

record tron_config =
  tron_rpc_url :: string

definition native_trx :: asset where
  "native_trx = native_asset ''TRX'' 6"

definition post_raw ::
  "tron_config \<Rightarrow> 'w http_client \<Rightarrow> string \<Rightarrow> bytes \<Rightarrow> (string \<Rightarrow> 'a go) \<Rightarrow> ('w, 'a) io" where
  "post_raw cfg hc path body decode =
     (case hc_new_request hc (tron_rpc_url cfg @ path) of
        Some e \<Rightarrow> io_fail e
      | None \<Rightarrow>
          io_bind (hc_do hc (tron_rpc_url cfg @ path) body) (\<lambda>(status, reply).
          if status \<noteq> 200 then io_fail (Errorf ''http %d'' [AInt (int status)])
          else io_lift (decode (text_of reply))))"

definition post ::
  "tron_config \<Rightarrow> 'w http_client \<Rightarrow> string \<Rightarrow> (string \<times> json) list \<Rightarrow> (string \<Rightarrow> 'a go) \<Rightarrow> ('w, 'a) io" where
  "post cfg hc path body decode = post_raw cfg hc path (bytes_of (json_print (map_json body))) decode"

definition to_hex_addr :: "tron_lib \<Rightarrow> address \<Rightarrow> string go" where
  "to_hex_addr lib addr =
     go_bind (go_wrap (Wrapf ''tron: bad address %s: %w'' [AStr addr]) (tl_check_decode lib addr)) (\<lambda>(raw, ver).
     Val (hex_encode [ver] @ hex_encode raw))"

section \<open>The adapter\<close>

definition tron_derive_account ::
  "tron_lib \<Rightarrow> 'k hdkeychain \<Rightarrow> bytes \<Rightarrow> derivation_path \<Rightarrow> account go" where
  "tron_derive_account lib hk seed path =
     go_bind (derive_key hk seed path) (\<lambda>key.
     go_bind (go_wrap (Wrapf ''tron: ec priv key: %w'' []) (hk_ec_priv_key hk key)) (\<lambda>privKey.
     Val \<lparr>acc_chain = ChainTron, acc_address = tl_check_encode lib (tl_pubkey_address lib privKey) 0x41,
          acc_path = path\<rparr>))"

definition balance_type :: go_type where
  "balance_type = anon_struct [(''Balance'', ''balance'', TyInt 64)]"

definition tron_balance ::
  "tron_lib \<Rightarrow> tron_config \<Rightarrow> 'w http_client \<Rightarrow> address \<Rightarrow> asset \<Rightarrow> ('w, amount) io" where
  "tron_balance lib cfg hc addr _ =
     io_bind (io_lift (to_hex_addr lib addr)) (\<lambda>hexA.
     io_bind (io_wrap (Wrapf ''tron: balance: %w'' [])
       (post cfg hc ''/wallet/getaccount'' [(''address'', JText hexA), (''visible'', JBoolean False)]
         (decode_stream balance_type))) (\<lambda>resp.
     io_return \<lparr>amt_asset = native_trx, amt_base = Some (the_int (field_value resp ''balance''))\<rparr>))"

definition tron_fee_of :: "transfer_request \<Rightarrow> fee_estimate" where
  "tron_fee_of req =
     \<lparr>fee_speed = req_speed req, fee_total = \<lparr>amt_asset = native_trx, amt_base = Some 268000\<rparr>,
      fee_params = [(''bandwidth_bytes'', ''268''), (''bandwidth_price'', ''1000'')]\<rparr>"

definition tron_estimate_fee :: "transfer_request \<Rightarrow> ('w, fee_estimate) io" where
  "tron_estimate_fee req = io_return (tron_fee_of req)"

text \<open>\<open>json.Unmarshal(rawTx, &apiErr) == nil && apiErr.Error != ""\<close>.\<close>

definition api_error :: "string \<Rightarrow> string option" where
  "api_error rawTx =
     (case unmarshal (anon_struct [(''Error'', ''Error'', TyString)]) rawTx of
        Val apiErr \<Rightarrow> (let msg = the_string (field_value apiErr ''Error'') in if msg \<noteq> [] then Some msg else None)
      | _ \<Rightarrow> None)"

text \<open>The body that asks for a transaction.\<close>

definition create_body :: "string \<Rightarrow> string \<Rightarrow> int \<Rightarrow> (string \<times> json) list" where
  "create_body fromHex toHex base =
     [(''owner_address'', JText fromHex), (''to_address'', JText toHex),
      (''amount'', JNumber (show_int (big_Int64 base))), (''visible'', JBoolean False)]"

definition tron_build_transfer ::
  "tron_lib \<Rightarrow> tron_config \<Rightarrow> 'w http_client \<Rightarrow> transfer_request \<Rightarrow> ('w, unsigned_tx) io" where
  "tron_build_transfer lib cfg hc req =
     io_bind (io_lift (to_hex_addr lib (req_from req))) (\<lambda>fromHex.
     io_bind (io_lift (to_hex_addr lib (req_to req))) (\<lambda>toHex.
     io_bind (io_lift (base_of (req_amount req))) (\<lambda>base.
     io_bind (io_wrap (Wrapf ''tron: create tx: %w'' [])
       (post cfg hc ''/wallet/createtransaction'' (create_body fromHex toHex base) decode_raw)) (\<lambda>rawTx.
     case api_error rawTx of
       Some msg \<Rightarrow> io_fail (Errorf ''tron: create tx: %s'' [AStr msg])
     | None \<Rightarrow> io_return \<lparr>utx_chain = ChainTron, utx_account = zero_account, utx_request = req,
                 utx_fee = tron_fee_of req, utx_payload = bytes_of rawTx\<rparr>))))"

definition tron_sign :: "unsigned_tx \<Rightarrow> signer \<Rightarrow> signed_tx go" where
  "tron_sign utx sg =
     go_bind (go_wrap (Wrapf ''tron: parse tx: %w'' []) (unmarshal_raw_object (text_of (utx_payload utx)))) (\<lambda>tx.
     go_bind (go_wrap (Wrapf ''tron: parse txID: %w'' []) (unmarshal TyString (raw_field tx ''txID''))) (\<lambda>v.
     let txID = the_string v in
     go_bind (go_wrap (Wrapf ''tron: decode txID: %w'' []) (hex_decode txID)) (\<lambda>digest.
     go_bind (go_wrap (Wrapf ''tron: sign: %w'' []) (sg_sign sg (utx_account utx) digest)) (\<lambda>sig.
     let sigJSON = json_print (JArray [JText (hex_encode sig)]);
         raw = raw_print (AList.update ''signature'' sigJSON tx)
     in Val \<lparr>stx_chain = ChainTron, stx_raw = bytes_of raw, stx_hash = txID\<rparr>))))"

definition reply_type :: go_type where
  "reply_type = anon_struct
     [(''Result'', ''result'', TyBool), (''Code'', ''code'', TyString), (''Message'', ''message'', TyString)]"

definition tron_broadcast :: "tron_config \<Rightarrow> 'w http_client \<Rightarrow> signed_tx \<Rightarrow> ('w, string) io" where
  "tron_broadcast cfg hc tx =
     io_bind (io_wrap (Wrapf ''tron: broadcast: %w'' [])
       (post_raw cfg hc ''/wallet/broadcasttransaction'' (stx_raw tx) (decode_stream reply_type))) (\<lambda>resp.
     if \<not> the_bool (field_value resp ''result'')
     then io_fail (Errorf ''tron: broadcast failed: %s %s''
            [AStr (the_string (field_value resp ''code'')), AStr (the_string (field_value resp ''message''))])
     else io_return (stx_hash tx))"

definition info_type :: go_type where
  "info_type = anon_struct
     [(''BlockNumber'', ''blockNumber'', TyInt 64),
      (''Receipt'', ''receipt'', anon_struct [(''Result'', ''result'', TyString)])]"

text \<open>
  The error of the second request is dropped: without an answer, or one that is not JSON, the
  fields are zero, and a decoding that fails half way leaves what it had filled in.
\<close>

definition decode_info :: "string \<Rightarrow> go_value go" where
  "decode_info s = Val (case first_value s of
      None \<Rightarrow> zero_value info_type | Some (v, rest) \<Rightarrow> fst (decode_into info_type v))"

definition tron_tx_info :: "tron_config \<Rightarrow> 'w http_client \<Rightarrow> string \<Rightarrow> ('w, tron_info) io" where
  "tron_tx_info cfg hc hash =
     io_bind (io_try (post cfg hc ''/wallet/gettransactioninfobyid'' [(''value'', JText hash)] decode_info)) (\<lambda>r.
     let v = (case r of Inl _ \<Rightarrow> zero_value info_type | Inr v \<Rightarrow> v)
     in io_return \<lparr>ti_block_number = the_int (field_value v ''blockNumber''),
          ti_receipt_result = the_string (field_value (field_value v ''receipt'') ''result'')\<rparr>)"

definition tron_status_of :: "tron_info \<Rightarrow> tx_status" where
  "tron_status_of info =
     (if 0 < ti_block_number info
      then (if ti_receipt_result info = ''FAILED'' then TxFailed else TxConfirmed)
      else TxPending)"

text \<open>
  \<open>txResp["txID"] == nil\<close>: a key that is missing; a JSON null decodes to the bytes of \<open>null\<close>.
\<close>

definition tron_get_transaction ::
  "tron_config \<Rightarrow> 'w http_client \<Rightarrow> string \<Rightarrow> ('w, transaction) io" where
  "tron_get_transaction cfg hc hash =
     io_bind (io_wrap (Wrapf ''tron: get tx: %w'' [])
       (post cfg hc ''/wallet/gettransactionbyid'' [(''value'', JText hash)] stream_raw_object)) (\<lambda>txResp.
     if txResp = [] \<or> map_of txResp ''txID'' = None
     then io_return (bare_transaction ChainTron hash TxUnknown)
     else io_bind (tron_tx_info cfg hc hash) (\<lambda>info.
       io_return ((bare_transaction ChainTron hash (tron_status_of info))
         \<lparr>tx_block_height := word_of_int (ti_block_number info)\<rparr>)))"

definition tron_adapter ::
  "tron_lib \<Rightarrow> tron_config \<Rightarrow> 'k hdkeychain \<Rightarrow> 'w http_client \<Rightarrow> 'w chain_adapter" where
  "tron_adapter lib cfg hk hc =
     \<lparr>ca_chain = ChainTron, ca_derive_account = tron_derive_account lib hk,
      ca_balance = tron_balance lib cfg hc, ca_estimate_fee = tron_estimate_fee,
      ca_build_transfer = tron_build_transfer lib cfg hc, ca_sign = tron_sign,
      ca_broadcast = tron_broadcast cfg hc, ca_get_transaction = tron_get_transaction cfg hc\<rparr>"

section \<open>Building, signing, sending\<close>

lemma post_raw_Val:
  "post_raw cfg hc path body decode w = (Val x, w') \<Longrightarrow>
     \<exists>reply. hc_do hc (tron_rpc_url cfg @ path) body w = (Val (200, reply), w') \<and> decode (text_of reply) = Val x"
  by (auto simp: post_raw_def io_bind_eq_Val_iff split: option.splits if_splits)

text \<open>
  C26. Build, sign, broadcast: when all three succeed, the node was asked for a transaction from and
  to the requested addresses over the low 64 bits of the amount; the signature is the given
  account's over the bytes of the transaction id in its answer; what is sent has the members of
  that answer, each as its text was, with the signature added and nothing else changed; the node
  accepted it; and the id is returned.
\<close>

theorem tron_lifecycle:
  assumes "tron_build_transfer lib cfg hc req w = (Val utx, w1)"
    and "tron_sign (utx\<lparr>utx_account := acc\<rparr>) sg = Val stx"
    and "tron_broadcast cfg hc stx w2 = (Val hash, w3)"
  shows "\<exists>fromHex toHex base reply raw rest tx digest sig sent resp.
     to_hex_addr lib (req_from req) = Val fromHex \<and> to_hex_addr lib (req_to req) = Val toHex \<and>
     amt_base (req_amount req) = Some base \<and>
     hc_do hc (tron_rpc_url cfg @ ''/wallet/createtransaction'')
       (bytes_of (json_print (map_json
          [(''owner_address'', JText fromHex), (''to_address'', JText toHex),
           (''amount'', JNumber (show_int (big_Int64 base))), (''visible'', JBoolean False)]))) w = (Val (200, reply), w1) \<and>
     raw_value (text_of reply) = Some (raw, rest) \<and> unmarshal_raw_object raw = Val tx \<and>
     unmarshal TyString (raw_field tx ''txID'') = Val (GString hash) \<and>
     hex_decode hash = Val digest \<and> sg_sign sg acc digest = Val sig \<and>
     stx_raw stx = bytes_of (raw_print (AList.update ''signature'' (json_print (JArray [JText (hex_encode sig)])) tx)) \<and>
     hc_do hc (tron_rpc_url cfg @ ''/wallet/broadcasttransaction'') (stx_raw stx) w2 = (Val (200, sent), w3) \<and>
     decode_stream reply_type (text_of sent) = Val resp \<and> the_bool (field_value resp ''result'')"
proof -
  from assms(1) obtain fromHex toHex base raw where
    b: "to_hex_addr lib (req_from req) = Val fromHex" "to_hex_addr lib (req_to req) = Val toHex"
      "amt_base (req_amount req) = Some base" "utx_payload utx = bytes_of raw"
    and p: "post cfg hc ''/wallet/createtransaction'' (create_body fromHex toHex base) decode_raw w = (Val raw, w1)"
    by (auto simp: tron_build_transfer_def io_bind_eq_Val_iff base_of_def split: option.splits)
  from post_raw_Val[OF p[unfolded post_def]] obtain reply rest where
    r: "hc_do hc (tron_rpc_url cfg @ ''/wallet/createtransaction'')
          (bytes_of (json_print (map_json (create_body fromHex toHex base)))) w = (Val (200, reply), w1)"
      "raw_value (text_of reply) = Some (raw, rest)"
    by (auto simp: decode_raw_def split: option.splits)
  from assms(2) obtain tx v digest sig where
    s: "unmarshal_raw_object raw = Val tx" "unmarshal TyString (raw_field tx ''txID'') = Val v"
      "stx_hash stx = the_string v" "hex_decode (stx_hash stx) = Val digest" "sg_sign sg acc digest = Val sig"
      "stx_raw stx = bytes_of (raw_print (AList.update ''signature'' (json_print (JArray [JText (hex_encode sig)])) tx))"
    by (auto simp: tron_sign_def go_bind_Val_iff b(4) Let_def)
  from unmarshal_typed[OF _ s(2)] have "has_type TyString v" by simp
  then have v: "v = GString (stx_hash stx)" using s(3) by (cases v) auto
  from assms(3) obtain resp where
    t: "post_raw cfg hc ''/wallet/broadcasttransaction'' (stx_raw stx) (decode_stream reply_type) w2 = (Val resp, w3)"
      "the_bool (field_value resp ''result'')" "hash = stx_hash stx"
    by (auto simp: tron_broadcast_def io_bind_eq_Val_iff split: if_splits)
  from post_raw_Val[OF t(1)] obtain sent where
    "hc_do hc (tron_rpc_url cfg @ ''/wallet/broadcasttransaction'') (stx_raw stx) w2 = (Val (200, sent), w3)"
    "decode_stream reply_type (text_of sent) = Val resp" by blast
  with b r s t v show ?thesis unfolding create_body_def by blast
qed

lemma tron_derive_chain: "tron_derive_account lib hk s p = Val acc \<Longrightarrow> acc_chain acc = ChainTron"
  by (auto simp: tron_derive_account_def go_bind_Val_iff)

text \<open>A node that answers every request with the same object.\<close>

definition sample_tron_lib :: tron_lib where
  "sample_tron_lib = \<lparr>tl_check_decode = (\<lambda>s. Val (bytes_of s, 0x41)), tl_check_encode = (\<lambda>b v. hex_encode b),
     tl_pubkey_address = (\<lambda>b. b)\<rparr>"

definition sample_tron_json :: json where
  "sample_tron_json = JObject [(''txID'', JText ''ab''), (''result'', JBoolean True)]"

definition sample_tron_reply :: string where
  "sample_tron_reply = ''{\"txID\":\"ab\",\"result\":true}''"

definition sample_http :: "unit http_client" where
  "sample_http = \<lparr>hc_new_request = (\<lambda>u. None), hc_do = (\<lambda>u b. io_return (200, bytes_of sample_tron_reply))\<rparr>"

definition sample_tron_request :: transfer_request where
  "sample_tron_request = \<lparr>req_network = \<lparr>net_chain = ChainTron, net_env = EnvLocal\<rparr>, req_from = ''a'', req_to = ''b'',
     req_amount = \<lparr>amt_asset = native_trx, amt_base = Some 5\<rparr>, req_speed = SpeedStandard\<rparr>"

definition sample_tron_signer :: signer where
  "sample_tron_signer = \<lparr>sg_sign = (\<lambda>a d. Val d), sg_public_key = (\<lambda>a. Val [])\<rparr>"

lemma sample_tron_value: "first_value sample_tron_reply = Some (sample_tron_json, [])"
  by code_simp

lemma sample_tron_raw: "raw_value sample_tron_reply = Some (sample_tron_reply, [])"
proof -
  have "dropWhile is_space sample_tron_reply = sample_tron_reply"
    by (simp add: sample_tron_reply_def is_space_def)
  then show ?thesis by (simp add: raw_value_def Let_def sample_tron_value)
qed

lemma sample_tron_members:
  "unmarshal_raw_object sample_tron_reply = Val [(''txID'', ''\"ab\"''), (''result'', ''true'')]"
  "unmarshal TyString ''\"ab\"'' = Val (GString ''ab'')"
  by code_simp+

lemma sample_tron_fields:
  "api_error sample_tron_reply = None"
  "\<exists>v. decode_stream reply_type sample_tron_reply = Val v \<and> the_bool (field_value v ''result'')"
proof -
  let ?fs = "[(''result'', TyBool), (''code'', TyString), (''message'', TyString)]"
  have keys: "field_of [(''Error'', TyString)] ''txID'' = None" "field_of [(''Error'', TyString)] ''result'' = None"
    "field_of ?fs ''txID'' = None" "field_of ?fs ''result'' = Some (''result'', TyBool)"
    by code_simp+
  obtain n where n: "anon_struct [(''Error'', ''Error'', TyString)] = TyStruct n [] [(''Error'', TyString)]"
    by (simp add: anon_struct_def Let_def)
  obtain m where m: "reply_type = TyStruct m [] ?fs"
    by (simp add: reply_type_def anon_struct_def Let_def)
  show "api_error sample_tron_reply = None"
    by (simp add: api_error_def unmarshal_def sample_tron_value decode_json_def decode_into_def n sample_tron_json_def
        unmarshal_struct keys)
  show "\<exists>v. decode_stream reply_type sample_tron_reply = Val v \<and> the_bool (field_value v ''result'')"
    by (simp add: decode_stream_def sample_tron_value decode_json_def decode_into_def m sample_tron_json_def
        unmarshal_struct keys unmarshal_value.simps[of _ TyBool] set_field_def)
qed

theorem tron_lifecycle_witness:
  "\<exists>utx stx digest. tron_build_transfer sample_tron_lib \<lparr>tron_rpc_url = []\<rparr> sample_http sample_tron_request () = (Val utx, ()) \<and>
     tron_sign (utx\<lparr>utx_account := zero_account\<rparr>) sample_tron_signer = Val stx \<and>
     hex_decode ''ab'' = Val digest \<and>
     stx_raw stx = bytes_of (raw_print (AList.update ''signature'' (json_print (JArray [JText (hex_encode digest)]))
       [(''txID'', ''\"ab\"''), (''result'', ''true'')]))"
proof -
  let ?cfg = "\<lparr>tron_rpc_url = []\<rparr>"
  let ?utx = "\<lparr>utx_chain = ChainTron, utx_account = zero_account, utx_request = sample_tron_request,
    utx_fee = tron_fee_of sample_tron_request, utx_payload = bytes_of sample_tron_reply\<rparr>"
  let ?stx = "\<lparr>stx_chain = ChainTron, stx_raw = bytes_of (raw_print (AList.update ''signature''
      (json_print (JArray [JText (hex_encode [171])])) [(''txID'', ''\"ab\"''), (''result'', ''true'')])), stx_hash = ''ab''\<rparr>"
  have hex: "hex_decode ''ab'' = Val [171]" by code_simp
  have build: "tron_build_transfer sample_tron_lib ?cfg sample_http sample_tron_request () = (Val ?utx, ())"
    by (simp add: tron_build_transfer_def io_bind_def io_wrap_def post_def post_raw_def to_hex_addr_def
        sample_tron_lib_def sample_http_def sample_tron_request_def base_of_def decode_raw_def sample_tron_raw sample_tron_fields)
  have sign: "tron_sign (?utx\<lparr>utx_account := zero_account\<rparr>) sample_tron_signer = Val ?stx"
    by (simp add: tron_sign_def sample_tron_members raw_field_def Let_def sample_tron_signer_def hex
        del: hex_decode.simps json_print.simps AList.update.simps)
  obtain v where v: "decode_stream reply_type sample_tron_reply = Val v" "the_bool (field_value v ''result'')"
    using sample_tron_fields(2) by blast
  have "tron_broadcast ?cfg sample_http ?stx () = (Val ''ab'', ())"
    by (simp add: tron_broadcast_def post_raw_def io_bind_def io_wrap_def sample_http_def v)
  from tron_lifecycle[OF build sign this] sample_tron_raw sample_tron_members(1) hex
  have "\<exists>digest. hex_decode ''ab'' = Val digest \<and> stx_raw ?stx = bytes_of (raw_print (AList.update ''signature''
      (json_print (JArray [JText (hex_encode digest)])) [(''txID'', ''\"ab\"''), (''result'', ''true'')]))"
    by (auto simp: sample_http_def)
  with build sign show ?thesis by blast
qed

end
