(* ===== verification/Solana.thy ===== *)
theory Solana
  imports HdWallet Ports
begin

text \<open>
  \<^verbatim>\<open>internal/adapter/chain/solana/adapter.go\<close>. solana-go is the record \<open>'t sol_lib\<close> (a
  transaction is an opaque \<open>'t\<close>, keys, blockhashes and signatures their bytes), the RPC client
  a record of calls.
\<close>

section \<open>Library and node\<close>

record 't sol_lib =
  so_ed_public :: "bytes \<Rightarrow> bytes"
  so_key_of_base58 :: "string \<Rightarrow> bytes go"
  so_key_string :: "bytes \<Rightarrow> string"
  so_transfer_tx :: "64 word \<Rightarrow> bytes \<Rightarrow> bytes \<Rightarrow> bytes \<Rightarrow> 't go"
  so_marshal :: "'t \<Rightarrow> bytes go"
  so_decode :: "bytes \<Rightarrow> 't go"
  so_message :: "'t \<Rightarrow> bytes go"
  so_set_signature :: "bytes \<Rightarrow> 't \<Rightarrow> 't"
  so_sig_string :: "bytes \<Rightarrow> string"
  so_sig_of_base58 :: "string \<Rightarrow> bytes go"

record sol_meta =
  sm_err :: bool
  sm_fee :: "64 word"

record sol_result =
  sr_slot :: "64 word"
  sr_meta :: "sol_meta option"

record ('w, 't) sol_client =
  sc_balance :: "bytes \<Rightarrow> ('w, 64 word) io"
  sc_latest_blockhash :: "('w, bytes) io"
  sc_send :: "'t \<Rightarrow> ('w, bytes) io"
  sc_get_transaction :: "bytes \<Rightarrow> ('w, sol_result) io"

definition native_sol :: asset where
  "native_sol = native_asset ''SOL'' 9"

definition sol_base_fee :: "64 word" where
  "sol_base_fee = 5000"

definition sol_not_found :: go_error where
  "sol_not_found = Foreign ''rpc.ErrNotFound''"

section \<open>The adapter\<close>

definition sol_derive_account :: "'t sol_lib \<Rightarrow> bytes \<Rightarrow> derivation_path \<Rightarrow> account go" where
  "sol_derive_account lib seed path =
     go_bind (derive_key_ed25519 seed path) (\<lambda>keySeed.
     if length keySeed \<noteq> 32 then Panic
     else Val \<lparr>acc_chain = ChainSolana, acc_address = so_key_string lib (so_ed_public lib keySeed), acc_path = path\<rparr>)"

definition sol_balance :: "'t sol_lib \<Rightarrow> ('w, 't) sol_client \<Rightarrow> address \<Rightarrow> asset \<Rightarrow> ('w, amount) io" where
  "sol_balance lib cl addr _ =
     io_bind (io_lift (go_wrap (Wrapf ''solana: invalid address %s: %w'' [AStr addr]) (so_key_of_base58 lib addr))) (\<lambda>pk.
     io_bind (io_wrap (Wrapf ''solana: balance %s: %w'' [AStr addr]) (sc_balance cl pk)) (\<lambda>v.
     io_return \<lparr>amt_asset = native_sol, amt_base = Some (uint v)\<rparr>))"

definition sol_fee_of :: "transfer_request \<Rightarrow> fee_estimate" where
  "sol_fee_of req =
     \<lparr>fee_speed = req_speed req, fee_total = \<lparr>amt_asset = native_sol, amt_base = Some (uint sol_base_fee)\<rparr>,
      fee_params = [(''lamports'', show_int (uint sol_base_fee))]\<rparr>"

definition sol_estimate_fee :: "transfer_request \<Rightarrow> ('w, fee_estimate) io" where
  "sol_estimate_fee req = io_return (sol_fee_of req)"

definition sol_build_transfer ::
  "'t sol_lib \<Rightarrow> ('w, 't) sol_client \<Rightarrow> transfer_request \<Rightarrow> ('w, unsigned_tx) io" where
  "sol_build_transfer lib cl req =
     io_bind (io_lift (go_wrap (Wrapf ''solana: invalid from address: %w'' []) (so_key_of_base58 lib (req_from req)))) (\<lambda>from_k.
     io_bind (io_lift (go_wrap (Wrapf ''solana: invalid to address: %w'' []) (so_key_of_base58 lib (req_to req)))) (\<lambda>to_k.
     io_bind (io_wrap (Wrapf ''solana: get blockhash: %w'' []) (sc_latest_blockhash cl)) (\<lambda>blockhash.
     io_bind (io_lift (base_of (req_amount req))) (\<lambda>base.
     io_bind (io_lift (go_wrap (Wrapf ''solana: build tx: %w'' [])
       (so_transfer_tx lib (word_of_int (big_Uint64 base)) from_k to_k blockhash))) (\<lambda>tx.
     io_bind (io_lift (go_wrap (Wrapf ''solana: serialize tx: %w'' []) (so_marshal lib tx))) (\<lambda>payload.
     io_return \<lparr>utx_chain = ChainSolana, utx_account = zero_account, utx_request = req,
                utx_fee = sol_fee_of req, utx_payload = payload\<rparr>))))))"

text \<open>\<open>copy(solSig[:], sig)\<close>: the first 64 bytes, zeros where there are fewer.\<close>

definition sol_signature :: "bytes \<Rightarrow> bytes" where
  "sol_signature sig = take 64 (sig @ replicate 64 0)"

definition sol_sign :: "'t sol_lib \<Rightarrow> unsigned_tx \<Rightarrow> signer \<Rightarrow> signed_tx go" where
  "sol_sign lib utx sg =
     go_bind (go_wrap (Wrapf ''solana: decode tx: %w'' []) (so_decode lib (utx_payload utx))) (\<lambda>tx.
     go_bind (go_wrap (Wrapf ''solana: marshal message: %w'' []) (so_message lib tx)) (\<lambda>msgBytes.
     go_bind (go_wrap (Wrapf ''solana: sign: %w'' []) (sg_sign sg (utx_account utx) msgBytes)) (\<lambda>sig.
     go_bind (go_wrap (Wrapf ''solana: marshal signed tx: %w'' [])
       (so_marshal lib (so_set_signature lib (sol_signature sig) tx))) (\<lambda>raw.
     Val \<lparr>stx_chain = ChainSolana, stx_raw = raw, stx_hash = so_sig_string lib (sol_signature sig)\<rparr>))))"

definition sol_broadcast :: "'t sol_lib \<Rightarrow> ('w, 't) sol_client \<Rightarrow> signed_tx \<Rightarrow> ('w, string) io" where
  "sol_broadcast lib cl stx =
     io_bind (io_lift (go_wrap (Wrapf ''solana: decode signed tx: %w'' []) (so_decode lib (stx_raw stx)))) (\<lambda>tx.
     io_bind (io_wrap (Wrapf ''solana: broadcast: %w'' []) (sc_send cl tx)) (\<lambda>sig.
     io_return (so_sig_string lib sig)))"

definition sol_result_tx :: "string \<Rightarrow> sol_result \<Rightarrow> transaction go" where
  "sol_result_tx hash result =
     (case sr_meta result of
        None \<Rightarrow> Panic
      | Some meta \<Rightarrow>
          (if sm_err meta then Val (bare_transaction ChainSolana hash TxFailed)
           else Val ((bare_transaction ChainSolana hash TxConfirmed)
             \<lparr>tx_block_height := sr_slot result,
              tx_fee := \<lparr>amt_asset = native_sol, amt_base = Some (uint (sm_fee meta))\<rparr>\<rparr>)))"

definition sol_get_transaction :: "'t sol_lib \<Rightarrow> ('w, 't) sol_client \<Rightarrow> string \<Rightarrow> ('w, transaction) io" where
  "sol_get_transaction lib cl hash =
     io_bind (io_lift (go_wrap (Wrapf ''solana: invalid signature %s: %w'' [AStr hash]) (so_sig_of_base58 lib hash))) (\<lambda>sig.
     io_bind (io_try (sc_get_transaction cl sig)) (\<lambda>r.
     case r of
       Inl e \<Rightarrow> (if errors_is e sol_not_found
                 then io_return (bare_transaction ChainSolana hash TxUnknown)
                 else io_fail (Wrapf ''solana: get tx %s: %w'' [AStr hash] e))
     | Inr result \<Rightarrow> io_lift (sol_result_tx hash result)))"

definition solana_adapter :: "'t sol_lib \<Rightarrow> ('w, 't) sol_client \<Rightarrow> 'w chain_adapter" where
  "solana_adapter lib cl =
     \<lparr>ca_chain = ChainSolana, ca_derive_account = sol_derive_account lib, ca_balance = sol_balance lib cl,
      ca_estimate_fee = sol_estimate_fee, ca_build_transfer = sol_build_transfer lib cl, ca_sign = sol_sign lib,
      ca_broadcast = sol_broadcast lib cl, ca_get_transaction = sol_get_transaction lib cl\<rparr>"

section \<open>What is paid\<close>

lemma sol_derive_chain: "sol_derive_account lib s p = Val acc \<Longrightarrow> acc_chain acc = ChainSolana"
  by (auto simp: sol_derive_account_def go_bind_Val_iff split: if_splits)

lemma sol_derive_no_panic: "sol_derive_account lib s p \<noteq> Panic"
  using derive_key_ed25519_length[of s p] derive_key_ed25519_no_panic[of s p]
  by (auto simp: sol_derive_account_def go_bind_Panic_iff)

text \<open>
  C39. The lamports of a built transfer are the low 64 bits of the absolute value of the requested
  amount. Within the range they are the amount; a negative amount is not refused but pays its
  absolute value, and one of $2^{64}$ or more pays the remainder.
\<close>

theorem solana_transfer_amount:
  assumes "sol_build_transfer lib cl req w = (Val utx, w')" and "amt_base (req_amount req) = Some a"
  shows "\<exists>lamports from_k to_k blockhash tx.
     so_transfer_tx lib lamports from_k to_k blockhash = Val tx \<and> so_marshal lib tx = Val (utx_payload utx) \<and>
     so_key_of_base58 lib (req_from req) = Val from_k \<and> so_key_of_base58 lib (req_to req) = Val to_k \<and>
     uint lamports = \<bar>a\<bar> mod 2 ^ 64 \<and>
     (0 \<le> a \<and> a < 2 ^ 64 \<longrightarrow> uint lamports = a) \<and> (- (2 ^ 64) < a \<and> a < 0 \<longrightarrow> uint lamports = - a)"
proof -
  from assms obtain from_k to_k blockhash tx where
    b: "so_key_of_base58 lib (req_from req) = Val from_k" "so_key_of_base58 lib (req_to req) = Val to_k"
      "so_transfer_tx lib (word_of_int (big_Uint64 a)) from_k to_k blockhash = Val tx"
      "so_marshal lib tx = Val (utx_payload utx)"
    by (auto simp: sol_build_transfer_def io_bind_eq_Val_iff)
  have "uint (word_of_int (big_Uint64 a) :: 64 word) = \<bar>a\<bar> mod 2 ^ 64"
    by (simp add: uint_word_of_int big_Uint64_def take_bit_eq_mod)
  then show ?thesis
    using b by (intro exI[of _ "word_of_int (big_Uint64 a)"] exI[of _ from_k] exI[of _ to_k]
        exI[of _ blockhash] exI[of _ tx]) auto
qed

definition sample_sol_lib :: "64 word sol_lib" where
  "sample_sol_lib = \<lparr>so_ed_public = (\<lambda>b. b), so_key_of_base58 = (\<lambda>s. Val (bytes_of s)), so_key_string = hex_encode,
     so_transfer_tx = (\<lambda>n f t b. Val n), so_marshal = (\<lambda>n. Val [ucast n]), so_decode = (\<lambda>b. Val 0),
     so_message = (\<lambda>t. Val []), so_set_signature = (\<lambda>s t. t), so_sig_string = hex_encode,
     so_sig_of_base58 = (\<lambda>s. Val (bytes_of s))\<rparr>"

definition sample_sol_client :: "(unit, 64 word) sol_client" where
  "sample_sol_client = \<lparr>sc_balance = (\<lambda>k. io_return 0), sc_latest_blockhash = io_return [],
     sc_send = (\<lambda>t. io_return []), sc_get_transaction = (\<lambda>s. io_fail sol_not_found)\<rparr>"

definition sample_sol_request :: transfer_request where
  "sample_sol_request = \<lparr>req_network = \<lparr>net_chain = ChainSolana, net_env = EnvLocal\<rparr>, req_from = ''a'', req_to = ''b'',
     req_amount = \<lparr>amt_asset = native_sol, amt_base = Some (- 5)\<rparr>, req_speed = SpeedStandard\<rparr>"

theorem solana_transfer_amount_witness:
  "\<exists>lamports from_k to_k blockhash tx.
     so_transfer_tx sample_sol_lib lamports from_k to_k blockhash = Val tx \<and> uint lamports = 5"
proof -
  have "\<exists>utx. sol_build_transfer sample_sol_lib sample_sol_client sample_sol_request () = (Val utx, ())"
    by (simp add: sol_build_transfer_def io_bind_def io_wrap_def sample_sol_lib_def sample_sol_client_def
        sample_sol_request_def base_of_def)
  then obtain utx where "sol_build_transfer sample_sol_lib sample_sol_client sample_sol_request () = (Val utx, ())"
    by blast
  moreover have "amt_base (req_amount sample_sol_request) = Some (- 5)" by (simp add: sample_sol_request_def)
  ultimately obtain lamports from_k to_k blockhash tx where
    "so_transfer_tx sample_sol_lib lamports from_k to_k blockhash = Val tx"
    "- (2 ^ 64) < (- 5 :: int) \<and> (- 5 :: int) < 0 \<longrightarrow> uint lamports = - (- 5)"
    by (metis solana_transfer_amount)
  moreover from this(2) have "uint lamports = 5" by simp
  ultimately show ?thesis by blast
qed

end
