(* ===== verification/Services.thy ===== *)
theory Services
  imports Keystore Registry Evm BitcoinFacts Tron Solana
begin

text \<open>
  \<^verbatim>\<open>internal/app\<close>: the wallet and the transaction service, written over the ports. What a
  created wallet is worth is proved once, in the locale \<open>wallet_service\<close>, from the contracts of
  the registry, the wallet repository and the key store; the adapters of the program are put in
  afterwards.
\<close>

section \<open>The wallet service\<close>

text \<open>\<open>time.Now\<close>; reading the clock may take time but changes nothing else.\<close>

type_synonym 'w clock = "('w, time) io"

definition bip44_coin_type :: "chain_id \<Rightarrow> nat" where
  "bip44_coin_type chain =
     (if chain = ChainEthereum then 60 else if chain = ChainBase then 60
      else if chain = ChainBitcoin then 0 else if chain = ChainSolana then 501
      else if chain = ChainTron then 195 else 0)"

definition bip44_path :: "chain_id \<Rightarrow> derivation_path" where
  "bip44_path chain =
     ''m/44'' @ [apostrophe] @ ''/'' @ show_nat (bip44_coin_type chain) @ [apostrophe] @
     ''/0'' @ [apostrophe] @ ''/0/0''"

text \<open>The loop over the supported chains; a chain whose account cannot be derived is left out.\<close>

fun derive_accounts :: "('w, 'c) registry_port \<Rightarrow> bytes \<Rightarrow> chain_id list \<Rightarrow> account list go" where
  "derive_accounts rg seed [] = Val []"
| "derive_accounts rg seed (chain # ids) =
     (case rg_adapter rg chain of
        Err e \<Rightarrow> derive_accounts rg seed ids
      | Panic \<Rightarrow> Panic
      | Val adapter \<Rightarrow>
          (case ca_derive_account adapter seed (bip44_path chain) of
             Err e \<Rightarrow> derive_accounts rg seed ids
           | Panic \<Rightarrow> Panic
           | Val account \<Rightarrow> go_bind (derive_accounts rg seed ids) (\<lambda>accounts. Val (account # accounts))))"

definition wallet_create ::
  "('w, 'c) registry_port \<Rightarrow> 'w key_store \<Rightarrow> 'w wallet_repo \<Rightarrow> 'w clock \<Rightarrow> string \<Rightarrow> bytes \<Rightarrow> ('w, wallet) io" where
  "wallet_create rg keys repo now label passphrase =
     io_bind now (\<lambda>t1.
     io_bind now (\<lambda>t2.
     let w = \<lparr>w_id = ''w'' @ show_int (int64 t1), w_label = label, w_created = t2, w_accounts = []\<rparr>
     in io_bind (io_wrap (Wrapf ''wallet: save: %w'' []) (wr_save repo w)) (\<lambda>_.
        io_bind (io_wrap (Wrapf ''wallet: create keys: %w'' []) (ks_create keys (w_id w) passphrase)) (\<lambda>seed.
        io_bind (io_lift (derive_accounts rg seed (rg_supported rg))) (\<lambda>accounts.
        let w' = w\<lparr>w_accounts := accounts\<rparr>
        in io_bind (io_wrap (Wrapf ''wallet: save accounts: %w'' []) (wr_save repo w')) (\<lambda>_.
           io_return w'))))))"

definition wallet_get :: "'w wallet_repo \<Rightarrow> string \<Rightarrow> ('w, wallet) io" where
  "wallet_get repo i = wr_get repo i"

definition wallet_list :: "'w wallet_repo \<Rightarrow> ('w, wallet list) io" where
  "wallet_list repo = wr_list repo"

definition wallet_balance ::
  "('w, 'c) registry_port \<Rightarrow> 'w wallet_repo \<Rightarrow> string \<Rightarrow> chain_id \<Rightarrow> ('w, amount) io" where
  "wallet_balance rg repo walletID chain =
     io_bind (wr_get repo walletID) (\<lambda>wallet.
     case wallet_account wallet chain of
       None \<Rightarrow> io_fail (Errorf ''wallet: no account for chain %s'' [AStr chain])
     | Some account \<Rightarrow>
         io_bind (io_lift (rg_adapter rg chain)) (\<lambda>adapter.
         ca_balance adapter (acc_address account) (zero_asset\<lparr>asset_native := True\<rparr>)))"

section \<open>The transaction service\<close>

definition tx_estimate_fee :: "('w, 'c) registry_port \<Rightarrow> transfer_request \<Rightarrow> ('w, fee_estimate) io" where
  "tx_estimate_fee rg req =
     io_bind (io_lift (rg_adapter rg (net_chain (req_network req)))) (\<lambda>adapter. ca_estimate_fee adapter req)"

definition tx_transfer ::
  "('w, 'c) registry_port \<Rightarrow> 'w key_store \<Rightarrow> 'w wallet_repo \<Rightarrow> string \<Rightarrow> bytes \<Rightarrow> transfer_request \<Rightarrow> ('w, string) io" where
  "tx_transfer rg keys repo walletID passphrase req =
     io_bind (io_lift (rg_adapter rg (net_chain (req_network req)))) (\<lambda>adapter.
     io_bind (wr_get repo walletID) (\<lambda>wallet.
     case wallet_account wallet (net_chain (req_network req)) of
       None \<Rightarrow> io_fail (Errorf ''transaction: no account for chain %s'' [AStr (net_chain (req_network req))])
     | Some account \<Rightarrow>
         io_bind (ks_signer keys walletID passphrase) (\<lambda>sg.
         io_bind (ca_build_transfer adapter req) (\<lambda>unsigned.
         io_bind (io_lift (ca_sign adapter (unsigned\<lparr>utx_account := account\<rparr>) sg)) (\<lambda>signed.
         ca_broadcast adapter signed)))))"

definition tx_status_of :: "('w, 'c) registry_port \<Rightarrow> chain_id \<Rightarrow> string \<Rightarrow> ('w, transaction) io" where
  "tx_status_of rg chain hash =
     io_bind (io_lift (rg_adapter rg chain)) (\<lambda>adapter. ca_get_transaction adapter hash)"

section \<open>The derived accounts\<close>

lemma show_nat_digit: "show_nat 0 = ''0''" "show_nat 44 = ''44''"
  by code_simp+

lemma bip44_path_render:
  "bip44_path chain = render_path [(44, True), (bip44_coin_type chain, True), (0, True), (0, False), (0, False)]"
  by (simp add: bip44_path_def render_path_def render_component_def show_nat_digit)

lemma bip44_coin_small: "bip44_coin_type chain < 2 ^ 32"
  by (simp add: bip44_coin_type_def)

lemma parse_bip44:
  "parse_path (bip44_path chain) =
     Val [index_of (44, True), index_of (bip44_coin_type chain, True), index_of (0, True), 0, 0]"
  unfolding bip44_path_render using bip44_coin_small[of chain]
  by (subst parse_path_render) (auto simp: index_of_def)

lemma bip44_not_ed25519: "\<nexists>k. derive_key_ed25519 seed (bip44_path chain) = Val k"
  unfolding derive_key_ed25519_iff parse_bip44 by (simp add: hardened_key_start_def)

lemma derive_accounts_mem:
  assumes "derive_accounts rg seed ids = Val accs"
  shows "acc \<in> set accs \<longleftrightarrow> (\<exists>c \<in> set ids. \<exists>a. rg_adapter rg c = Val a \<and>
           ca_derive_account a seed (bip44_path c) = Val acc)"
  using assms
proof (induction ids arbitrary: accs)
  case (Cons c ids)
  then show ?case by (auto split: go.splits simp: go_bind_Val_iff)
qed simp

lemma derive_accounts_chains:
  assumes "derive_accounts rg seed ids = Val accs" and "distinct ids"
    and "\<And>c a s p acc. rg_adapter rg c = Val a \<Longrightarrow> ca_derive_account a s p = Val acc \<Longrightarrow> acc_chain acc = c"
  shows "distinct (map acc_chain accs) \<and> acc_chain ` set accs \<subseteq> set ids"
  using assms(1,2)
proof (induction ids arbitrary: accs)
  case (Cons c ids)
  consider (skip) "derive_accounts rg seed ids = Val accs"
    | (derived) a acc rest where "rg_adapter rg c = Val a" "ca_derive_account a seed (bip44_path c) = Val acc"
        "derive_accounts rg seed ids = Val rest" "accs = acc # rest"
    using Cons.prems(1) by (auto split: go.splits simp: go_bind_Val_iff)
  then show ?case
  proof cases
    case skip
    with Cons.IH[OF skip] Cons.prems(2) show ?thesis by auto
  next
    case derived
    with Cons.IH[OF derived(3)] Cons.prems(2) assms(3)[OF derived(1,2)] show ?thesis by auto
  qed
qed simp

section \<open>What a created wallet is worth\<close>

locale wallet_service =
  registry_laws rg + wallet_store repo view inv + sealed_keys keys sealed inv trusted
  for rg :: "('w, 'c) registry_port" and repo view inv
    and keys :: "'w key_store" and sealed and trusted +
  fixes now :: "'w clock"
  assumes now_ok: "\<lbrakk>inv w; now w = (Val t, w')\<rbrakk> \<Longrightarrow> inv w' \<and> sealed w' = sealed w"
    and create_keeps_wallets:
      "\<lbrakk>trusted; inv w; ks_create keys i p w = (Val s, w')\<rbrakk> \<Longrightarrow> view w' = view w"
    and save_keeps_keys: "\<lbrakk>inv w; wr_save repo x w = (Val (), w')\<rbrakk> \<Longrightarrow> sealed w' = sealed w"
begin

lemma create_steps:
  assumes "wallet_create rg keys repo now label p w = (Val x, w')"
  obtains t1 w1 t2 w2 w3 seed w4 where
    "now w = (Val t1, w1)" "now w1 = (Val t2, w2)"
    "w_id x = ''w'' @ show_int (int64 t1)" "w_label x = label" "w_created x = t2"
    "wr_save repo (x\<lparr>w_accounts := []\<rparr>) w2 = (Val (), w3)"
    "ks_create keys (w_id x) p w3 = (Val seed, w4)"
    "derive_accounts rg seed (rg_supported rg) = Val (w_accounts x)"
    "wr_save repo x w4 = (Val (), w')"
  using assms by (auto simp: wallet_create_def io_bind_eq_Val_iff Let_def)

lemma created_distinct:
  assumes "wallet_create rg keys repo now label p w = (Val x, w')"
  shows "distinct_chains x"
proof -
  from assms obtain seed where "derive_accounts rg seed (rg_supported rg) = Val (w_accounts x)"
    by (rule create_steps)
  from derive_accounts_chains[OF this supported_distinct derive_chain] show ?thesis
    by (simp add: distinct_chains_def)
qed

lemma create_worth:
  assumes trusted and "inv w" and "wallet_create rg keys repo now label p w = (Val x, w')"
  shows "inv w' \<and> distinct_chains x \<and> w_label x = label \<and>
         (\<exists>v. view w' (w_id x) = Some v \<and> stored_as x v) \<and>
         (\<exists>seed. sealed w' (w_id x) p seed \<and>
            (\<forall>acc. acc \<in> set (w_accounts x) \<longleftrightarrow> (\<exists>c a. rg_adapter rg c = Val a \<and>
               ca_derive_account a seed (bip44_path c) = Val acc)))"
proof -
  from assms(3) obtain t1 w1 t2 w2 w3 seed w4 where s:
    "now w = (Val t1, w1)" "now w1 = (Val t2, w2)" "w_label x = label"
    "wr_save repo (x\<lparr>w_accounts := []\<rparr>) w2 = (Val (), w3)"
    "ks_create keys (w_id x) p w3 = (Val seed, w4)"
    "derive_accounts rg seed (rg_supported rg) = Val (w_accounts x)"
    "wr_save repo x w4 = (Val (), w')"
    by (rule create_steps)
  have w2: "inv w2" using now_ok s(1,2) assms(2) by blast
  have "distinct_chains (x\<lparr>w_accounts := []\<rparr>)" by (simp add: distinct_chains_def)
  then have w3: "inv w3" using save_ok[OF w2 _ s(4)] by blast
  note k = create_ok[OF assms(1) w3 s(5)]
  then have w4: "inv w4" by blast
  note d = created_distinct[OF assms(3)]
  from derive_accounts_mem[OF s(6)] supported_iff have
    "acc \<in> set (w_accounts x) \<longleftrightarrow> (\<exists>c a. rg_adapter rg c = Val a \<and>
       ca_derive_account a seed (bip44_path c) = Val acc)" for acc
    by blast
  moreover have "sealed w' (w_id x) p seed" using k save_keeps_keys[OF w4 s(7)] by simp
  ultimately show ?thesis using save_ok[OF w4 d s(7)] d s(3) by blast
qed

text \<open>After creating: what is read back, and what the passphrase unlocks.\<close>

lemma create_then_use:
  assumes trusted and "inv w" and "wallet_create rg keys repo now label p w = (Val x, w1)"
    and "wr_get repo (w_id x) w1 = (Val y, w2)" and "ks_unlock keys (w_id x) p w2 = (Val seed, w3)"
    and "\<forall>u v. inv u \<longrightarrow> wr_get repo (w_id x) u = (Val y, v) \<longrightarrow> sealed v = sealed u"
  shows "stored_as x y \<and>
         (\<forall>acc. acc \<in> set (w_accounts x) \<longleftrightarrow> (\<exists>c a. rg_adapter rg c = Val a \<and>
            ca_derive_account a seed (bip44_path c) = Val acc))"
proof -
  from create_worth[OF assms(1-3)] obtain v s where c: "inv w1" "view w1 (w_id x) = Some v" "stored_as x v"
    "sealed w1 (w_id x) p s"
    "\<forall>acc. acc \<in> set (w_accounts x) \<longleftrightarrow> (\<exists>c a. rg_adapter rg c = Val a \<and>
       ca_derive_account a s (bip44_path c) = Val acc)"
    by blast
  from get_ok[OF c(1) assms(4)] c(2) have y: "inv w2" "same_wallet v y" by auto
  have "sealed w2 (w_id x) p s" using assms(6) c(1,4) assms(4) by metis
  with unlock_ok[OF y(1) assms(5)] sealed_unique have "seed = s" by blast
  with c y stored_as_same show ?thesis by blast
qed

end

section \<open>The registry of the program\<close>

text \<open>The adapters both commands register, in that order.\<close>

definition all_adapters ::
  "'tx evm_lib \<Rightarrow> config \<Rightarrow> 'k hdkeychain \<Rightarrow> ('w, 'tx) evm_client \<Rightarrow> ('w, 'tx) evm_client \<Rightarrow>
   btc_lib \<Rightarrow> (utxo list \<Rightarrow> utxo list) \<Rightarrow> 'w btc_node \<Rightarrow> 's sol_lib \<Rightarrow> ('w, 's) sol_client \<Rightarrow>
   tron_lib \<Rightarrow> 'w http_client \<Rightarrow> 'w chain_adapter list" where
  "all_adapters elib conf hk eth base blib srt btc slib sol tlib http =
     [evm_adapter elib \<lparr>cfg_rpc_url = evm_rpc_url (conf_ethereum conf),
        cfg_chain_id = evm_chain_id (conf_ethereum conf), cfg_chain = ChainEthereum\<rparr> hk eth,
      evm_adapter elib \<lparr>cfg_rpc_url = evm_rpc_url (conf_base conf),
        cfg_chain_id = evm_chain_id (conf_base conf), cfg_chain = ChainBase\<rparr> hk base,
      bitcoin_adapter blib srt hk btc,
      solana_adapter slib sol,
      tron_adapter tlib \<lparr>tron_rpc_url = conf_tron_url conf\<rparr> hk http]"

lemma evm_derives: "derives_own_chain (evm_adapter lib cfg hk cl)"
  by (auto simp: derives_own_chain_def evm_adapter_def evm_derive_account_def go_bind_Val_iff)

lemma bitcoin_derives: "derives_own_chain (bitcoin_adapter lib srt hk node)"
  by (auto simp: derives_own_chain_def bitcoin_adapter_def btc_derive_account_def go_bind_Val_iff)

lemma solana_derives: "derives_own_chain (solana_adapter lib cl)"
  by (auto simp: derives_own_chain_def solana_adapter_def dest: sol_derive_chain)

lemma tron_derives: "derives_own_chain (tron_adapter lib cfg hk hc)"
  by (auto simp: derives_own_chain_def tron_adapter_def dest: tron_derive_chain)

definition program_registry ::
  "(chain_id list \<Rightarrow> chain_id list) \<Rightarrow> 'w chain_adapter list \<Rightarrow> ('w, 'c) registry_port" where
  "program_registry ord adapters = registry_as_port ord (new_registry adapters)"

interpretation program: registry_laws
  "program_registry ord (all_adapters elib conf hk eth base blib srt btc slib sol tlib http)"
  unfolding program_registry_def
  by (rule registry_laws_new)
    (auto simp: all_adapters_def evm_derives bitcoin_derives solana_derives tron_derives)

lemma program_adapter:
  "rg_adapter (program_registry ord (all_adapters elib conf hk eth base blib srt btc slib sol tlib http)) c = Val a \<Longrightarrow>
     a \<in> set (all_adapters elib conf hk eth base blib srt btc slib sol tlib http) \<and> ca_chain a = c"
  using find_SomeD[of "\<lambda>a. ca_chain a = c"
      "rev (all_adapters elib conf hk eth base blib srt btc slib sol tlib http)" a]
  by (simp add: program_registry_def registry_as_port_def registry_adapter_new)

lemma program_registered:
  assumes "a \<in> set (all_adapters elib conf hk eth base blib srt btc slib sol tlib http)"
  shows "rg_adapter (program_registry ord (all_adapters elib conf hk eth base blib srt btc slib sol tlib http))
           (ca_chain a) = Val a"
proof -
  have chains: "ca_chain (evm_adapter l c h k) = cfg_chain c" "ca_chain (bitcoin_adapter bl s h n) = ChainBitcoin"
    "ca_chain (solana_adapter sl sc) = ChainSolana" "ca_chain (tron_adapter tl tc h hc) = ChainTron"
    for l c and h :: "'k hdkeychain" and k bl s n sl sc tl tc hc
    by (simp_all add: evm_adapter_def bitcoin_adapter_def solana_adapter_def tron_adapter_def)
  have "a = find_adapter" if "find (\<lambda>b. ca_chain b = ca_chain a)
      (rev (all_adapters elib conf hk eth base blib srt btc slib sol tlib http)) = Some find_adapter" for find_adapter
    using assms that by (auto simp: all_adapters_def chains chain_defs split: if_splits)
  moreover have "find (\<lambda>b. ca_chain b = ca_chain a)
      (rev (all_adapters elib conf hk eth base blib srt btc slib sol tlib http)) \<noteq> None"
    using assms by (auto simp: find_None_iff)
  ultimately show ?thesis
    by (auto simp: program_registry_def registry_as_port_def registry_adapter_new)
qed

lemma program_solana:
  "rg_adapter (program_registry ord (all_adapters elib conf hk eth base blib srt btc slib sol tlib http)) ChainSolana
     = Val (solana_adapter slib sol)"
  by (simp add: program_registry_def registry_as_port_def registry_adapter_new all_adapters_def
      tron_adapter_def solana_adapter_def chain_defs)

section \<open>The service over Postgres\<close>

lemma run_wallet_stmt_keystore:
  "run_stmt env (UpsertWallet i l t) T = Some (T', k) \<Longrightarrow> tb_keystore T' = tb_keystore T"
  "run_stmt env (account_stmt i a) T = Some (T', k) \<Longrightarrow> tb_keystore T' = tb_keystore T"
  by (auto simp: run_stmt_Some upsert_wallet_def account_stmt_def upsert_account_def)

lemma runs_accounts_keystore:
  "runs (map (account_stmt i) as) T T' \<Longrightarrow> tb_keystore T' = tb_keystore T"
  by (induction as arbitrary: T) (auto elim!: runs_consE runs_nilE dest!: run_wallet_stmt_keystore)

lemma runs_wallet_keystore: "runs (wallet_stmts x) T T' \<Longrightarrow> tb_keystore T' = tb_keystore T"
  unfolding wallet_stmts_def
  by (erule runs_consE) (auto dest!: run_wallet_stmt_keystore runs_accounts_keystore)

context postgres
begin

lemma wallet_service_laws:
  assumes "registry_laws rg"
    and "\<forall>w t w'. inv w \<longrightarrow> now w = (Val t, w') \<longrightarrow> inv w' \<and> committed w' = committed w"
  shows "wallet_service rg (postgres_repo pool) (\<lambda>w. wallet_view (committed w)) inv
           (postgres_key_store pool cy lib) (\<lambda>w. tables_sealed cy (committed w))
           (crypto_trusted cy committed inv) now"
proof (intro wallet_service.intro wallet_service_axioms.intro, goal_cases)
  case 1
  then show ?case by (rule assms(1))
next
  case 2
  then show ?case by (rule wallets.wallet_store_axioms)
next
  case 3
  then show ?case by (rule keys.sealed_keys_axioms)
next
  case (4 w t w')
  then show ?case using assms(2) by simp
next
  case (5 w i p s w')
  then have "pk_create pool cy i p w = (Val s, w')" by (simp add: postgres_key_store_def)
  from pk_create_ok[OF 5(1,2) this] show ?case by blast
next
  case (6 w x w')
  then have "runs (wallet_stmts x) (committed w) (committed w')"
    using pg_save_atomic[of w x "Val ()" w'] by (simp add: postgres_repo_def)
  from runs_wallet_keystore[OF this] show ?case by (simp add: fun_eq_iff tables_sealed_def)
qed

end

definition en_clock :: "engine clock" where
  "en_clock w = (Val (int (en_tick w)), en_step w)"

interpretation engine_service: wallet_service
  "program_registry ord (all_adapters elib conf hk eth base blib srt btc slib sol tlib http)"
  "postgres_repo (serial_pool word aord)" "\<lambda>w. wallet_view (en_tables w)" engine_ok
  "postgres_key_store (serial_pool word aord) cy lib" "\<lambda>w. tables_sealed cy (en_tables w)"
  "crypto_trusted cy en_tables engine_ok" en_clock
  by (rule engine.wallet_service_laws) (auto intro: program.registry_laws_axioms simp: en_clock_def)

text \<open>
  C3. After a wallet has been created, reading it back gives its label and every account; and the
  seed its passphrase unlocks derives, over the BIP-44 path of each chain and the adapters of
  the program, exactly the accounts it was given.
\<close>

theorem created_wallet_is_usable:
  assumes "postgres pool committed working ok" and "crypto_trusted cy committed ok" and "ok w"
    and "\<forall>v t v'. ok v \<longrightarrow> now v = (Val t, v') \<longrightarrow> ok v' \<and> committed v' = committed v"
    and "adapters = all_adapters elib conf hk eth base blib srt btc slib sol tlib http"
    and "wallet_create (program_registry ord adapters :: ('w, 'c) registry_port) (postgres_key_store pool cy lib) (postgres_repo pool)
           now label p w = (Val x, w1)"
    and "pg_get pool (w_id x) w1 = (Val y, w2)" and "pk_unlock pool cy (w_id x) p w2 = (Val seed, w3)"
  shows "w_label y = label \<and> stored_as x y \<and> distinct_chains x \<and>
         (\<forall>acc. acc \<in> set (w_accounts x) \<longleftrightarrow> (\<exists>a \<in> set adapters.
            ca_derive_account a seed (bip44_path (ca_chain a)) = Val acc))"
proof -
  let ?rg = "program_registry ord adapters :: ('w, 'c) registry_port"
  have rg: "registry_laws ?rg" unfolding assms(5) by (rule program.registry_laws_axioms)
  note service = postgres.wallet_service_laws[OF assms(1) rg assms(4), where cy = cy and lib = lib]
  have get: "wr_get (postgres_repo pool) (w_id x) w1 = (Val y, w2)"
    and unlock: "ks_unlock (postgres_key_store pool cy lib) (w_id x) p w2 = (Val seed, w3)"
    using assms(7,8) by (simp_all add: postgres_repo_def postgres_key_store_def)
  have same: "\<forall>u v. ok u \<longrightarrow> wr_get (postgres_repo pool) (w_id x) u = (Val y, v) \<longrightarrow>
      tables_sealed cy (committed v) = tables_sealed cy (committed u)"
    using postgres.pg_get_ok[OF assms(1)] by (fastforce simp: postgres_repo_def)
  note u = wallet_service.create_then_use[OF service assms(2,3,6) get unlock same]
  have stored: "stored_as x y" by (rule conjunct1[OF u])
  have accounts: "acc \<in> set (w_accounts x) \<longleftrightarrow>
      (\<exists>a. \<exists>c. rg_adapter ?rg c = Val a \<and> ca_derive_account a seed (bip44_path c) = Val acc)" for acc
    using conjunct2[OF u] by blast
  have adapter: "(\<exists>c. rg_adapter ?rg c = Val a \<and> P a c) \<longleftrightarrow> a \<in> set adapters \<and> P a (ca_chain a)" for a P
  proof -
    have "rg_adapter ?rg (ca_chain a) = Val a" if "a \<in> set adapters"
      using program_registered that unfolding assms(5) by blast
    then show ?thesis using program_adapter unfolding assms(5) by blast
  qed
  from wallet_service.create_worth[OF service assms(2,3,6)] have "distinct_chains x" "w_label x = label"
    by blast+
  moreover have "w_label y = w_label x" using stored by (simp add: stored_as_def)
  moreover have "acc \<in> set (w_accounts x) \<longleftrightarrow> (\<exists>a \<in> set adapters.
      ca_derive_account a seed (bip44_path (ca_chain a)) = Val acc)" for acc
    unfolding accounts Bex_def
    using adapter[where P = "\<lambda>a c. ca_derive_account a seed (bip44_path c) = Val acc"] by simp
  ultimately show ?thesis using stored by simp
qed

text \<open>No account on Solana is derived: the path is not one the ed25519 derivation accepts.\<close>

lemma derives_no_solana:
  assumes "rg = program_registry ord (all_adapters elib conf hk eth base blib srt btc slib sol tlib http)"
    and "derive_accounts rg seed (rg_supported rg) = Val accs"
  shows "\<forall>a \<in> set accs. acc_chain a \<noteq> ChainSolana"
proof (rule ballI, rule notI)
  fix a assume a: "a \<in> set accs" and chain: "acc_chain a = ChainSolana"
  from a obtain c ad where c: "rg_adapter rg c = Val ad" "ca_derive_account ad seed (bip44_path c) = Val a"
    using derive_accounts_mem[OF assms(2)] by blast
  then have "c = ChainSolana" using registry_laws.derive_chain[OF program.registry_laws_axioms] chain unfolding assms(1) by blast
  with c have "rg_adapter rg ChainSolana = Val ad" "ca_derive_account ad seed (bip44_path ChainSolana) = Val a" by simp_all
  then have "sol_derive_account slib seed (bip44_path ChainSolana) = Val a"
    unfolding assms(1) program_solana by (auto simp: solana_adapter_def)
  then show False using bip44_not_ed25519 by (auto simp: sol_derive_account_def go_bind_Val_iff)
qed

lemma option_io_Val:
  "(case x of None \<Rightarrow> io_fail e | Some a \<Rightarrow> f a) w = (Val b, w') \<longleftrightarrow>
     (\<exists>a. x = Some a \<and> f a w = (Val b, w'))"
  by (cases x) auto

text \<open>
  A transfer succeeds exactly when each of its steps does, in this order: the chain's adapter,
  the wallet, its account on that chain, the seed under the passphrase, the built transaction,
  its signature, the broadcast. What is signed with is the wallet's own account and seed.
\<close>

lemma transfer_steps:
  "tx_transfer rg (postgres_key_store pool cy lib) repo i p req w = (Val hash, w') \<longleftrightarrow>
     (\<exists>adapter wallet account seed unsigned signed w1 w2 w3.
        rg_adapter rg (net_chain (req_network req)) = Val adapter \<and>
        wr_get repo i w = (Val wallet, w1) \<and>
        wallet_account wallet (net_chain (req_network req)) = Some account \<and>
        pk_unlock pool cy i p w1 = (Val seed, w2) \<and>
        ca_build_transfer adapter req w2 = (Val unsigned, w3) \<and>
        ca_sign adapter (unsigned\<lparr>utx_account := account\<rparr>) (mem_signer lib seed) = Val signed \<and>
        ca_broadcast adapter signed w3 = (Val hash, w'))"
  unfolding tx_transfer_def io_bind_eq_Val_iff option_io_Val
  by (simp add: postgres_key_store_def pk_signer_def io_bind_eq_Val_iff) metis

text \<open>
  C4. The signer uses the key behind the account's address: for an account that an adapter derived
  from a seed, the signer over the same seed signs with the private key whose public key the
  address encodes, and on Solana with the ed25519 key of the address.
\<close>

theorem signer_uses_account_key:
  "(\<forall>cfg acc. evm_derive_account elib cfg (sl_hd lib) seed path = Val acc \<longrightarrow>
      cfg_chain cfg \<in> {ChainEthereum, ChainBase} \<longrightarrow>
      (\<exists>k. acc_address acc = el_address_hex elib (el_pubkey_address elib k) \<and>
         (\<forall>d. mem_sign lib seed acc d = sl_eth_sign lib k d))) \<and>
   (\<forall>acc. tron_derive_account tlib (sl_hd lib) seed path = Val acc \<longrightarrow>
      (\<exists>k. acc_address acc = tl_check_encode tlib (tl_pubkey_address tlib k) 0x41 \<and>
         (\<forall>d. mem_sign lib seed acc d = sl_eth_sign lib k d))) \<and>
   (\<forall>acc. sol_derive_account slib seed path = Val acc \<longrightarrow>
      (\<exists>k. acc_address acc = so_key_string slib (so_ed_public slib k) \<and> length k = 32 \<and>
         mem_public_key lib seed acc = Val (sl_ed_public lib k) \<and>
         (\<forall>d. mem_sign lib seed acc d = Val (sl_ed_sign lib k d)))) \<and>
   (\<forall>acc d sig. btc_derive_account blib (sl_hd lib) seed path = Val acc \<longrightarrow>
      mem_sign lib seed acc d = Val sig \<longrightarrow>
      (\<exists>key k pub. derive_key (sl_hd lib) seed path = Val key \<and> hk_ec_pub_key (sl_hd lib) key = Val pub \<and>
         bl_address_pub_key_hash blib (bl_hash160 blib pub) = Val (acc_address acc) \<and>
         hk_ec_priv_key (sl_hd lib) key = Val k \<and> sig = sl_btc_sign lib k d))"
  by (intro conjI allI impI)
    (auto simp: evm_derive_account_def tron_derive_account_def sol_derive_account_def btc_derive_account_def
      mem_sign_def mem_public_key_def derive_priv_key_def derive_ed25519_key_eq go_bind_Val_iff chain_defs
      split: if_splits)

section \<open>A concrete wallet\<close>

text \<open>
  Nodes that are down but for the one of Base (creating a wallet asks none), a key chain that keeps the seed as its
  key, and the database and cipher of the earlier samples.
\<close>

definition node_down :: go_error where "node_down = Foreign ''connection refused''"

definition down_evm :: "('w, 'tx) evm_client" where
  "down_evm = \<lparr>ec_balance_at = (\<lambda>_. io_fail node_down), ec_suggest_gas_tip_cap = io_fail node_down,
     ec_latest_base_fee = io_fail node_down, ec_pending_nonce_at = (\<lambda>_. io_fail node_down),
     ec_send_transaction = (\<lambda>_. io_fail node_down), ec_transaction_by_hash = (\<lambda>_. io_fail node_down),
     ec_transaction_receipt = (\<lambda>_. io_fail node_down)\<rparr>"

definition down_btc :: "'w btc_node" where
  "down_btc = \<lparr>bc_raw_request = (\<lambda>_ _. io_fail node_down), bc_send_raw_transaction = (\<lambda>_. io_fail node_down),
     bc_get_raw_transaction_verbose = (\<lambda>_. io_fail node_down)\<rparr>"

definition down_sol :: "('w, 't) sol_client" where
  "down_sol = \<lparr>sc_balance = (\<lambda>_. io_fail node_down), sc_latest_blockhash = io_fail node_down,
     sc_send = (\<lambda>_. io_fail node_down), sc_get_transaction = (\<lambda>_. io_fail node_down)\<rparr>"

definition down_http :: "'w http_client" where
  "down_http = \<lparr>hc_new_request = (\<lambda>_. None), hc_do = (\<lambda>_ _. io_fail node_down)\<rparr>"

definition sample_hd :: "bytes hdkeychain" where
  "sample_hd = \<lparr>hk_new_master = (\<lambda>s. Val s), hk_derive = (\<lambda>k i. Val k), hk_ec_priv_key = (\<lambda>k. Val k),
     hk_ec_pub_key = (\<lambda>k. Val k)\<rparr>"

definition sample_adapters :: "engine chain_adapter list" where
  "sample_adapters = all_adapters sample_evm_lib (load_config Map.empty) sample_hd down_evm sample_evm_client
     sample_lib sample_sort down_btc sample_sol_lib down_sol sample_tron_lib down_http"

definition sample_registry :: "(engine, unit) registry_port" where
  "sample_registry = program_registry (\<lambda>xs. xs) sample_adapters"

definition sample_sign_lib :: "bytes sign_lib" where
  "sample_sign_lib = \<lparr>sl_hd = sample_hd, sl_ed_sign = (\<lambda>k d. d), sl_ed_public = (\<lambda>k. k),
     sl_btc_sign = (\<lambda>k d. d), sl_eth_sign = (\<lambda>k d. Val d), sl_btc_public = (\<lambda>k. k)\<rparr>"

definition sample_accounts :: "account list" where
  "sample_accounts = map (\<lambda>c. \<lparr>acc_chain = c, acc_address = hex_encode (bytes_of ''abandon''), acc_path = bip44_path c\<rparr>)
     [ChainEthereum, ChainBase, ChainBitcoin, ChainTron]"

lemma sample_derive_steps: "derive_steps sample_hd k is = Val k"
  by (induction "is") (auto simp: sample_hd_def)

lemma sample_derive_key: "derive_key sample_hd s (bip44_path c) = Val s"
  by (simp add: derive_key_def parse_bip44 sample_derive_steps del: derive_steps.simps)
    (simp add: sample_hd_def)

lemma sample_sol_derive: "\<exists>e. sol_derive_account lib s (bip44_path c) = Err e"
  using bip44_not_ed25519[of s c] derive_key_ed25519_no_panic[of s "bip44_path c"]
  by (cases "derive_key_ed25519 s (bip44_path c)") (auto simp: sol_derive_account_def)

lemma sample_supported:
  "rg_supported sample_registry = [ChainEthereum, ChainBase, ChainBitcoin, ChainSolana, ChainTron]"
proof -
  have chains: "map ca_chain sample_adapters = [ChainEthereum, ChainBase, ChainBitcoin, ChainSolana, ChainTron]"
    by (simp add: sample_adapters_def all_adapters_def evm_adapter_def bitcoin_adapter_def
        solana_adapter_def tron_adapter_def)
  have "map fst (foldl (\<lambda>m a. AList.update (ca_chain a) a m) m0 as) = map fst m0 @ map ca_chain as"
    if "distinct (map fst m0 @ map ca_chain as)" for m0 :: "(chain_id \<times> engine chain_adapter) list" and as
    using that
  proof (induction as arbitrary: m0)
    case (Cons a as)
    then have keys: "map fst (AList.update (ca_chain a) a m0) = map fst m0 @ [ca_chain a]"
      by (simp add: update_keys)
    have "distinct (map fst (AList.update (ca_chain a) a m0) @ map ca_chain as)"
      unfolding keys using Cons.prems by simp
    from Cons.IH[OF this] show ?case unfolding foldl_Cons keys by simp
  qed simp
  from this[of "[]" sample_adapters] show ?thesis
    by (simp add: sample_registry_def program_registry_def registry_as_port_def registry_supported_def
        new_registry_unfold visit_def chains chains_distinct) (simp add: chain_defs)
qed

lemma sample_evm_derive:
  "ca_derive_account (evm_adapter sample_evm_lib cfg sample_hd cl) s (bip44_path c) =
     Val \<lparr>acc_chain = cfg_chain cfg, acc_address = hex_encode s, acc_path = bip44_path c\<rparr>"
  by (simp add: evm_adapter_def evm_derive_account_def sample_derive_key)
    (simp add: sample_hd_def sample_evm_lib_def)

lemma sample_tron_derive:
  "ca_derive_account (tron_adapter sample_tron_lib cfg sample_hd hc) s (bip44_path c) =
     Val \<lparr>acc_chain = ChainTron, acc_address = hex_encode s, acc_path = bip44_path c\<rparr>"
  by (simp add: tron_adapter_def tron_derive_account_def sample_derive_key)
    (simp add: sample_hd_def sample_tron_lib_def)

lemma sample_btc_derive:
  "ca_derive_account (bitcoin_adapter sample_lib srt sample_hd node) s (bip44_path c) =
     Val \<lparr>acc_chain = ChainBitcoin, acc_address = hex_encode s, acc_path = bip44_path c\<rparr>"
  by (simp add: bitcoin_adapter_def btc_derive_account_def sample_derive_key)
    (simp add: sample_hd_def sample_lib_def)

lemma sample_derived:
  "derive_accounts sample_registry (bytes_of ''abandon'') (rg_supported sample_registry) = Val sample_accounts"
proof -
  obtain e where sol: "sol_derive_account sample_sol_lib (bytes_of ''abandon'') (bip44_path ChainSolana) = Err e"
    using sample_sol_derive by blast
  have reg: "rg_adapter sample_registry (ca_chain a) = Val a" if "a \<in> set sample_adapters" for a
    using program_registered that unfolding sample_adapters_def sample_registry_def by blast
  let ?eth = "evm_adapter sample_evm_lib \<lparr>cfg_rpc_url = evm_rpc_url (conf_ethereum (load_config Map.empty)),
      cfg_chain_id = evm_chain_id (conf_ethereum (load_config Map.empty)), cfg_chain = ChainEthereum\<rparr> sample_hd down_evm"
  let ?base = "evm_adapter sample_evm_lib \<lparr>cfg_rpc_url = evm_rpc_url (conf_base (load_config Map.empty)),
      cfg_chain_id = evm_chain_id (conf_base (load_config Map.empty)), cfg_chain = ChainBase\<rparr> sample_hd sample_evm_client"
  let ?btc = "bitcoin_adapter sample_lib sample_sort sample_hd down_btc"
  let ?sol = "solana_adapter sample_sol_lib down_sol"
  let ?tron = "tron_adapter sample_tron_lib \<lparr>tron_rpc_url = conf_tron_url (load_config Map.empty)\<rparr> sample_hd down_http"
  have mem: "?eth \<in> set sample_adapters" "?base \<in> set sample_adapters" "?btc \<in> set sample_adapters"
    "?sol \<in> set sample_adapters" "?tron \<in> set sample_adapters"
    by (simp_all add: sample_adapters_def all_adapters_def)
  have ids: "ca_chain ?eth = ChainEthereum" "ca_chain ?base = ChainBase" "ca_chain ?btc = ChainBitcoin"
    "ca_chain ?sol = ChainSolana" "ca_chain ?tron = ChainTron"
    by (simp_all add: evm_adapter_def bitcoin_adapter_def solana_adapter_def tron_adapter_def)
  note look = reg[OF mem(1), unfolded ids] reg[OF mem(2), unfolded ids] reg[OF mem(3), unfolded ids]
    reg[OF mem(4), unfolded ids] reg[OF mem(5), unfolded ids]
  have sol': "ca_derive_account ?sol (bytes_of ''abandon'') (bip44_path ChainSolana) = Err e"
    using sol by (simp add: solana_adapter_def)
  show ?thesis
    unfolding sample_supported
    by (simp add: look sol' sample_evm_derive sample_tron_derive sample_btc_derive sample_accounts_def)
qed

text \<open>The wallet that creation gives, and the worlds on the way.\<close>

definition sample_empty_wallet :: wallet where
  "sample_empty_wallet = \<lparr>w_id = ''w3'', w_label = ''main'', w_created = 4, w_accounts = []\<rparr>"

definition sample_new_wallet :: wallet where
  "sample_new_wallet = sample_empty_wallet\<lparr>w_accounts := sample_accounts\<rparr>"

definition sample_world1 :: engine where
  "sample_world1 = snd (pg_save sample_pool sample_empty_wallet (en_step (en_step sample_engine)))"

definition sample_world2 :: engine where
  "sample_world2 = snd (pk_create sample_pool sample_crypto ''w3'' [5] sample_world1)"

definition sample_world3 :: engine where
  "sample_world3 = snd (pg_save sample_pool sample_new_wallet sample_world2)"

lemma sample_first_save:
  "pg_save sample_pool sample_empty_wallet (en_step (en_step sample_engine)) = (Val (), sample_world1)"
proof -
  have "fst (pg_save sample_pool sample_empty_wallet (en_step (en_step sample_engine))) = Val ()"
    by code_simp
  then show ?thesis by (simp add: sample_world1_def prod_eq_iff)
qed

lemma sample_key_create:
  "pk_create sample_pool sample_crypto ''w3'' [5] sample_world1 = (Val (bytes_of ''abandon''), sample_world2)"
proof -
  have "fst (pk_create sample_pool sample_crypto ''w3'' [5] sample_world1) = Val (bytes_of ''abandon'')"
    by code_simp
  then show ?thesis by (simp add: sample_world2_def prod_eq_iff)
qed

lemma sample_second_save: "pg_save sample_pool sample_new_wallet sample_world2 = (Val (), sample_world3)"
proof -
  have "fst (pg_save sample_pool sample_new_wallet sample_world2) = Val ()" by code_simp
  then show ?thesis by (simp add: sample_world3_def prod_eq_iff)
qed

lemma sample_create:
  "wallet_create sample_registry (postgres_key_store sample_pool sample_crypto sample_sign_lib)
     (postgres_repo sample_pool) en_clock ''main'' [5] sample_engine = (Val sample_new_wallet, sample_world3)"
proof -
  have clock: "en_clock sample_engine = (Val 3, en_step sample_engine)"
    "en_clock (en_step sample_engine) = (Val 4, en_step (en_step sample_engine))"
    by (simp_all add: en_clock_def sample_engine_def en_step_def)
  have i: "''w'' @ show_int (int64 3) = ''w3''" by code_simp
  have first: "\<lparr>w_id = ''w3'', w_label = ''main'', w_created = 4, w_accounts = []\<rparr> = sample_empty_wallet"
    and second: "\<lparr>w_id = ''w3'', w_label = ''main'', w_created = 4, w_accounts = sample_accounts\<rparr> = sample_new_wallet"
    by (simp_all add: sample_empty_wallet_def sample_new_wallet_def)
  show ?thesis
    unfolding wallet_create_def io_bind_def clock prod.case go.case i Let_def io_wrap_def
    by (simp add: first postgres_repo_def postgres_key_store_def sample_first_save)
      (simp add: sample_empty_wallet_def sample_key_create sample_derived second sample_second_save postgres_repo_def)
qed

theorem created_wallet_is_usable_witness:
  "(\<exists>y w2. pg_get sample_pool ''w3'' sample_world3 = (Val y, w2) \<and> stored_as sample_new_wallet y \<and>
      wallet_account y ChainBase = Some \<lparr>acc_chain = ChainBase, acc_address = hex_encode (bytes_of ''abandon''),
        acc_path = bip44_path ChainBase\<rparr>)"
proof -
  have keep: "\<forall>v t v'. engine_ok v \<longrightarrow> en_clock v = (Val t, v') \<longrightarrow> engine_ok v' \<and> en_tables v' = en_tables v"
    by (simp add: en_clock_def)
  have "case fst (pg_get sample_pool ''w3'' sample_world3) of Val _ \<Rightarrow> True | _ \<Rightarrow> False" by code_simp
  then obtain y w2 where get: "pg_get sample_pool (w_id sample_new_wallet) sample_world3 = (Val y, w2)"
    by (metis go.case(2) go.case(3) go.exhaust prod.collapse sample_new_wallet_def sample_empty_wallet_def
        wallet.select_convs(1) wallet.simps(9))
  have "case fst (pk_unlock sample_pool sample_crypto ''w3'' [5] (snd (pg_get sample_pool ''w3'' sample_world3))) of
      Val _ \<Rightarrow> True | _ \<Rightarrow> False" by code_simp
  moreover have i: "w_id sample_new_wallet = ''w3''" by (simp add: sample_new_wallet_def sample_empty_wallet_def)
  ultimately obtain seed w3 where
    unlock: "pk_unlock sample_pool sample_crypto (w_id sample_new_wallet) [5] w2 = (Val seed, w3)"
    using get by (metis go.case(2) go.case(3) go.exhaust prod.collapse snd_conv)
  from created_wallet_is_usable[OF sample_postgres sample_crypto_trusted sample_engine_ok keep
      sample_adapters_def sample_create[unfolded sample_registry_def] get unlock]
  have stored: "stored_as sample_new_wallet y" by blast
  moreover have "\<lparr>acc_chain = ChainBase, acc_address = hex_encode (bytes_of ''abandon''),
      acc_path = bip44_path ChainBase\<rparr> \<in> set (w_accounts sample_new_wallet)"
    by (simp add: sample_new_wallet_def sample_accounts_def)
  ultimately have "wallet_account y ChainBase = Some \<lparr>acc_chain = ChainBase,
      acc_address = hex_encode (bytes_of ''abandon''), acc_path = bip44_path ChainBase\<rparr>"
    by (auto simp: stored_as_def)
  with get stored i show ?thesis by auto
qed

theorem signer_uses_account_key_witness:
  "(\<exists>k. acc_address (\<lparr>acc_chain = ChainBase, acc_address = ''61'', acc_path = bip44_path ChainBase\<rparr>) =
        el_address_hex sample_evm_lib (el_pubkey_address sample_evm_lib k) \<and>
      (\<forall>d. mem_sign sample_sign_lib [0x61] \<lparr>acc_chain = ChainBase, acc_address = ''61'',
          acc_path = bip44_path ChainBase\<rparr> d = sl_eth_sign sample_sign_lib k d)) \<and>
   (\<exists>k. tl_check_encode sample_tron_lib (tl_pubkey_address sample_tron_lib k) 0x41 = ''61'' \<and>
      mem_sign sample_sign_lib [0x61] \<lparr>acc_chain = ChainTron, acc_address = ''61'',
          acc_path = bip44_path ChainTron\<rparr> [4] = sl_eth_sign sample_sign_lib k [4]) \<and>
   (\<exists>acc k. sol_derive_account sample_sol_lib [0x61] (render_path [(44, True), (501, True)]) = Val acc \<and>
      acc_address acc = hex_encode k \<and> length k = 32 \<and> mem_sign sample_sign_lib [0x61] acc [4] = Val [4]) \<and>
   (\<exists>key k pub. derive_key sample_hd [0x61] (bip44_path ChainBitcoin) = Val key \<and>
      hk_ec_pub_key sample_hd key = Val pub \<and>
      bl_address_pub_key_hash sample_lib (bl_hash160 sample_lib pub) = Val ''61'' \<and>
      hk_ec_priv_key sample_hd key = Val k \<and> sl_btc_sign sample_sign_lib k [4] = [4])"
proof -
  have hd: "sl_hd sample_sign_lib = sample_hd" by (simp add: sample_sign_lib_def)
  have hex: "hex_encode [0x61] = ''61''" by code_simp
  let ?sol = "render_path [(44, True), (501, True)]"
  have "parse_path ?sol = Val [0x8000002C, 0x800001F5]"
    by (simp add: parse_path_render index_of_def hardened_key_start_def)
  then obtain key where key: "derive_key_ed25519 [0x61] ?sol = Val key"
    using derive_key_ed25519_iff[of "[0x61]" ?sol] by (auto simp: hardened_key_start_def)
  let ?acc = "\<lparr>acc_chain = ChainSolana, acc_address = hex_encode key, acc_path = ?sol\<rparr>"
  have sol: "sol_derive_account sample_sol_lib [0x61] ?sol = Val ?acc"
    using derive_key_ed25519_length[OF key] by (simp add: sol_derive_account_def key sample_sol_lib_def)
  let ?a = "\<lambda>c. \<lparr>acc_chain = c, acc_address = ''61'', acc_path = bip44_path c\<rparr>"
  have evm: "evm_derive_account sample_evm_lib sample_evm_config (sl_hd sample_sign_lib) [0x61]
      (bip44_path ChainBase) = Val (?a ChainBase)"
    using sample_evm_derive[of sample_evm_config _ "[0x61]" ChainBase]
    by (simp add: evm_adapter_def hd hex) (simp add: sample_evm_config_def)
  have tron: "tron_derive_account sample_tron_lib (sl_hd sample_sign_lib) [0x61]
      (bip44_path ChainTron) = Val (?a ChainTron)"
    using sample_tron_derive[of _ _ "[0x61]" ChainTron] by (simp add: tron_adapter_def hd hex)
  have btc: "btc_derive_account sample_lib (sl_hd sample_sign_lib) [0x61]
      (bip44_path ChainBitcoin) = Val (?a ChainBitcoin)"
    using sample_btc_derive[of _ _ "[0x61]" ChainBitcoin] by (simp add: bitcoin_adapter_def hd hex)
  have bsig: "mem_sign sample_sign_lib [0x61] (?a ChainBitcoin) [4] = Val [4]"
    by (simp add: mem_sign_def derive_priv_key_def hd sample_derive_key chain_defs)
      (simp add: sample_hd_def sample_sign_lib_def)
  note uses = signer_uses_account_key[of sample_evm_lib sample_sign_lib "[0x61]"]
  have 1: "\<exists>k. acc_address (?a ChainBase) = el_address_hex sample_evm_lib (el_pubkey_address sample_evm_lib k) \<and>
      (\<forall>d. mem_sign sample_sign_lib [0x61] (?a ChainBase) d = sl_eth_sign sample_sign_lib k d)"
    using conjunct1[OF uses[of "bip44_path ChainBase" sample_tron_lib sample_sol_lib sample_lib],
        rule_format, OF evm] by (simp add: sample_evm_config_def)
  have 2: "\<exists>k. acc_address (?a ChainTron) = tl_check_encode sample_tron_lib (tl_pubkey_address sample_tron_lib k) 0x41 \<and>
      (\<forall>d. mem_sign sample_sign_lib [0x61] (?a ChainTron) d = sl_eth_sign sample_sign_lib k d)"
    using uses[of "bip44_path ChainTron" sample_tron_lib sample_sol_lib sample_lib] tron by blast
  have 3: "\<exists>k. acc_address ?acc = so_key_string sample_sol_lib (so_ed_public sample_sol_lib k) \<and> length k = 32 \<and>
      (\<forall>d. mem_sign sample_sign_lib [0x61] ?acc d = Val (sl_ed_sign sample_sign_lib k d))"
    using uses[of ?sol sample_tron_lib sample_sol_lib sample_lib] sol by blast
  have 4: "\<exists>key k pub. derive_key sample_hd [0x61] (bip44_path ChainBitcoin) = Val key \<and>
      hk_ec_pub_key sample_hd key = Val pub \<and>
      bl_address_pub_key_hash sample_lib (bl_hash160 sample_lib pub) = Val (acc_address (?a ChainBitcoin)) \<and>
      hk_ec_priv_key sample_hd key = Val k \<and> [4] = sl_btc_sign sample_sign_lib k [4]"
    using uses[of "bip44_path ChainBitcoin" sample_tron_lib sample_sol_lib sample_lib] btc bsig
    unfolding hd by blast
  have "\<exists>acc k. sol_derive_account sample_sol_lib [0x61] ?sol = Val acc \<and> acc_address acc = hex_encode k \<and>
      length k = 32 \<and> mem_sign sample_sign_lib [0x61] acc [4] = Val [4]"
  proof -
    from 3 obtain k where "acc_address ?acc = so_key_string sample_sol_lib (so_ed_public sample_sol_lib k)"
      "length k = 32" "mem_sign sample_sign_lib [0x61] ?acc [4] = Val (sl_ed_sign sample_sign_lib k [4])" by blast
    moreover have "so_key_string sample_sol_lib (so_ed_public sample_sol_lib k) = hex_encode k"
      "sl_ed_sign sample_sign_lib k [4] = [4]"
      by (simp_all add: sample_sol_lib_def sample_sign_lib_def)
    ultimately show ?thesis using sol by metis
  qed
  moreover have "sl_btc_sign sample_sign_lib k [4] = [4]" for k by (simp add: sample_sign_lib_def)
  ultimately show ?thesis using 1 2 4 by (auto; metis)
qed
end
