(* ===== verification/Http.thy ===== *)
theory Http
  imports Services Answers
begin

text \<open>
  \<^verbatim>\<open>internal/transport/http/handler.go\<close>: the HTTP API over the two services. A request body is
  the JSON text the client sent, and that of a response the text written. The router is chi's: which route
  matches a request, and what is answered when none does or a handler panics, are parameters; the
  route table is the code's.
\<close>

section \<open>The services behind a transport\<close>

text \<open>Both services are built from the same registry, key store and repository.\<close>

record ('w, 'c) app =
  app_registry :: "('w, 'c) registry_port"
  app_keys :: "'w key_store"
  app_repo :: "'w wallet_repo"
  app_now :: "'w clock"
  app_texts :: texts

section \<open>Decoding a request\<close>

record create_wallet_req =
  cr_label :: string
  cr_passphrase :: string

record transfer_req =
  tq_wallet_id :: string
  tq_passphrase :: string
  tq_chain :: string
  tq_env :: string
  tq_from :: string
  tq_to :: string
  tq_amount :: string
  tq_speed :: string

definition create_wallet_type :: go_type where
  "create_wallet_type = TyStruct ''http.createWalletReq'' ''createWalletReq''
     [(''label'', TyString), (''passphrase'', TyString)]"

definition transfer_type :: go_type where
  "transfer_type = TyStruct ''http.transferReq'' ''transferReq''
     (map (\<lambda>f. (f, TyString))
       [''wallet_id'', ''passphrase'', ''chain'', ''env'', ''from'', ''to'', ''amount'', ''speed''])"

text \<open>\<open>json.NewDecoder(r.Body).Decode\<close> reads the first value of the body and no further.\<close>

definition decode_create :: "string \<Rightarrow> create_wallet_req go" where
  "decode_create body =
     go_bind (decode_stream create_wallet_type body) (\<lambda>v.
     let field = \<lambda>f. the_string (field_value v f)
     in Val \<lparr>cr_label = field ''label'', cr_passphrase = field ''passphrase''\<rparr>)"

definition decode_transfer :: "string \<Rightarrow> transfer_req go" where
  "decode_transfer body =
     go_bind (decode_stream transfer_type body) (\<lambda>v.
     let field = \<lambda>f. the_string (field_value v f)
     in Val \<lparr>tq_wallet_id = field ''wallet_id'', tq_passphrase = field ''passphrase'',
       tq_chain = field ''chain'', tq_env = field ''env'', tq_from = field ''from'',
       tq_to = field ''to'', tq_amount = field ''amount'', tq_speed = field ''speed''\<rparr>)"

section \<open>Responses\<close>

record http_response =
  rs_status :: int
  rs_content_type :: string
  rs_body :: string

text \<open>The error of \<open>Encode\<close> is dropped: the status is out, and the body stays empty.\<close>

definition write_json :: "texts \<Rightarrow> int \<Rightarrow> payload \<Rightarrow> http_response" where
  "write_json tx status v = \<lparr>rs_status = status, rs_content_type = ''application/json'',
     rs_body = (case encode_compact tx v of Val body \<Rightarrow> body | _ \<Rightarrow> [])\<rparr>"

definition write_err :: "texts \<Rightarrow> int \<Rightarrow> go_error \<Rightarrow> http_response" where
  "write_err tx status e = write_json tx status (PError e)"

definition invalid_amount_response :: http_response where
  "invalid_amount_response =
     \<lparr>rs_status = 400, rs_content_type = ''text/plain; charset=utf-8'',
      rs_body = ''{\"error\":\"invalid amount\"}'' @ newline\<rparr>"

text \<open>\<open>if err != nil { writeErr(w, status, err); return }\<close> and then \<open>writeJSON(w, good, v)\<close>.\<close>

definition answer :: "texts \<Rightarrow> int \<Rightarrow> int \<Rightarrow> ('a \<Rightarrow> payload) \<Rightarrow> ('w, 'a) io \<Rightarrow> ('w, http_response) io" where
  "answer tx err_status good ok call =
     io_bind (io_try call) (\<lambda>r.
     case r of Inl e \<Rightarrow> io_return (write_err tx err_status e) | Inr a \<Rightarrow> io_return (write_json tx good (ok a)))"

definition with_request :: "texts \<Rightarrow> 'r go \<Rightarrow> ('r \<Rightarrow> ('w, http_response) io) \<Rightarrow> ('w, http_response) io" where
  "with_request tx req f =
     io_bind (io_try (io_lift req)) (\<lambda>r.
     case r of Inl e \<Rightarrow> io_return (write_err tx 400 e) | Inr q \<Rightarrow> f q)"

section \<open>Handlers\<close>

definition http_create_wallet :: "('w, 'c) app \<Rightarrow> string \<Rightarrow> ('w, http_response) io" where
  "http_create_wallet a body =
     with_request (app_texts a) (decode_create body) (\<lambda>req.
     answer (app_texts a) 500 201 (\<lambda>wallet. PWallet wallet)
       (wallet_create (app_registry a) (app_keys a) (app_repo a) (app_now a)
          (cr_label req) (bytes_of (cr_passphrase req))))"

definition http_list_wallets :: "('w, 'c) app \<Rightarrow> ('w, http_response) io" where
  "http_list_wallets a =
     answer (app_texts a) 500 200 (\<lambda>wallets. PWallets wallets) (wallet_list (app_repo a))"

definition http_get_wallet :: "('w, 'c) app \<Rightarrow> string \<Rightarrow> ('w, http_response) io" where
  "http_get_wallet a i = answer (app_texts a) 404 200 (\<lambda>wallet. PWallet wallet) (wallet_get (app_repo a) i)"

definition balance_fields :: "chain_id \<Rightarrow> amount \<Rightarrow> (string \<times> string) list" where
  "balance_fields chain amt =
     [(''chain'', chain), (''amount'', base_string amt), (''asset'', asset_symbol (amt_asset amt))]"

definition http_wallet_balance :: "('w, 'c) app \<Rightarrow> string \<Rightarrow> string \<Rightarrow> ('w, http_response) io" where
  "http_wallet_balance a i chain =
     answer (app_texts a) 500 200 (\<lambda>amt. PFields (balance_fields chain amt))
       (wallet_balance (app_registry a) (app_repo a) i chain)"

text \<open>The request of a transfer, from the fields a user gives, with the defaults.\<close>

definition native_request ::
  "string \<Rightarrow> string \<Rightarrow> string \<Rightarrow> string \<Rightarrow> int \<Rightarrow> string \<Rightarrow> transfer_request" where
  "native_request chain env from_a to_a amt speed =
     \<lparr>req_network = \<lparr>net_chain = chain, net_env = (if env \<noteq> [] then env else EnvLocal)\<rparr>,
      req_from = from_a, req_to = to_a,
      req_amount = \<lparr>amt_asset = zero_asset\<lparr>asset_native := True\<rparr>, amt_base = Some amt\<rparr>,
      req_speed = (if speed \<noteq> [] then speed else SpeedStandard)\<rparr>"

definition http_transfer :: "('w, 'c) app \<Rightarrow> string \<Rightarrow> ('w, http_response) io" where
  "http_transfer a body =
     with_request (app_texts a) (decode_transfer body) (\<lambda>req.
     case set_string10 (tq_amount req) of
       None \<Rightarrow> io_return invalid_amount_response
     | Some amt \<Rightarrow>
         answer (app_texts a) 500 200 (\<lambda>hash. PFields [(''hash'', hash)])
           (tx_transfer (app_registry a) (app_keys a) (app_repo a) (tq_wallet_id req)
              (bytes_of (tq_passphrase req))
              (native_request (tq_chain req) (tq_env req) (tq_from req) (tq_to req) amt (tq_speed req))))"

definition http_tx_status :: "('w, 'c) app \<Rightarrow> string \<Rightarrow> string \<Rightarrow> ('w, http_response) io" where
  "http_tx_status a chain hash =
     answer (app_texts a) 500 200 (\<lambda>tx. PTransaction tx) (tx_status_of (app_registry a) chain hash)"

section \<open>The router\<close>

datatype handler = CreateWallet | ListWallets | GetWallet | WalletBalance | Transfer | TxStatus

definition http_routes :: "((string \<times> string) \<times> handler) list" where
  "http_routes =
     [((''POST'', ''/wallets''), CreateWallet),
      ((''GET'', ''/wallets''), ListWallets),
      ((''GET'', ''/wallets/{id}''), GetWallet),
      ((''GET'', ''/wallets/{id}/balance/{chain}''), WalletBalance),
      ((''POST'', ''/transactions''), Transfer),
      ((''GET'', ''/transactions/{chain}/{hash}''), TxStatus)]"

record http_request =
  hq_method :: string
  hq_path :: string
  hq_body :: string

text \<open>
  chi: the route of a table that a request matches, with the URL parameters; its answer when none
  does (404 or 405); and what \<open>middleware.Recoverer\<close> answers for a handler that panicked.
\<close>

record chi =
  ch_match :: "(string \<times> string) list \<Rightarrow> http_request \<Rightarrow> ((string \<times> string) \<times> (string \<times> string) list) option"
  ch_unmatched :: "http_request \<Rightarrow> http_response"
  ch_recovered :: http_response

fun run_handler ::
  "('w, 'c) app \<Rightarrow> (string \<times> string) list \<Rightarrow> string \<Rightarrow> handler \<Rightarrow> ('w, http_response) io" where
  "run_handler a url body CreateWallet = http_create_wallet a body"
| "run_handler a url body ListWallets = http_list_wallets a"
| "run_handler a url body GetWallet = http_get_wallet a (param url ''id'')"
| "run_handler a url body WalletBalance = http_wallet_balance a (param url ''id'') (param url ''chain'')"
| "run_handler a url body Transfer = http_transfer a body"
| "run_handler a url body TxStatus = http_tx_status a (param url ''chain'') (param url ''hash'')"

definition routed :: "chi \<Rightarrow> http_request \<Rightarrow> (handler \<times> (string \<times> string) list) option" where
  "routed mux req = (case ch_match mux (map fst http_routes) req of
      None \<Rightarrow> None
    | Some (route, url) \<Rightarrow> (case map_of http_routes route of None \<Rightarrow> None | Some h \<Rightarrow> Some (h, url)))"

definition recoverer :: "chi \<Rightarrow> ('w, http_response) io \<Rightarrow> ('w, http_response) io" where
  "recoverer mux m w = (case m w of (Panic, w') \<Rightarrow> (Val (ch_recovered mux), w') | r \<Rightarrow> r)"

definition http_serve :: "chi \<Rightarrow> ('w, 'c) app \<Rightarrow> http_request \<Rightarrow> ('w, http_response) io" where
  "http_serve mux a req = recoverer mux
     (case routed mux req of
        None \<Rightarrow> io_return (ch_unmatched mux req)
      | Some (h, url) \<Rightarrow> run_handler a url (hq_body req) h)"

section \<open>Every request is answered\<close>

lemma write_status [simp]: "rs_status (write_json tx st v) = st" "rs_status (write_err tx st e) = st"
  by (simp_all add: write_err_def write_json_def)

lemma answer_eval:
  "answer tx st good ok call w = (case call w of
      (Val x, w') \<Rightarrow> (Val (write_json tx good (ok x)), w')
    | (Err e, w') \<Rightarrow> (Val (write_err tx st e), w')
    | (Panic, w') \<Rightarrow> (Panic, w'))"
  by (auto simp: answer_def io_bind_def io_try_def split: prod.splits go.splits)

lemma answer_no_error: "answer tx st good ok call w \<noteq> (Err e, w')"
  by (auto simp: answer_eval split: prod.splits go.splits)

lemma answer_status:
  "answer tx st good ok call w = (Val r, w') \<Longrightarrow> rs_status r = good \<or> rs_status r = st"
  by (auto simp: answer_eval split: prod.splits go.splits)

lemma with_request_eval:
  "with_request tx req f w = (case req of
      Val q \<Rightarrow> f q w | Err e \<Rightarrow> (Val (write_err tx 400 e), w) | Panic \<Rightarrow> (Panic, w))"
  by (auto simp: with_request_def io_bind_def io_try_def split: go.splits)

text \<open>The statuses a handler answers with.\<close>

fun handler_statuses :: "handler \<Rightarrow> int set" where
  "handler_statuses CreateWallet = {201, 400, 500}"
| "handler_statuses ListWallets = {200, 500}"
| "handler_statuses GetWallet = {200, 404}"
| "handler_statuses WalletBalance = {200, 500}"
| "handler_statuses Transfer = {200, 400, 500}"
| "handler_statuses TxStatus = {200, 500}"

lemmas handler_defs = http_create_wallet_def http_list_wallets_def http_get_wallet_def
  http_wallet_balance_def http_transfer_def http_tx_status_def

lemma run_handler_no_error: "run_handler a url body h w \<noteq> (Err e, w')"
  by (cases h) (auto simp: handler_defs with_request_eval answer_no_error split: go.splits option.splits)

lemma run_handler_status:
  assumes "run_handler a url body h w = (Val r, w')"
  shows "rs_status r \<in> handler_statuses h \<and> (rs_status r = 400 \<longrightarrow> w' = w)"
  using assms
  by (cases h)
    (auto simp: handler_defs with_request_eval invalid_amount_response_def
      split: go.splits option.splits dest!: answer_status)

text \<open>
  C30. Every request is answered, a panic included: without a matching route by the router, with the
  world untouched; else by the handler of the route, with one of its statuses, or by the recovery
  middleware. A request that is refused as malformed (400) has had no effect.
\<close>

theorem http_serve_answers:
  "\<exists>resp w'. http_serve mux a req w = (Val resp, w') \<and>
     (routed mux req = None \<longrightarrow> resp = ch_unmatched mux req \<and> w' = w) \<and>
     (\<forall>h url. routed mux req = Some (h, url) \<longrightarrow>
        resp = ch_recovered mux \<or>
        rs_status resp \<in> handler_statuses h \<and> (rs_status resp = 400 \<longrightarrow> w' = w))"
proof (cases "routed mux req")
  case None
  then show ?thesis by (simp add: http_serve_def recoverer_def)
next
  case (Some x)
  obtain h url where x: "x = (h, url)" by (cases x)
  obtain r w' where run: "run_handler a url (hq_body req) h w = (r, w')"
    by (cases "run_handler a url (hq_body req) h w")
  show ?thesis
  proof (cases r)
    case (Val resp)
    then show ?thesis
      using run_handler_status[of a url "hq_body req" h w resp w'] run Some x
      by (simp add: http_serve_def recoverer_def)
  next
    case (Err e)
    then show ?thesis using run run_handler_no_error by metis
  next
    case Panic
    then show ?thesis using run Some x by (simp add: http_serve_def recoverer_def)
  qed
qed

section \<open>A concrete router and application\<close>

definition sample_mux :: chi where
  "sample_mux = \<lparr>ch_match = (\<lambda>routes req. map_option (\<lambda>r. (r, []))
       (find (\<lambda>r. r = (hq_method req, hq_path req)) routes)),
     ch_unmatched = (\<lambda>_. \<lparr>rs_status = 404, rs_content_type = ''text/plain; charset=utf-8'', rs_body = ''404 page not found'' @ newline\<rparr>),
     ch_recovered = \<lparr>rs_status = 500, rs_content_type = [], rs_body = []\<rparr>\<rparr>"

definition sample_texts :: texts where
  "sample_texts = \<lparr>txt_zone = (\<lambda>_. 7200), txt_foreign = (\<lambda>s. s), txt_printable = (\<lambda>_. True)\<rparr>"

definition sample_app :: "(engine, unit) app" where
  "sample_app = \<lparr>app_registry = sample_registry,
     app_keys = postgres_key_store sample_pool sample_crypto sample_sign_lib,
     app_repo = postgres_repo sample_pool, app_now = en_clock, app_texts = sample_texts\<rparr>"

definition sample_transfer :: "string \<Rightarrow> transfer_req" where
  "sample_transfer amt = \<lparr>tq_wallet_id = ''w1'', tq_passphrase = [CHR 0x05],
     tq_chain = ChainBase, tq_env = [], tq_from = [], tq_to = [], tq_amount = amt, tq_speed = []\<rparr>"

definition transfer_value :: "transfer_req \<Rightarrow> go_value" where
  "transfer_value q = GStruct
     [(''wallet_id'', GString (tq_wallet_id q)), (''passphrase'', GString (tq_passphrase q)),
      (''chain'', GString (tq_chain q)), (''env'', GString (tq_env q)), (''from'', GString (tq_from q)),
      (''to'', GString (tq_to q)), (''amount'', GString (tq_amount q)), (''speed'', GString (tq_speed q))]"

definition sample_body :: "string \<Rightarrow> string" where
  "sample_body amt = marshal transfer_type (transfer_value (sample_transfer amt)) @ '' and more''"

definition sample_post :: "string \<Rightarrow> http_request" where
  "sample_post amt = \<lparr>hq_method = ''POST'', hq_path = ''/transactions'', hq_body = sample_body amt\<rparr>"

lemma transfer_type_ok: "type_ok transfer_type" "type_depth transfer_type \<le> max_depth"
proof -
  have "valid_utf8 ''wallet_id''" "valid_utf8 ''passphrase''" "valid_utf8 ''chain''" "valid_utf8 ''env''"
    "valid_utf8 ''from''" "valid_utf8 ''to''" "valid_utf8 ''amount''" "valid_utf8 ''speed''"
    by code_simp+
  then show "type_ok transfer_type" by (simp add: transfer_type_def)
  show "type_depth transfer_type \<le> max_depth" by (simp add: transfer_type_def max_depth_def)
qed

lemma decode_transfer_value:
  assumes "text_ok (transfer_value q)" and "number_end rest"
  shows "decode_transfer (marshal transfer_type (transfer_value q) @ rest) = Val q"
proof -
  have "has_type transfer_type (transfer_value q)" by (simp add: transfer_type_def transfer_value_def)
  from decode_stream_marshal[OF this transfer_type_ok(1) assms(1) transfer_type_ok(2) assms(2)]
  show ?thesis by (simp add: decode_transfer_def transfer_value_def)
qed

lemma sample_decoded: "valid_utf8 amt \<Longrightarrow> decode_transfer (sample_body amt) = Val (sample_transfer amt)"
proof -
  have "valid_utf8 ''w1''" "valid_utf8 [CHR 0x05]" "valid_utf8 ChainBase" "valid_utf8 []" by code_simp+
  then show "valid_utf8 amt \<Longrightarrow> ?thesis"
    unfolding sample_body_def
    by (intro decode_transfer_value) (simp_all add: transfer_value_def sample_transfer_def number_end_def is_digit_def code_def)
qed

lemma sample_routed: "routed sample_mux (sample_post amt) = Some (Transfer, [])"
  by (simp add: routed_def sample_mux_def sample_post_def http_routes_def)

theorem http_serve_answers_witness:
  "\<exists>resp. http_serve sample_mux sample_app (sample_post ''1.5'') sample_engine = (Val resp, sample_engine) \<and>
     rs_status resp = 400"
proof -
  have amt: "set_string10 ''1.5'' = None" "valid_utf8 ''1.5''" by code_simp+
  have body: "hq_body (sample_post ''1.5'') = sample_body ''1.5''" by (simp add: sample_post_def)
  have "tq_amount (sample_transfer ''1.5'') = ''1.5''" by (simp add: sample_transfer_def)
  then have "http_serve sample_mux sample_app (sample_post ''1.5'') sample_engine =
      (Val invalid_amount_response, sample_engine)"
    by (simp add: http_serve_def sample_routed recoverer_def http_transfer_def with_request_eval sample_decoded
        body amt del: set_string10.simps)
  moreover have "rs_status invalid_amount_response = 400" by (simp add: invalid_amount_response_def)
  ultimately show ?thesis
    using http_serve_answers[of sample_mux sample_app "sample_post ''1.5''" sample_engine] by auto
qed

end
