(* ===== verification/Cli.thy ===== *)
theory Cli
  imports Http
begin

text \<open>
  \<^verbatim>\<open>internal/transport/cli\<close>: the command line over the same two services. Splitting the
  arguments into a command, its flags and its positional arguments is cobra's and a parameter; the
  command table it is given is the code's. A command's result is what it writes to standard
  output, or the error the program ends with.
\<close>

section \<open>The terminal\<close>

record 'w terminal =
  te_stderr :: "string \<Rightarrow> ('w, unit) io"
  te_read_password :: "('w, bytes) io"

text \<open>Errors of the two writes are dropped, the error of the read is not.\<close>

definition read_passphrase :: "'w terminal \<Rightarrow> ('w, bytes) io" where
  "read_passphrase te =
     io_bind (io_try (te_stderr te ''Passphrase: '')) (\<lambda>_.
     io_bind (io_try (te_read_password te)) (\<lambda>pass.
     io_bind (io_try (te_stderr te newline)) (\<lambda>_.
     case pass of Inl e \<Rightarrow> io_fail e | Inr p \<Rightarrow> io_return p)))"

section \<open>Output\<close>

text \<open>\<open>%-10s\<close> pads to ten characters: bytes that do not continue a UTF-8 sequence.\<close>

definition char_count :: "string \<Rightarrow> nat" where
  "char_count s = length (filter (\<lambda>c. (of_char c :: nat) div 64 \<noteq> 2) s)"

definition pad10 :: "string \<Rightarrow> string" where
  "pad10 s = s @ replicate (10 - char_count s) (CHR '' '')"

definition print_account :: "account \<Rightarrow> string" where
  "print_account a = ''  '' @ pad10 (acc_chain a) @ '' '' @ acc_address a @ newline"

definition print_wallet :: "texts \<Rightarrow> wallet \<Rightarrow> string" where
  "print_wallet tx w =
     ''ID:      '' @ w_id w @ newline @
     ''Label:   '' @ w_label w @ newline @
     ''Created: '' @ time_text (txt_zone tx) (w_created w) @ newline @
     ''Accounts:'' @ newline @
     concat (map print_account (w_accounts w))"

text \<open>An empty line before every wallet but the first.\<close>

fun print_wallets :: "texts \<Rightarrow> nat \<Rightarrow> wallet list \<Rightarrow> string" where
  "print_wallets tx i [] = []"
| "print_wallets tx i (w # ws) =
     (if i > 0 then newline else []) @ print_wallet tx w @ print_wallets tx (i + 1) ws"

definition print_tx :: "transaction \<Rightarrow> string" where
  "print_tx tx =
     ''chain          '' @ tx_chain tx @ newline @
     ''hash           '' @ tx_hash tx @ newline @
     ''status         '' @ tx_status tx @ newline @
     ''confirmations  '' @ show_nat (unat (tx_confirmations tx)) @ newline @
     (if tx_block_height tx > 0
      then ''block          '' @ show_nat (unat (tx_block_height tx)) @ newline else [])"

text \<open>With \<open>--json\<close> the value, the error of the encoder being the command's; else the text.\<close>

definition emit :: "texts \<Rightarrow> bool \<Rightarrow> payload \<Rightarrow> string \<Rightarrow> string go" where
  "emit tx json_out v text = (if json_out then encode_indent tx v else Val text)"

section \<open>Commands\<close>

definition cli_wallet_create :: "'w terminal \<Rightarrow> ('w, 'c) app \<Rightarrow> bool \<Rightarrow> string \<Rightarrow> ('w, string) io" where
  "cli_wallet_create te a json_out label =
     io_bind (read_passphrase te) (\<lambda>pass.
     io_bind (wallet_create (app_registry a) (app_keys a) (app_repo a) (app_now a) label pass) (\<lambda>w.
     io_lift (emit (app_texts a) json_out (PWallet w) (print_wallet (app_texts a) w))))"

definition cli_wallet_list :: "'w terminal \<Rightarrow> ('w, 'c) app \<Rightarrow> bool \<Rightarrow> ('w, string) io" where
  "cli_wallet_list te a json_out =
     io_bind (wallet_list (app_repo a)) (\<lambda>wallets.
     io_lift (emit (app_texts a) json_out (PWallets wallets) (print_wallets (app_texts a) 0 wallets)))"

definition cli_wallet_get :: "'w terminal \<Rightarrow> ('w, 'c) app \<Rightarrow> bool \<Rightarrow> string \<Rightarrow> ('w, string) io" where
  "cli_wallet_get te a json_out i =
     io_bind (wallet_get (app_repo a) i) (\<lambda>w.
     io_lift (emit (app_texts a) json_out (PWallet w) (print_wallet (app_texts a) w)))"

definition cli_wallet_balance :: "('w, 'c) app \<Rightarrow> bool \<Rightarrow> string \<Rightarrow> string \<Rightarrow> ('w, string) io" where
  "cli_wallet_balance a json_out i chain =
     io_bind (wallet_balance (app_registry a) (app_repo a) i chain) (\<lambda>amt.
     io_lift (emit (app_texts a) json_out (PFields (balance_fields chain amt))
       (pad10 chain @ '' '' @ base_string amt @ '' '' @ asset_symbol (amt_asset amt) @ newline)))"

record transfer_flags =
  tf_wallet :: string
  tf_chain :: string
  tf_from :: string
  tf_to :: string
  tf_amount :: string
  tf_speed :: string
  tf_env :: string

definition cli_tx_transfer :: "'w terminal \<Rightarrow> ('w, 'c) app \<Rightarrow> bool \<Rightarrow> transfer_flags \<Rightarrow> ('w, string) io" where
  "cli_tx_transfer te a json_out tf =
     io_bind (read_passphrase te) (\<lambda>pass.
     case set_string10 (tf_amount tf) of
       None \<Rightarrow> io_fail (Errorf ''invalid amount: %q'' [AStr (tf_amount tf)])
     | Some amt \<Rightarrow>
         io_bind (tx_transfer (app_registry a) (app_keys a) (app_repo a) (tf_wallet tf) pass
                    (native_request (tf_chain tf) (tf_env tf) (tf_from tf) (tf_to tf) amt (tf_speed tf))) (\<lambda>hash.
         io_lift (emit (app_texts a) json_out (PFields [(''hash'', hash)]) (''hash  '' @ hash @ newline))))"

definition cli_tx_status :: "('w, 'c) app \<Rightarrow> bool \<Rightarrow> string \<Rightarrow> string \<Rightarrow> ('w, string) io" where
  "cli_tx_status a json_out chain hash =
     io_bind (tx_status_of (app_registry a) chain hash) (\<lambda>tx.
     io_lift (emit (app_texts a) json_out (PTransaction tx) (print_tx tx)))"

section \<open>The command tree\<close>

text \<open>
  A leaf command: its path below the root, the number of positional arguments it insists on, and
  its flags with whether they are required.
\<close>

record cli_spec =
  sp_path :: "string list"
  sp_args :: "nat option"
  sp_flags :: "(string \<times> bool) list"

definition create_spec :: cli_spec where
  "create_spec = \<lparr>sp_path = [''wallet'', ''create''], sp_args = None, sp_flags = [(''label'', True)]\<rparr>"

definition list_spec :: cli_spec where
  "list_spec = \<lparr>sp_path = [''wallet'', ''list''], sp_args = None, sp_flags = []\<rparr>"

definition get_spec :: cli_spec where
  "get_spec = \<lparr>sp_path = [''wallet'', ''get''], sp_args = Some 1, sp_flags = []\<rparr>"

definition balance_spec :: cli_spec where
  "balance_spec = \<lparr>sp_path = [''wallet'', ''balance''], sp_args = Some 1, sp_flags = [(''chain'', True)]\<rparr>"

definition transfer_spec :: cli_spec where
  "transfer_spec = \<lparr>sp_path = [''tx'', ''transfer''], sp_args = None,
     sp_flags = [(''wallet'', True), (''chain'', True), (''from'', True), (''to'', True),
       (''amount'', True), (''speed'', False), (''env'', False)]\<rparr>"

definition status_spec :: cli_spec where
  "status_spec = \<lparr>sp_path = [''tx'', ''status''], sp_args = Some 1, sp_flags = [(''chain'', True)]\<rparr>"

definition wallet_specs :: "cli_spec list" where
  "wallet_specs = [create_spec, list_spec, get_spec, balance_spec]"

definition tx_specs :: "cli_spec list" where
  "tx_specs = [transfer_spec, status_spec]"

definition cli_specs :: "cli_spec list" where
  "cli_specs = wallet_specs @ tx_specs"

text \<open>
  What cobra makes of the arguments: the leaf command's path with its positional arguments and the
  flags given, \<open>pa_json\<close> being the persistent flag of the root; or, for a command without an
  action of its own, the help text.
\<close>

record parsed =
  pa_path :: "string list"
  pa_args :: "string list"
  pa_flags :: "(string \<times> string) list"
  pa_json :: bool

datatype cli_parse = Help string | Run parsed

type_synonym cobra = "cli_spec list \<Rightarrow> string list \<Rightarrow> cli_parse go"

definition first_arg :: "string list \<Rightarrow> string go" where
  "first_arg args = (case args of [] \<Rightarrow> Panic | x # _ \<Rightarrow> Val x)"

definition flags_of :: "parsed \<Rightarrow> transfer_flags" where
  "flags_of p = (let f = param (pa_flags p)
     in \<lparr>tf_wallet = f ''wallet'', tf_chain = f ''chain'', tf_from = f ''from'', tf_to = f ''to'',
         tf_amount = f ''amount'', tf_speed = f ''speed'', tf_env = f ''env''\<rparr>)"

text \<open>The unset value of every flag is the empty string.\<close>

definition run_command :: "'w terminal \<Rightarrow> ('w, 'c) app \<Rightarrow> parsed \<Rightarrow> ('w, string) io" where
  "run_command te a p =
     (let flag = param (pa_flags p); arg = io_lift (first_arg (pa_args p)); j = pa_json p
      in if pa_path p = [''wallet'', ''create''] then cli_wallet_create te a j (flag ''label'')
         else if pa_path p = [''wallet'', ''list''] then cli_wallet_list te a j
         else if pa_path p = [''wallet'', ''get''] then io_bind arg (cli_wallet_get te a j)
         else if pa_path p = [''wallet'', ''balance''] then
           io_bind arg (\<lambda>i. cli_wallet_balance a j i (flag ''chain''))
         else if pa_path p = [''tx'', ''transfer''] then cli_tx_transfer te a j (flags_of p)
         else if pa_path p = [''tx'', ''status''] then
           io_bind arg (cli_tx_status a j (flag ''chain''))
         else io_return [])"

definition cli_run :: "cobra \<Rightarrow> 'w terminal \<Rightarrow> ('w, 'c) app \<Rightarrow> string list \<Rightarrow> ('w, string) io" where
  "cli_run cobra te a args =
     io_bind (io_lift (cobra cli_specs args)) (\<lambda>r.
     case r of Help text \<Rightarrow> io_return text | Run p \<Rightarrow> run_command te a p)"

section \<open>One service behind both transports\<close>

text \<open>
  C28. The same transfer asked for over HTTP and on the command line does the same: an amount that is
  not a decimal number is refused by both without any effect, and else both make one call of the
  transfer service with the same wallet, passphrase and request (environment and speed filled in
  the same way), report the hash it returns and otherwise its error.
\<close>

theorem http_cli_transfer_agree:
  assumes "decode_transfer body = Val q"
    and "read_passphrase te v = (Val (bytes_of (tq_passphrase q)), w)"
    and "tf = \<lparr>tf_wallet = tq_wallet_id q, tf_chain = tq_chain q, tf_from = tq_from q, tf_to = tq_to q,
                tf_amount = tq_amount q, tf_speed = tq_speed q, tf_env = tq_env q\<rparr>"
  shows "(case set_string10 (tq_amount q) of
      None \<Rightarrow>
        http_transfer a body w = (Val invalid_amount_response, w) \<and>
        cli_tx_transfer te a j tf v = (Err (Errorf ''invalid amount: %q'' [AStr (tq_amount q)]), w)
    | Some amt \<Rightarrow>
        (\<exists>r w'. tx_transfer (app_registry a) (app_keys a) (app_repo a) (tq_wallet_id q)
             (bytes_of (tq_passphrase q))
             \<lparr>req_network = \<lparr>net_chain = tq_chain q, net_env = (if tq_env q = [] then EnvLocal else tq_env q)\<rparr>,
              req_from = tq_from q, req_to = tq_to q,
              req_amount = \<lparr>amt_asset = zero_asset\<lparr>asset_native := True\<rparr>, amt_base = Some amt\<rparr>,
              req_speed = (if tq_speed q = [] then SpeedStandard else tq_speed q)\<rparr> w = (r, w') \<and>
           http_transfer a body w =
             (case r of Val hash \<Rightarrow> Val (write_json (app_texts a) 200 (PFields [(''hash'', hash)]))
                      | Err e \<Rightarrow> Val (write_err (app_texts a) 500 e) | Panic \<Rightarrow> Panic, w') \<and>
           cli_tx_transfer te a j tf v =
             (case r of Val hash \<Rightarrow> emit (app_texts a) j (PFields [(''hash'', hash)]) (''hash  '' @ hash @ newline)
                      | Err e \<Rightarrow> Err e | Panic \<Rightarrow> Panic, w')))"
proof (cases "set_string10 (tq_amount q)")
  case None
  then show ?thesis
    using assms by (simp add: http_transfer_def cli_tx_transfer_def with_request_eval io_bind_def)
next
  case (Some amt)
  let ?req = "native_request (tq_chain q) (tq_env q) (tq_from q) (tq_to q) amt (tq_speed q)"
  obtain r w' where call: "tx_transfer (app_registry a) (app_keys a) (app_repo a) (tq_wallet_id q)
      (bytes_of (tq_passphrase q)) ?req w = (r, w')"
    by (cases "tx_transfer (app_registry a) (app_keys a) (app_repo a) (tq_wallet_id q)
      (bytes_of (tq_passphrase q)) ?req w")
  have "http_transfer a body w = (case r of Val hash \<Rightarrow> Val (write_json (app_texts a) 200 (PFields [(''hash'', hash)]))
      | Err e \<Rightarrow> Val (write_err (app_texts a) 500 e) | Panic \<Rightarrow> Panic, w')"
    using assms(1) Some call by (cases r) (simp_all add: http_transfer_def with_request_eval answer_eval)
  moreover have "cli_tx_transfer te a j tf v =
      (case r of Val hash \<Rightarrow> emit (app_texts a) j (PFields [(''hash'', hash)]) (''hash  '' @ hash @ newline)
        | Err e \<Rightarrow> Err e | Panic \<Rightarrow> Panic, w')"
    using assms(2,3) Some call by (cases r) (simp_all add: cli_tx_transfer_def io_bind_def)
  ultimately show ?thesis
    using Some call by (auto simp: native_request_def)
qed

definition sample_terminal :: "engine terminal" where
  "sample_terminal = \<lparr>te_stderr = (\<lambda>_. io_return ()), te_read_password = io_return [5]\<rparr>"

theorem http_cli_transfer_agree_witness:
  "http_transfer sample_app (sample_body ''-x'') sample_engine = (Val invalid_amount_response, sample_engine) \<and>
   cli_tx_transfer sample_terminal sample_app True
     \<lparr>tf_wallet = ''w1'', tf_chain = ChainBase, tf_from = [], tf_to = [], tf_amount = ''-x'', tf_speed = [], tf_env = []\<rparr>
     sample_engine = (Err (Errorf ''invalid amount: %q'' [AStr ''-x'']), sample_engine)"
proof -
  have pass: "read_passphrase sample_terminal sample_engine = (Val (bytes_of [CHR 0x05]), sample_engine)"
    by (simp add: read_passphrase_def sample_terminal_def io_bind_def io_try_def bytes_of_def)
  have amt: "set_string10 ''-x'' = None" "valid_utf8 ''-x''" by code_simp+
  show ?thesis
    using http_cli_transfer_agree[OF sample_decoded[OF amt(2)], where te = sample_terminal and v = sample_engine
        and w = sample_engine and a = sample_app and j = True]
      pass amt by (simp add: sample_transfer_def del: set_string10.simps)
qed

section \<open>Queries over both transports\<close>

text \<open>The four questions both transports answer, as the request and as the command line that ask them.\<close>

datatype query = ListQuery | WalletQuery string | BalanceQuery string chain_id | StatusQuery chain_id string

fun http_query :: "('w, 'c) app \<Rightarrow> query \<Rightarrow> ('w, http_response) io" where
  "http_query a ListQuery = run_handler a [] [] ListWallets"
| "http_query a (WalletQuery i) = run_handler a [(''id'', i)] [] GetWallet"
| "http_query a (BalanceQuery i c) = run_handler a [(''id'', i), (''chain'', c)] [] WalletBalance"
| "http_query a (StatusQuery c h) = run_handler a [(''chain'', c), (''hash'', h)] [] TxStatus"

fun json_command :: "query \<Rightarrow> parsed" where
  "json_command ListQuery = \<lparr>pa_path = [''wallet'', ''list''], pa_args = [], pa_flags = [], pa_json = True\<rparr>"
| "json_command (WalletQuery i) = \<lparr>pa_path = [''wallet'', ''get''], pa_args = [i], pa_flags = [], pa_json = True\<rparr>"
| "json_command (BalanceQuery i c) =
     \<lparr>pa_path = [''wallet'', ''balance''], pa_args = [i], pa_flags = [(''chain'', c)], pa_json = True\<rparr>"
| "json_command (StatusQuery c h) =
     \<lparr>pa_path = [''tx'', ''status''], pa_args = [h], pa_flags = [(''chain'', c)], pa_json = True\<rparr>"

definition answers_agree :: "texts \<Rightarrow> http_response go \<times> 'w \<Rightarrow> string go \<times> 'w \<Rightarrow> bool" where
  "answers_agree tx over_http on_cli =
     (case on_cli of
        (Val out, w') \<Rightarrow> \<exists>resp v. over_http = (Val resp, w') \<and> rs_status resp = 200 \<and>
          first_value (rs_body resp) = Some (v, newline) \<and> first_value out = Some (v, newline)
      | (Err e, w') \<Rightarrow> \<exists>resp. over_http = (Val resp, w') \<and>
          ((\<exists>p. encode_indent tx p = Err e) \<and> rs_status resp = 200 \<and> rs_body resp = [] \<or>
           rs_status resp \<in> {404, 500} \<and>
           first_value (rs_body resp) = Some (JObject [(''error'', JText (to_valid (error_text tx e)))], newline))
      | (Panic, w') \<Rightarrow> over_http = (Panic, w'))"

lemma error_body:
  "first_value (rs_body (write_err tx st e)) = Some (JObject [(''error'', JText (to_valid (error_text tx e)))], newline)"
proof -
  have enc: "encode_compact tx (PError e) = Val (json_print (JObject [(''error'', JText (error_text tx e))]) @ newline)"
    by (simp add: encode_compact_def)
  have "to_valid ''error'' = ''error''" by code_simp
  then show ?thesis
    using compact_text_parses[OF enc] by (simp add: write_err_def write_json_def enc)
qed

lemma answers_agree_calls:
  assumes "st \<in> {404, 500}"
  shows "answers_agree tx (answer tx st 200 ok call w) (io_bind call (\<lambda>x. io_lift (emit tx True (ok x) (shown x))) w)"
proof -
  obtain r w' where call: "call w = (r, w')" by (cases "call w")
  show ?thesis
  proof (cases r)
    case (Val x)
    show ?thesis
    proof (cases "payload_json tx (ok x)")
      case j: (Val v)
      then have "encode_compact tx (ok x) = Val (json_print v @ newline)"
        "encode_indent tx (ok x) = Val (json_indent v @ newline)"
        by (simp_all add: encode_compact_def encode_indent_def)
      from this compact_text_parses[OF this(1)] indented_text_parses[OF this(2)] j Val show ?thesis
        by (simp add: answers_agree_def answer_eval call io_bind_def emit_def write_json_def)
    next
      case (Err e)
      then have "encode_indent tx (ok x) = Err e" "encode_compact tx (ok x) = Err e"
        by (simp_all add: encode_indent_def encode_compact_def)
      then show ?thesis using Val
        by (auto simp: answers_agree_def answer_eval call io_bind_def emit_def write_json_def)
    next
      case Panic
      then show ?thesis using encode_total by metis
    qed
  next
    case (Err e)
    then show ?thesis using assms
      by (auto simp: answers_agree_def answer_eval call io_bind_def error_body)
  next
    case Panic
    then show ?thesis by (simp add: answers_agree_def answer_eval call io_bind_def)
  qed
qed

lemma queries_agree:
  "answers_agree (app_texts a) (http_query a q w) (run_command te a (json_command q) w)"
proof (cases q)
  case ListQuery
  then show ?thesis
    by (simp add: http_list_wallets_def run_command_def cli_wallet_list_def answers_agree_calls)
next
  case (WalletQuery i)
  then show ?thesis
    by (simp add: http_get_wallet_def run_command_def cli_wallet_get_def io_bind_def[of "io_lift _"] first_arg_def
        param_def answers_agree_calls)
next
  case (BalanceQuery i c)
  then show ?thesis
    by (simp add: http_wallet_balance_def run_command_def cli_wallet_balance_def io_bind_def[of "io_lift _"]
        first_arg_def param_def answers_agree_calls)
next
  case (StatusQuery c h)
  then show ?thesis
    by (simp add: http_tx_status_def run_command_def cli_tx_status_def io_bind_def[of "io_lift _"] first_arg_def
        param_def answers_agree_calls)
qed

text \<open>
  C29. Asked the same question in the same state (and time zone), the HTTP API and the command line with
  \<open>--json\<close> leave the same state and give the same answer: the two texts, compact and indented, are
  read as the same JSON value. When the service fails, the body is the JSON of the error the
  command fails with, under status 404 or 500; when the value cannot be written as JSON (a year
  outside 0 to 9999), the command fails, but HTTP has already sent its 200 and leaves the body empty.
\<close>

theorem http_cli_answers_agree:
  "case run_command te a (json_command q) w of
     (Val out, w') \<Rightarrow> \<exists>resp v. http_query a q w = (Val resp, w') \<and> rs_status resp = 200 \<and>
       first_value (rs_body resp) = Some (v, newline) \<and> first_value out = Some (v, newline)
   | (Err e, w') \<Rightarrow> \<exists>resp. http_query a q w = (Val resp, w') \<and>
       ((\<exists>p. encode_indent (app_texts a) p = Err e) \<and> rs_status resp = 200 \<and> rs_body resp = [] \<or>
        rs_status resp \<in> {404, 500} \<and>
        first_value (rs_body resp) =
          Some (JObject [(''error'', JText (to_valid (error_text (app_texts a) e)))], newline))
   | (Panic, w') \<Rightarrow> http_query a q w = (Panic, w')"
  by (rule queries_agree[unfolded answers_agree_def])

end
