(* ===== verification/Program.thy ===== *)
theory Program
  imports Monitor Cli Events
begin

text \<open>
  The composition of the parts: \<^verbatim>\<open>cmd/api/main.go\<close> (the watchers, the publisher, what is
  monitored from the start), the body of the monitoring loop over a real repository and
  publisher, and what holds from one end of the program to the other: a transfer of a created
  wallet is signed by the key of its own address, and an event of a watched chain is filed under
  the wallet that owns the address.
\<close>

section \<open>Watchers\<close>

text \<open>\<open>NewWatcher\<close> after dialling: no cursor store; \<open>SetCursorStore\<close> gives it one.\<close>

definition new_watcher :: "'tx evm_lib \<Rightarrow> evm_config \<Rightarrow> ('w, 64 word) io \<Rightarrow> ('w, 'tx) watcher" where
  "new_watcher lib cfg block_number =
     \<lparr>wt_lib = lib, wt_cfg = cfg, wt_block_number = block_number, wt_cursor = None\<rparr>"

definition set_cursor_store :: "'w cursor_store \<Rightarrow> ('w, 'tx) watcher \<Rightarrow> ('w, 'tx) watcher" where
  "set_cursor_store store wt = wt\<lparr>wt_cursor := Some store\<rparr>"

text \<open>
  \<open>Watch\<close> starts the goroutine and returns its channel: the parameters of \<open>poll\<close> and the
  height it starts after.
\<close>

record 'tx watch =
  wa_params :: "'tx poll_params"
  wa_start :: "64 word"

definition evm_watch :: "('w, 'tx) watcher \<Rightarrow> address list \<Rightarrow> ('w, 'tx watch) io" where
  "evm_watch wt addrs =
     io_bind (watch_from wt) (\<lambda>start.
     io_return \<lparr>wa_params = \<lparr>pp_lib = wt_lib wt, pp_chain = cfg_chain (wt_cfg wt),
         pp_signer = cfg_chain_id (wt_cfg wt), pp_watched = build_watched (wt_lib wt) addrs,
         pp_cursor_on = (wt_cursor wt \<noteq> None)\<rparr>, wa_start = start\<rparr>)"

definition evm_watcher :: "('w, 'tx) watcher \<Rightarrow> ('w, 'tx watch) chain_watcher" where
  "evm_watcher wt = \<lparr>cw_chain = cfg_chain (wt_cfg wt), cw_watch = evm_watch wt\<rparr>"

section \<open>The API's wiring\<close>

definition eth_config :: "config \<Rightarrow> evm_config" where
  "eth_config conf = \<lparr>cfg_rpc_url = evm_rpc_url (conf_ethereum conf),
     cfg_chain_id = evm_chain_id (conf_ethereum conf), cfg_chain = ChainEthereum\<rparr>"

definition base_config :: "config \<Rightarrow> evm_config" where
  "base_config conf = \<lparr>cfg_rpc_url = evm_rpc_url (conf_base conf),
     cfg_chain_id = evm_chain_id (conf_base conf), cfg_chain = ChainBase\<rparr>"

text \<open>\<open>eth_tip\<close> and \<open>base_tip\<close> are the two nodes' \<open>BlockNumber\<close> calls.\<close>

definition api_registry ::
  "'w chain_adapter list \<Rightarrow> 'tx evm_lib \<Rightarrow> config \<Rightarrow> ('w, 64 word) io \<Rightarrow> ('w, 64 word) io \<Rightarrow> 'w cursor_store
     \<Rightarrow> ('w, 'tx watch) registry" where
  "api_registry adapters lib conf eth_tip base_tip cursors =
     (let registry = new_registry adapters;
          ethWatcher = set_cursor_store cursors (new_watcher lib (eth_config conf) eth_tip);
          baseWatcher = set_cursor_store cursors (new_watcher lib (base_config conf) base_tip)
      in register_watcher (register_watcher registry (evm_watcher ethWatcher)) (evm_watcher baseWatcher))"

text \<open>The command line's own list of adapters, and the two applications.\<close>

definition cli_adapters ::
  "'tx evm_lib \<Rightarrow> config \<Rightarrow> 'k hdkeychain \<Rightarrow> ('w, 'tx) evm_client \<Rightarrow> ('w, 'tx) evm_client \<Rightarrow>
   btc_lib \<Rightarrow> (utxo list \<Rightarrow> utxo list) \<Rightarrow> 'w btc_node \<Rightarrow> 's sol_lib \<Rightarrow> ('w, 's) sol_client \<Rightarrow>
   tron_lib \<Rightarrow> 'w http_client \<Rightarrow> 'w chain_adapter list" where
  "cli_adapters elib conf hk eth base blib srt btc slib sol tlib http =
     [evm_adapter elib (eth_config conf) hk eth, evm_adapter elib (base_config conf) hk base,
      bitcoin_adapter blib srt hk btc, solana_adapter slib sol,
      tron_adapter tlib \<lparr>tron_rpc_url = conf_tron_url conf\<rparr> hk http]"

definition cli_app ::
  "(chain_id list \<Rightarrow> chain_id list) \<Rightarrow> 'w chain_adapter list \<Rightarrow> 'w key_store \<Rightarrow> ('w, 't) pool \<Rightarrow> 'w clock \<Rightarrow> texts \<Rightarrow> ('w, 'c) app" where
  "cli_app ord adapters keys pool now tx =
     \<lparr>app_registry = registry_as_port ord (new_registry adapters), app_keys = keys,
      app_repo = postgres_repo pool, app_now = now, app_texts = tx\<rparr>"

definition api_app ::
  "(chain_id list \<Rightarrow> chain_id list) \<Rightarrow> ('w, 'c) registry \<Rightarrow> 'w key_store \<Rightarrow> ('w, 't) pool \<Rightarrow> 'w clock \<Rightarrow> texts \<Rightarrow> ('w, 'c) app" where
  "api_app ord registry keys pool now tx =
     \<lparr>app_registry = registry_as_port ord registry, app_keys = keys,
      app_repo = postgres_repo pool, app_now = now, app_texts = tx\<rparr>"

definition api_publisher :: "config \<Rightarrow> (writer_settings \<Rightarrow> 'w kafka_writer) \<Rightarrow> 'w publisher" where
  "api_publisher conf writer =
     (if kafka_enabled (conf_kafka conf)
      then kafka_publisher (kafka_new writer (kafka_brokers (conf_kafka conf)) (kafka_topic (conf_kafka conf)))
      else noop_publisher)"

text \<open>Both programs offer the same services: the watchers of the API make no difference to them.\<close>

lemma cli_adapters_same: "cli_adapters = all_adapters"
  by (intro ext) (simp add: cli_adapters_def all_adapters_def eth_config_def base_config_def)

lemma derive_accounts_cong:
  "rg_adapter rg = rg_adapter rg' \<Longrightarrow> derive_accounts rg seed ids = derive_accounts rg' seed ids"
  by (induction ids) (simp_all cong: go.case_cong)

lemma api_cli_same_services:
  fixes adapters :: "'w chain_adapter list"
    and cli :: "('w, 'c) registry_port"
  assumes api_def: "api = registry_as_port ord (api_registry adapters lib conf eth_tip base_tip cursors)"
    and cli_def: "cli = program_registry ord adapters"
  shows "wallet_create api keys repo now = wallet_create cli keys repo now"
    and "wallet_balance api repo = wallet_balance cli repo"
    and "tx_transfer api keys repo = tx_transfer cli keys repo"
    and "tx_status_of api = tx_status_of cli"
proof -
  have sup: "rg_supported api = rg_supported cli"
    by (simp add: api_def cli_def program_registry_def registry_as_port_def api_registry_def Let_def
        registry_supported_def new_registry_unfold register_watcher_def)
  have ad: "rg_adapter api = rg_adapter cli"
    by (rule ext) (simp add: api_def cli_def program_registry_def registry_as_port_def api_registry_def Let_def
        registry_adapter_new)
  show "wallet_create api keys repo now = wallet_create cli keys repo now"
    unfolding wallet_create_def sup derive_accounts_cong[OF ad] ..
  show "wallet_balance api repo = wallet_balance cli repo" unfolding wallet_balance_def ad ..
  show "tx_transfer api keys repo = tx_transfer cli keys repo" unfolding tx_transfer_def ad ..
  show "tx_status_of api = tx_status_of cli" unfolding tx_status_of_def ad ..
qed

section \<open>The body of the monitoring loop\<close>

definition handle_event ::
  "'w tx_repo \<Rightarrow> 'w publisher \<Rightarrow> (address \<times> string) list \<Rightarrow> tx_event \<Rightarrow> ('w, unit) io" where
  "handle_event txr pub addrs evt =
     io_bind (txr_save_event txr (param addrs (ev_address evt)) evt) (\<lambda>_. pub_publish pub evt)"

text \<open>
  The calls the loop body makes are recorded where they are answered: a repository and a publisher
  that keep, beside their own state, the arguments of the calls that succeeded.
\<close>

type_synonym 'w recorded = "'w \<times> (string \<times> tx_event) list \<times> tx_event list"

definition recording_repo :: "'w tx_repo \<Rightarrow> 'w recorded tx_repo" where
  "recording_repo txr = \<lparr>txr_save_event = (\<lambda>i e (w, saved, published).
     case txr_save_event txr i e w of
       (Val u, w') \<Rightarrow> (Val u, w', saved @ [(i, e)], published)
     | (r, w') \<Rightarrow> (r, w', saved, published))\<rparr>"

definition recording_publisher :: "'w publisher \<Rightarrow> 'w recorded publisher" where
  "recording_publisher pub = \<lparr>pub_publish = (\<lambda>e (w, saved, published).
     case pub_publish pub e w of
       (Val u, w') \<Rightarrow> (Val u, w', saved, published @ [e])
     | (r, w') \<Rightarrow> (r, w', saved, published))\<rparr>"

text \<open>
  C13. The loop body, run with a repository and a publisher that record the calls that succeed, takes the
  monitor exactly where the step relation can take it with those calls: what the relation has saved
  and published is what the repository and the publisher were given, and under the wallet the address
  belongs to. It goes on when the body returns no error; when the body returns one, that is the error
  of the call that failed, and \<open>Watch\<close> has returned it; when a call panics, the body is left at
  that call.
\<close>

theorem handle_refines_pipe:
  assumes "pl_monitor s = Saving e"
    and "handle_event (recording_repo txr) (recording_publisher pub) addrs e (w, pl_saved s, pl_published s) =
           (r, w', saved, published)"
  shows "\<exists>t. pipe_steps pp addrs s t \<and> pl_poll t = pl_poll s \<and> pl_saved t = saved \<and> pl_published t = published \<and>
           (case r of Val _ \<Rightarrow> pl_monitor t = Selecting
                    | Err x \<Rightarrow> pl_monitor t = MonitorReturned (Err x) \<and>
                        (txr_save_event txr (param addrs (ev_address e)) e w = (Err x, w') \<or>
                         (\<exists>v. pub_publish pub e v = (Err x, w')))
                    | Panic \<Rightarrow> pl_monitor t \<in> {Saving e, Publishing e})"
proof -
  let ?i = "param addrs (ev_address e)"
  let ?s1 = "s\<lparr>pl_monitor := Publishing e, pl_saved := pl_saved s @ [(?i, e)]\<rparr>"
  have saved: "pipe_steps pp addrs s ?s1"
    using pipe_refl save_ok[OF assms(1)] by (rule pipe_more)
  have at: "pl_monitor ?s1 = Publishing e" by simp
  note published = pipe_more[OF saved publish_ok[OF at]] and publish_failed = pipe_more[OF saved publish_err[OF at]]
    and save_failed = pipe_more[OF pipe_refl save_err[OF assms(1)]]
  note body = assms(2)[unfolded handle_event_def io_bind_def recording_repo_def recording_publisher_def, simplified]
  obtain q w1 where save: "txr_save_event txr ?i e w = (q, w1)" by fastforce
  obtain p w2 where publish: "pub_publish pub e w1 = (p, w2)" by fastforce
  consider "q = Val ()" "p = Val ()" | x where "q = Val ()" "p = Err x" | "q = Val ()" "p = Panic"
    | x where "q = Err x" | "q = Panic" by (cases q; cases p) auto
  then show ?thesis
  proof cases
    case 1
    show ?thesis by (rule exI, rule conjI, rule published) (use 1 body save publish in \<open>auto\<close>)
  next
    case 2
    show ?thesis by (rule exI, rule conjI, rule publish_failed) (use 2 body save publish in \<open>auto\<close>)
  next
    case 3
    show ?thesis by (rule exI, rule conjI, rule saved) (use 3 body save publish in \<open>auto\<close>)
  next
    case 4
    show ?thesis by (rule exI, rule conjI, rule save_failed) (use 4 body save in \<open>auto\<close>)
  next
    case 5
    show ?thesis by (rule exI, rule conjI, rule pipe_refl) (use 5 body save assms(1) in \<open>auto\<close>)
  qed
qed

section \<open>Monitoring from the start of the program\<close>

lemma watched_unique:
  assumes "\<And>w1 w2 a1 a2. \<lbrakk>w1 \<in> set ws; w2 \<in> set ws; wallet_account w1 chain = Some a1;
      wallet_account w2 chain = Some a2; acc_address a1 = acc_address a2\<rbrakk> \<Longrightarrow> w_id w1 = w_id w2"
  shows "map_of (watched_addresses chain ws) a = Some i \<longleftrightarrow>
           (\<exists>w \<in> set ws. w_id w = i \<and> (\<exists>acc. wallet_account w chain = Some acc \<and> acc_address acc = a))"
proof
  assume "map_of (watched_addresses chain ws) a = Some i"
  from watched_addresses_owner[OF this]
  show "\<exists>w \<in> set ws. w_id w = i \<and> (\<exists>acc. wallet_account w chain = Some acc \<and> acc_address acc = a)" by blast
next
  assume "\<exists>w \<in> set ws. w_id w = i \<and> (\<exists>acc. wallet_account w chain = Some acc \<and> acc_address acc = a)"
  then obtain w acc where w: "w \<in> set ws" "w_id w = i" "wallet_account w chain = Some acc" "acc_address acc = a"
    by blast
  from watched_addresses_complete[OF w(1,3)] obtain j where
    j: "map_of (watched_addresses chain ws) (acc_address acc) = Some j" by blast
  from watched_addresses_owner[OF j] obtain v bcc where "v \<in> set ws" "w_id v = j"
    "wallet_account v chain = Some bcc" "acc_address bcc = acc_address acc" by blast
  with assms[OF this(1) w(1) this(3) w(3) this(4)] w j show "map_of (watched_addresses chain ws) a = Some i" by simp
qed

text \<open>The unique index on chain and address: an address of a chain has one owner.\<close>

lemma address_owner:
  assumes "schema_ok T" and "wallet_view T i = Some v" and "wallet_view T j = Some u"
    and "wallet_account v c = Some a" and "wallet_account u c = Some b" and "acc_address a = acc_address b"
  shows "i = j"
proof -
  have row: "\<exists>r \<in> set (tb_accounts T). acr_wallet r = k \<and> acr_chain r = c \<and> acr_address r = acc_address d"
    if "wallet_view T k = Some x" "wallet_account x c = Some d" for k x d
    using that wallet_view_account[OF that(1), of c]
    by (auto simp: account_at_def account_of_row_def find_Some_iff)
  from row[OF assms(2,4)] obtain r where r: "r \<in> set (tb_accounts T)" "acr_wallet r = i" "acr_chain r = c"
    "acr_address r = acc_address a" by blast
  from row[OF assms(3,5)] obtain q where q: "q \<in> set (tb_accounts T)" "acr_wallet q = j" "acr_chain q = c"
    "acr_address q = acc_address b" by blast
  have "inj_on (\<lambda>a. (acr_chain a, acr_address a)) (set (tb_accounts T))"
    using assms(1) by (simp add: schema_ok_def accounts_ok_def distinct_map)
  then have "r = q" by (rule inj_onD) (use r q assms(6) in simp_all)
  with r q show ?thesis by simp
qed

context postgres
begin

lemma plan_owner:
  assumes "inv w" and "start_monitoring (postgres_repo pool) w = (Val plan, w1)" and "(chain, addrs) \<in> set plan"
  shows "map_of addrs a = Some i \<longleftrightarrow>
           (\<exists>v acc. wallet_view (committed w) i = Some v \<and> wallet_account v chain = Some acc \<and> acc_address acc = a)"
proof -
  from assms(2,3) obtain ws where ws: "wr_list (postgres_repo pool) w = (Val ws, w1)"
    and addrs: "addrs = watched_addresses chain ws"
    by (auto simp: start_monitoring_def io_bind_eq_Val_iff io_try_eq_Val_iff split: sum.splits)
  have iff: "(\<exists>x \<in> set ws. w_id x = k \<and> wallet_account x c = Some d) \<longleftrightarrow>
      (\<exists>v. wallet_view (committed w) k = Some v \<and> wallet_account v c = Some d)" for k c d
    by (rule wallets.list_account[OF assms(1) ws])
  have one: "w_id x = w_id y" if "x \<in> set ws" "y \<in> set ws" "wallet_account x chain = Some a1"
    "wallet_account y chain = Some a2" "acc_address a1 = acc_address a2" for x y a1 a2
    using iff[of "w_id x" chain a1] iff[of "w_id y" chain a2] that
      address_owner[OF schema[OF assms(1)]] by blast
  have "map_of addrs a = Some i \<longleftrightarrow>
      (\<exists>x \<in> set ws. w_id x = i \<and> (\<exists>acc. wallet_account x chain = Some acc \<and> acc_address acc = a))"
    unfolding addrs by (rule watched_unique) (rule one)
  then show ?thesis using iff[of i chain] by blast
qed

end

lemma no_watcher [simp]: "registry_watcher (new_registry as) c \<noteq> Val cw"
  by (metis registry_watcher_new go.distinct(1))

lemma api_watchers:
  "rg_watcher (registry_as_port ord (api_registry adapters lib conf eth_tip base_tip cursors)) chain = Val cw \<Longrightarrow>
     (chain = ChainEthereum \<and> cw = evm_watcher (set_cursor_store cursors (new_watcher lib (eth_config conf) eth_tip))) \<or>
     (chain = ChainBase \<and> cw = evm_watcher (set_cursor_store cursors (new_watcher lib (base_config conf) base_tip)))"
  by (auto simp: registry_as_port_def api_registry_def Let_def registry_watcher_register evm_watcher_def
      set_cursor_store_def new_watcher_def eth_config_def base_config_def split: if_splits)

lemma monitor_start_params:
  assumes "monitor_start (registry_as_port ord (api_registry adapters lib conf eth_tip base_tip cursors))
             aord chain addrs w = (Val wa, w')"
  shows "(chain = ChainEthereum \<or> chain = ChainBase) \<and>
         (\<exists>sg. wa_params wa = monitor_params lib chain sg True aord addrs)"
proof -
  from assms obtain cw where
    cw: "rg_watcher (registry_as_port ord (api_registry adapters lib conf eth_tip base_tip cursors)) chain = Val cw"
    and start: "cw_watch cw (addr_list aord addrs) w = (Val wa, w')"
    by (auto simp: monitor_start_def io_bind_eq_Val_iff)
  from api_watchers[OF cw] start show ?thesis
    by (auto simp: evm_watcher_def evm_watch_def set_cursor_store_def new_watcher_def eth_config_def
        base_config_def monitor_params_def io_bind_eq_Val_iff)
qed

text \<open>
  C2. Monitoring from the start of the program, over the database: what is started is a watch of
  Ethereum and of Base with the addresses the database holds; the watcher recognises every account
  of that chain; and whatever the node, the repository and the publisher do from then on, an event
  is saved only under a wallet that the database held then, with that chain's account at the
  event's address, and no other wallet has this address.
\<close>

theorem monitoring_from_start:
  assumes "postgres pool committed working ok" and "ok w"
    and "start_monitoring (postgres_repo pool) w = (Val plan, w1)" and "(chain, addrs) \<in> set plan"
    and "monitor_start (registry_as_port ord (api_registry adapters lib conf eth_tip base_tip cursors))
           aord chain addrs w2 = (Val wa, w3)"
  shows "(chain = ChainEthereum \<or> chain = ChainBase) \<and>
         (\<forall>i v acc. wallet_view (committed w) i = Some v \<longrightarrow> wallet_account v chain = Some acc \<longrightarrow>
            pp_watched (wa_params wa) (el_hex_to_address lib (acc_address acc)) \<noteq> None) \<and>
         (\<forall>cur s i e. pipe_steps (wa_params wa) addrs (pipe_init (wa_start wa) cur) s \<longrightarrow> (i, e) \<in> set (pl_saved s) \<longrightarrow>
            ev_chain e = chain \<and>
            (\<forall>j. j = i \<longleftrightarrow> (\<exists>v acc. wallet_view (committed w) j = Some v \<and> wallet_account v chain = Some acc \<and>
               acc_address acc = ev_address e)))"
proof -
  from monitor_start_params[OF assms(5)] obtain sg where
    chain: "chain = ChainEthereum \<or> chain = ChainBase"
    and params: "wa_params wa = monitor_params lib chain sg True aord addrs" by blast
  note owner = postgres.plan_owner[OF assms(1-4)]
  have "pp_watched (wa_params wa) (el_hex_to_address lib (acc_address acc)) \<noteq> None"
    if "wallet_view (committed w) i = Some v" "wallet_account v chain = Some acc" for i v acc
  proof -
    have "map_of addrs (acc_address acc) = Some i" using owner that by blast
    then have "acc_address acc \<in> set (addr_list aord addrs)"
      by (simp add: addr_list_def) (metis domI dom_map_of_conv_image_fst)
    then show ?thesis by (auto simp: params monitor_params_def build_watched_None)
  qed
  moreover
  have "ev_chain e = chain \<and> map_of addrs (ev_address e) = Some i"
    if run: "pipe_steps (wa_params wa) addrs (pipe_init (wa_start wa) cur) s" and e: "(i, e) \<in> set (pl_saved s)"
    for cur s i e
  proof -
    note run' = run[unfolded params]
    from saved_are_block_events[OF run'] e obtain n b where
      "e \<in> set (block_events (monitor_params lib chain sg True aord addrs) n b)" by blast
    from block_events_address[OF this] have at: "ev_address e \<in> fst ` set addrs" "ev_chain e = chain" by simp_all
    then obtain j where "map_of addrs (ev_address e) = Some j"
      by (metis map_of_eq_None_iff option.exhaust)
    moreover from pipe_reach_inv[OF run'] e have "i = param addrs (ev_address e)"
      by (auto simp: pipe_inv_def)
    ultimately show ?thesis using at by (simp add: param_def)
  qed
  then have "ev_chain e = chain \<and> (\<forall>j. j = i \<longleftrightarrow> (\<exists>v acc. wallet_view (committed w) j = Some v \<and>
      wallet_account v chain = Some acc \<and> acc_address acc = ev_address e))"
    if "pipe_steps (wa_params wa) addrs (pipe_init (wa_start wa) cur) s" and "(i, e) \<in> set (pl_saved s)"
    for cur s i e
    using that unfolding owner[symmetric] by auto
  ultimately show ?thesis using chain by blast
qed

section \<open>A transfer of a created wallet\<close>

lemma evm_signing_key:
  assumes "evm_derive_account elib cfg (sl_hd lib) seed path = Val acc"
    and "cfg_chain cfg \<noteq> ChainSolana" and "cfg_chain cfg \<noteq> ChainBitcoin"
  shows "\<exists>k. acc_address acc = el_address_hex elib (el_pubkey_address elib k) \<and>
           (\<forall>d. mem_sign lib seed acc d = sl_eth_sign lib k d)"
  using assms by (auto simp: evm_derive_account_def mem_sign_def derive_priv_key_def go_bind_Val_iff)

context wallet_service
begin

text \<open>
  What a transfer that gets through has used, of a wallet that holds what it held at its creation.
\<close>

lemma transfer_of_created:
  assumes trusted and "inv w" and "wallet_create rg keys repo now label p w = (Val x, w1)"
    and "inv v" and "view v (w_id x) = view w1 (w_id x)" and "\<And>s. sealed v (w_id x) p s = sealed w1 (w_id x) p s"
    and get_keeps: "\<And>u y u'. \<lbrakk>inv u; wr_get repo (w_id x) u = (Val y, u')\<rbrakk> \<Longrightarrow> sealed u' = sealed u"
    and signs: "\<And>u sg u'. ks_signer keys (w_id x) p u = (Val sg, u') \<Longrightarrow>
        \<exists>seed. ks_unlock keys (w_id x) p u = (Val seed, u') \<and> sg = mem_signer lib seed"
    and "tx_transfer rg keys repo (w_id x) p req v = (Val hash, w')"
    and "wallet_account x (net_chain (req_network req)) = Some acc"
  obtains adapter seed unsigned signed v1 v2 where
    "rg_adapter rg (net_chain (req_network req)) = Val adapter"
    "ca_derive_account adapter seed (bip44_path (net_chain (req_network req))) = Val acc"
    "ca_build_transfer adapter req v1 = (Val unsigned, v2)"
    "ca_sign adapter (unsigned\<lparr>utx_account := acc\<rparr>) (mem_signer lib seed) = Val signed"
    "ca_broadcast adapter signed v2 = (Val hash, w')"
proof -
  let ?c = "net_chain (req_network req)"
  from create_worth[OF assms(1-3)] obtain vw s0 where c: "view w1 (w_id x) = Some vw" "stored_as x vw"
    "sealed w1 (w_id x) p s0" and accs: "\<forall>a. a \<in> set (w_accounts x) \<longleftrightarrow> (\<exists>c ad. rg_adapter rg c = Val ad \<and>
       ca_derive_account ad s0 (bip44_path c) = Val a)"
    by blast
  from assms(9) obtain adapter y account sg unsigned signed u1 u2 u3 where t:
    "rg_adapter rg ?c = Val adapter" "wr_get repo (w_id x) v = (Val y, u1)" "wallet_account y ?c = Some account"
    "ks_signer keys (w_id x) p u1 = (Val sg, u2)" "ca_build_transfer adapter req u2 = (Val unsigned, u3)"
    "ca_sign adapter (unsigned\<lparr>utx_account := account\<rparr>) sg = Val signed"
    "ca_broadcast adapter signed u3 = (Val hash, w')"
    unfolding tx_transfer_def io_bind_eq_Val_iff option_io_Val io_lift_eval by auto
  from get_ok[OF assms(4) t(2)] c(1) assms(5) have y: "inv u1" "same_wallet vw y" by auto
  have acc: "acc \<in> set (w_accounts x)" "acc_chain acc = ?c"
    using assms(10) by (auto simp: wallet_account_def dest: find_account_Some)
  with stored_as_same[OF c(2) y(2)] t(3) have account: "account = acc" by (auto simp: stored_as_def)
  from signs[OF t(4)] obtain seed where seed: "ks_unlock keys (w_id x) p u1 = (Val seed, u2)"
    "sg = mem_signer lib seed" by blast
  have "sealed u1 (w_id x) p s0" using get_keeps[OF assms(4) t(2)] assms(6) c(3) by simp
  with unlock_ok[OF y(1) seed(1)] sealed_unique have "seed = s0" by blast
  moreover from acc(1) accs obtain c ad where d: "rg_adapter rg c = Val ad"
    "ca_derive_account ad s0 (bip44_path c) = Val acc" by blast
  moreover have "c = ?c" using derive_chain[OF d] acc(2) by simp
  ultimately show ?thesis using that t account seed(2) by simp
qed

end

text \<open>
  C1. From one end to the other, on Ethereum and Base: when a transfer of a created wallet gets
  through, the node has received the transaction built from the request, signed over its hash for
  the chain's id by the private key behind the wallet's own address on that chain, the key that
  the wallet's passphrase unlocks, and the hash returned is that transaction's. This is so in
  every later state of the program that still holds the wallet and its sealed seed.
\<close>

theorem evm_transfer_end_to_end:
  assumes "postgres pool committed working ok" and "crypto_trusted cy committed ok" and "ok w"
    and "\<forall>v t v'. ok v \<longrightarrow> now v = (Val t, v') \<longrightarrow> ok v' \<and> committed v' = committed v"
    and "evm_codec_ok elib"
    and "rg = (program_registry ord (all_adapters elib conf (sl_hd lib) eth base blib srt btc slib sol tlib http)
           :: ('w, 'c) registry_port)"
    and "wallet_create rg (postgres_key_store pool cy lib) (postgres_repo pool) now label p w = (Val x, w1)"
    and "ok v" and "wallet_view (committed v) (w_id x) = wallet_view (committed w1) (w_id x)"
    and "\<forall>s. tables_sealed cy (committed v) (w_id x) p s = tables_sealed cy (committed w1) (w_id x) p s"
    and "net_chain (req_network req) = chain" and "wallet_account x chain = Some acc"
    and "(chain, cfg, client) = (ChainEthereum, eth_config conf, eth) \<or>
         (chain, cfg, client) = (ChainBase, base_config conf, base)"
    and "tx_transfer rg (postgres_key_store pool cy lib) (postgres_repo pool) (w_id x) p req v = (Val hash, w')"
  shows "\<exists>k nonce fee sig tx signed v'.
           acc_address acc = el_address_hex elib (el_pubkey_address elib k) \<and>
           tx = el_new_tx elib (evm_transfer_tx elib cfg req nonce fee) \<and>
           sl_eth_sign lib k (el_sig_hash elib (cfg_chain_id cfg) tx) = Val sig \<and>
           el_with_signature elib (cfg_chain_id cfg) tx sig = Val signed \<and>
           ec_send_transaction client signed v' = (Val (), w') \<and> hash = el_hash_hex elib signed"
proof -
  have rg: "registry_laws rg" unfolding assms(6) by (rule program.registry_laws_axioms)
  note service = postgres.wallet_service_laws[OF assms(1) rg assms(4), where cy = cy and lib = lib]
  have keeps: "tables_sealed cy (committed u') = tables_sealed cy (committed u)"
    if "ok u" "wr_get (postgres_repo pool) (w_id x) u = (Val y, u')" for u y u'
    using postgres.pg_get_ok[OF assms(1) that(1)] that(2) by (fastforce simp: postgres_repo_def)
  have signs: "\<exists>seed. ks_unlock (postgres_key_store pool cy lib) (w_id x) p u = (Val seed, u') \<and> sg = mem_signer lib seed"
    if "ks_signer (postgres_key_store pool cy lib) (w_id x) p u = (Val sg, u')" for u sg u'
    using that by (auto simp: postgres_key_store_def pk_signer_def io_bind_eq_Val_iff)
  have acc: "wallet_account x (net_chain (req_network req)) = Some acc" using assms(11,12) by simp
  obtain adapter seed unsigned stx v1 v2 where t: "rg_adapter rg chain = Val adapter"
    "ca_derive_account adapter seed (bip44_path chain) = Val acc"
    "ca_build_transfer adapter req v1 = (Val unsigned, v2)"
    "ca_sign adapter (unsigned\<lparr>utx_account := acc\<rparr>) (mem_signer lib seed) = Val stx"
    "ca_broadcast adapter stx v2 = (Val hash, w')"
  proof (rule wallet_service.transfer_of_created[OF service assms(2,3,7,8,9) _ _ _ assms(14) acc])
    show "tables_sealed cy (committed v) (w_id x) p s = tables_sealed cy (committed w1) (w_id x) p s" for s
      using assms(10) by blast
  next
    fix adapter seed unsigned stx v1 v2
    assume "rg_adapter rg (net_chain (req_network req)) = Val adapter"
      "ca_derive_account adapter seed (bip44_path (net_chain (req_network req))) = Val acc"
      "ca_build_transfer adapter req v1 = (Val unsigned, v2)"
      "ca_sign adapter (unsigned\<lparr>utx_account := acc\<rparr>) (mem_signer lib seed) = Val stx"
      "ca_broadcast adapter stx v2 = (Val hash, w')"
    then show thesis by (rule that[unfolded assms(11)[symmetric]])
  qed (use keeps signs in blast)+
  let ?ad = "evm_adapter elib cfg (sl_hd lib) client"
  have "?ad \<in> set (all_adapters elib conf (sl_hd lib) eth base blib srt btc slib sol tlib http)"
    and chain: "ca_chain ?ad = chain" "cfg_chain cfg = chain"
    using assms(13) by (auto simp: all_adapters_def eth_config_def base_config_def evm_adapter_def)
  have "rg_adapter rg (ca_chain ?ad) = Val ?ad" unfolding assms(6) by (rule program_registered) fact
  with chain t(1) have "adapter = ?ad" by simp
  with t have e: "evm_derive_account elib cfg (sl_hd lib) seed (bip44_path chain) = Val acc"
    "evm_build_transfer elib cfg client req v1 = (Val unsigned, v2)"
    "evm_sign elib cfg (unsigned\<lparr>utx_account := acc\<rparr>) (mem_signer lib seed) = Val stx"
    "evm_broadcast elib client stx v2 = (Val hash, w')"
    by (simp_all add: evm_adapter_def)
  have "cfg_chain cfg \<noteq> ChainSolana" "cfg_chain cfg \<noteq> ChainBitcoin"
    using assms(13) chain by (auto simp: chain_defs)
  from evm_signing_key[OF e(1) this] obtain k where k:
    "acc_address acc = el_address_hex elib (el_pubkey_address elib k)" "\<forall>d. mem_sign lib seed acc d = sl_eth_sign lib k d"
    by blast
  from evm_lifecycle[OF assms(5) e(2-4)] k show ?thesis by (simp add: mem_signer_def) blast
qed

section \<open>Concrete runs\<close>

text \<open>
  A database with one account on Base and the cursor at 5, for the monitor; and for the transfer
  the wallet created in the sample of the services.
\<close>

definition sample_boot :: engine where
  "sample_boot = sample_engine\<lparr>en_tables := sample_tables\<lparr>
     tb_accounts := [\<lparr>acr_wallet = ''w1'', acr_chain = ChainBase, acr_address = ''b'', acr_path = ''m/0''\<rparr>],
     tb_cursors := [\<lparr>cur_chain = ChainBase, cur_height = 5, cur_block_hash = None, cur_updated = 0\<rparr>]\<rparr>\<rparr>"

lemma sample_boot_ok: "engine_ok sample_boot"
  by (simp add: engine_ok_def sample_boot_def sample_engine_def schema_defs sample_tables_def no_tables_def
      bigint_def)

lemma sample_plan:
  "fst (start_monitoring (postgres_repo sample_pool) sample_boot) =
     Val [(ChainEthereum, []), (ChainBase, sample_addrs)]"
  by code_simp

definition sample_base_watcher :: "(engine, dynamic_fee_tx \<times> bytes option) watcher" where
  "sample_base_watcher = set_cursor_store (postgres_cursors sample_pool)
     (new_watcher sample_evm_lib (base_config (load_config Map.empty)) (io_return 9))"

lemma sample_from: "fst (watch_from sample_base_watcher sample_boot) = Val 5"
  by code_simp

lemma sample_evm_watch:
  assumes "fst (watch_from sample_base_watcher w) = Val start"
  shows "evm_watch sample_base_watcher (addr_list (\<lambda>xs. xs) sample_addrs) w =
           (Val \<lparr>wa_params = sample_poll, wa_start = start\<rparr>, snd (watch_from sample_base_watcher w))"
proof -
  have "evm_watch sample_base_watcher (addr_list (\<lambda>xs. xs) sample_addrs) w =
      (Val \<lparr>wa_params = monitor_params sample_evm_lib ChainBase 8453 True (\<lambda>xs. xs) sample_addrs,
         wa_start = start\<rparr>, snd (watch_from sample_base_watcher w))"
    using assms
    by (auto simp: evm_watch_def io_bind_def monitor_params_def split: prod.splits)
      (simp_all add: sample_base_watcher_def set_cursor_store_def new_watcher_def base_config_def load_config_def)
  then show ?thesis unfolding sample_params .
qed

lemma sample_monitor_start:
  "\<exists>w. monitor_start (registry_as_port (\<lambda>xs. xs) (api_registry sample_adapters sample_evm_lib (load_config Map.empty)
       (io_return 9) (io_return 9) (postgres_cursors sample_pool))) (\<lambda>xs. xs) ChainBase sample_addrs sample_boot =
     (Val \<lparr>wa_params = sample_poll, wa_start = 5\<rparr>, w)"
  using sample_evm_watch[OF sample_from]
  by (simp add: monitor_start_def registry_as_port_def api_registry_def Let_def registry_watcher_register
      evm_watcher_def sample_base_watcher_def)
    (simp add: set_cursor_store_def new_watcher_def base_config_def)

theorem monitoring_from_start_witness:
  "\<exists>v acc. wallet_view (en_tables sample_boot) ''w1'' = Some v \<and> wallet_account v ChainBase = Some acc \<and>
     acc_address acc = ev_address sample_event"
proof -
  obtain plan w1 where plan: "start_monitoring (postgres_repo sample_pool) sample_boot = (Val plan, w1)"
    and mem: "(ChainBase, sample_addrs) \<in> set plan"
    using sample_plan by (metis list.set_intros(1) list.set_intros(2) prod.collapse)
  obtain w3 where start: "monitor_start (registry_as_port (\<lambda>xs. xs) (api_registry sample_adapters sample_evm_lib
      (load_config Map.empty) (io_return 9) (io_return 9) (postgres_cursors sample_pool))) (\<lambda>xs. xs) ChainBase
      sample_addrs sample_boot = (Val \<lparr>wa_params = sample_poll, wa_start = 5\<rparr>, w3)"
    using sample_monitor_start by blast
  note all = monitoring_from_start[OF sample_postgres sample_boot_ok plan mem start]
  have "(''w1'', sample_event) \<in> set (pl_saved (sample_pipeline (Publishing sample_event) [(''w1'', sample_event)] []))"
    by (simp add: sample_pipeline_def)
  with all sample_saved show ?thesis by (metis watch.select_convs(1) watch.select_convs(2))
qed

theorem handle_refines_pipe_witness:
  "\<exists>t. pipe_steps sample_poll sample_addrs (sample_pipeline (Saving sample_event) [] []) t \<and>
     pl_monitor t = Selecting \<and> pl_saved t = [(''w1'', sample_event)] \<and> pl_published t = [sample_event]"
proof -
  let ?s = "sample_pipeline (Saving sample_event) [] []"
  have own: "param sample_addrs ''b'' = ''w1''" by (simp add: sample_addrs_eq param_def)
  have s: "pl_monitor ?s = Saving sample_event" "pl_saved ?s = []" "pl_published ?s = []" by (simp_all add: sample_pipeline_def)
  have "handle_event (recording_repo \<lparr>txr_save_event = (\<lambda>_ _. io_return ())\<rparr>) (recording_publisher noop_publisher)
      sample_addrs sample_event ((), pl_saved ?s, pl_published ?s) =
      (Val (), (), [(''w1'', sample_event)], [sample_event])"
    by (simp add: handle_event_def recording_repo_def recording_publisher_def noop_publisher_def noop_publish_def
        io_bind_def io_return_def own s)
  from handle_refines_pipe[OF s(1) this, of sample_poll] show ?thesis by auto
qed

text \<open>A transfer on Base from the created wallet.\<close>

abbreviation sample_account :: account where
  "sample_account \<equiv> \<lparr>acc_chain = ChainBase, acc_address = hex_encode (bytes_of ''abandon''), acc_path = bip44_path ChainBase\<rparr>"

lemma sample_get:
  obtains y w where "pg_get sample_pool ''w3'' sample_world3 = (Val y, w)" "wallet_account y ChainBase = Some sample_account"
    "\<exists>seed w'. pk_unlock sample_pool sample_crypto ''w3'' [5] w = (Val seed, w')"
proof -
  have "case fst (pg_get sample_pool ''w3'' sample_world3) of
      Val y \<Rightarrow> wallet_account y ChainBase = Some sample_account | _ \<Rightarrow> False" by code_simp
  moreover have "case fst (pk_unlock sample_pool sample_crypto ''w3'' [5] (snd (pg_get sample_pool ''w3'' sample_world3))) of
      Val _ \<Rightarrow> True | _ \<Rightarrow> False" by code_simp
  ultimately show ?thesis using that
    by (cases "pg_get sample_pool ''w3'' sample_world3";
        cases "pk_unlock sample_pool sample_crypto ''w3'' [5] (snd (pg_get sample_pool ''w3'' sample_world3))")
      (auto split: go.splits)
qed

lemma sample_base_config: "base_config (load_config Map.empty) = sample_evm_config"
  by (simp add: base_config_def load_config_def sample_evm_config_def)

lemma sample_transfer:
  "\<exists>w'. tx_transfer sample_registry (postgres_key_store sample_pool sample_crypto sample_sign_lib)
     (postgres_repo sample_pool) ''w3'' [5] sample_evm_request sample_world3 = (Val ''0xaa'', w')"
proof -
  obtain y w seed w' where g: "pg_get sample_pool ''w3'' sample_world3 = (Val y, w)"
    "wallet_account y ChainBase = Some sample_account"
    "pk_unlock sample_pool sample_crypto ''w3'' [5] w = (Val seed, w')"
    using sample_get by metis
  let ?ad = "evm_adapter sample_evm_lib sample_evm_config sample_hd sample_evm_client :: engine chain_adapter"
  have "?ad \<in> set sample_adapters"
    by (simp add: sample_adapters_def all_adapters_def flip: sample_base_config) (simp add: base_config_def)
  then have ad: "rg_adapter sample_registry ChainBase = Val ?ad"
    using program_registered[of ?ad] unfolding sample_adapters_def sample_registry_def
    by (simp add: evm_adapter_def) (simp add: sample_evm_config_def)
  let ?utx = "\<lparr>utx_chain = ChainBase, utx_account = zero_account, utx_request = sample_evm_request,
           utx_fee = evm_fee_of SpeedFast 215 15, utx_payload = [1]\<rparr>"
  have hd: "sl_hd sample_sign_lib = sample_hd" by (simp add: sample_sign_lib_def)
  have "ChainBase \<noteq> ChainSolana" "ChainBase \<noteq> ChainBitcoin" by (simp_all add: chain_defs)
  then have "mem_sign sample_sign_lib seed sample_account d = Val d" for d
    by (simp add: mem_sign_def derive_priv_key_def hd sample_derive_key)
      (simp add: sample_sign_lib_def sample_hd_def)
  then have sign: "evm_sign sample_evm_lib sample_evm_config (?utx\<lparr>utx_account := sample_account\<rparr>)
      (mem_signer sample_sign_lib seed) = Val \<lparr>stx_chain = ChainBase, stx_raw = [1], stx_hash = ''0xaa''\<rparr>"
    by (simp add: evm_sign_def mem_signer_def) (simp add: sample_evm_lib_def sample_evm_config_def)
  have send: "evm_broadcast sample_evm_lib sample_evm_client
      \<lparr>stx_chain = ChainBase, stx_raw = [1], stx_hash = ''0xaa''\<rparr> w' = (Val ''0xaa'', w')"
    by (simp add: evm_broadcast_def io_bind_def io_wrap_def sample_evm_lib_def sample_evm_client_def)
  have chain: "net_chain (req_network sample_evm_request) = ChainBase" by (simp add: sample_evm_request_def)
  show ?thesis
    unfolding transfer_steps chain
    using ad g sample_evm_build[of w'] sign send
    by (intro exI conjI) (assumption | simp add: postgres_repo_def evm_adapter_def)+
qed

theorem evm_transfer_end_to_end_witness:
  "\<exists>k tx sig signed w'. hex_encode (bytes_of ''abandon'') = el_address_hex sample_evm_lib (el_pubkey_address sample_evm_lib k) \<and>
     sl_eth_sign sample_sign_lib k (el_sig_hash sample_evm_lib 8453 tx) = Val sig \<and>
     el_with_signature sample_evm_lib 8453 tx sig = Val signed \<and>
     tx_transfer sample_registry (postgres_key_store sample_pool sample_crypto sample_sign_lib)
       (postgres_repo sample_pool) ''w3'' [5] sample_evm_request sample_world3 =
     (Val (el_hash_hex sample_evm_lib signed), w')"
proof -
  have i: "w_id sample_new_wallet = ''w3''" by (simp add: sample_new_wallet_def sample_empty_wallet_def)
  have keep: "\<forall>v t v'. engine_ok v \<longrightarrow> en_clock v = (Val t, v') \<longrightarrow> engine_ok v' \<and> en_tables v' = en_tables v"
    by (simp add: en_clock_def)
  have hd: "sl_hd sample_sign_lib = sample_hd" by (simp add: sample_sign_lib_def)
  have rg: "sample_registry = program_registry (\<lambda>xs. xs) (all_adapters sample_evm_lib (load_config Map.empty)
      (sl_hd sample_sign_lib) down_evm sample_evm_client sample_lib sample_sort down_btc sample_sol_lib down_sol
      sample_tron_lib down_http)"
    by (simp add: sample_registry_def sample_adapters_def hd)
  obtain w' where run: "tx_transfer sample_registry (postgres_key_store sample_pool sample_crypto sample_sign_lib)
      (postgres_repo sample_pool) (w_id sample_new_wallet) [5] sample_evm_request sample_world3 = (Val ''0xaa'', w')"
    using sample_transfer unfolding i by blast
  have "registry_laws sample_registry" unfolding rg by (rule program.registry_laws_axioms)
  note service = postgres.wallet_service_laws[OF sample_postgres this keep, where cy = sample_crypto and lib = sample_sign_lib]
  have ok: "engine_ok sample_world3"
    using wallet_service.create_worth[OF service sample_crypto_trusted sample_engine_ok sample_create] by blast
  have "ChainEthereum \<noteq> ChainBase" by (simp add: chain_defs)
  then have acc: "wallet_account sample_new_wallet ChainBase = Some sample_account"
    by (simp add: sample_new_wallet_def sample_empty_wallet_def wallet_account_def sample_accounts_def)
  have chain: "net_chain (req_network sample_evm_request) = ChainBase" by (simp add: sample_evm_request_def)
  have client: "(ChainBase, sample_evm_config, sample_evm_client :: (engine, _) evm_client) =
        (ChainEthereum, eth_config (load_config Map.empty), down_evm) \<or>
      (ChainBase, sample_evm_config, sample_evm_client :: (engine, _) evm_client) =
        (ChainBase, base_config (load_config Map.empty), sample_evm_client)"
    by (simp add: sample_base_config)
  have id: "cfg_chain_id sample_evm_config = 8453" by (simp add: sample_evm_config_def)
  from evm_transfer_end_to_end[OF sample_postgres sample_crypto_trusted sample_engine_ok keep sample_evm_codec rg
      sample_create ok refl _ chain acc client run]
  obtain k tx sig signed where e: "acc_address sample_account = el_address_hex sample_evm_lib (el_pubkey_address sample_evm_lib k)"
    "sl_eth_sign sample_sign_lib k (el_sig_hash sample_evm_lib 8453 tx) = Val sig"
    "el_with_signature sample_evm_lib 8453 tx sig = Val signed" "''0xaa'' = el_hash_hex sample_evm_lib signed"
    unfolding id by blast
  show ?thesis
    by (intro exI conjI, rule e(1)[unfolded account.select_convs], rule e(2), rule e(3), rule run[unfolded i e(4)])
qed

end
