(* ===== verification/Restarts.thy ===== *)
theory Restarts
  imports Program
begin

text \<open>
  The watch of one chain over the restarts of the process: the runs of \<^verbatim>\<open>watcher.go\<close> and
  \<^verbatim>\<open>monitor_service.go\<close> one after the other, joined by nothing but the cursor in the database.
  Every run ends wherever the process happens to stop.
\<close>

section \<open>Runs of one chain\<close>

text \<open>
  One run of the process: what \<open>Watch\<close> was started with and where watcher and monitor stood
  when it ended. \<open>rn_tip\<close> and \<open>rn_read\<close> record the node's tip at the start and whether the
  cursor could be read.
\<close>

record 'tx run =
  rn_params :: "'tx poll_params"
  rn_start :: "64 word"
  rn_tip :: "64 word"
  rn_read :: bool
  rn_end :: "'tx pipeline"

definition final_cursor :: "'tx run \<Rightarrow> 64 word option" where
  "final_cursor r = ps_cursor (pl_poll (rn_end r))"

definition scanned :: "'tx run \<Rightarrow> (64 word \<times> 'tx block) list" where
  "scanned r = ps_scanned (pl_poll (rn_end r))"

text \<open>The events that were taken from the channel and not saved before the end of the run.\<close>

definition unsaved :: "'tx run \<Rightarrow> tx_event list" where
  "unsaved r = drop (length (pl_saved (rn_end r))) (ps_sent (pl_poll (rn_end r)))"

text \<open>A run that finds the cursor \<open>cur\<close> in the database.\<close>

inductive run_from ::
  "('w, 't) pool \<Rightarrow> ('w \<Rightarrow> tables) \<Rightarrow> ('w \<Rightarrow> bool) \<Rightarrow> 'tx evm_lib \<Rightarrow> evm_config \<Rightarrow>
     64 word option \<Rightarrow> 'tx run \<Rightarrow> bool"
  for pool committed ok lib cfg where
  run: "\<lbrakk>block_number w = (Val tip, w1); ok w1; cursor_view (committed w1) (cfg_chain cfg) = cur;
      pg_cursor_get pool (cfg_chain cfg) w1 = (c, w2);
      evm_watch (set_cursor_store (postgres_cursors pool) (new_watcher lib cfg block_number))
        (addr_list ord addrs) w = (Val wa, w3);
      pipe_steps (wa_params wa) addrs (pipe_init (wa_start wa) cur) s\<rbrakk> \<Longrightarrow>
    run_from pool committed ok lib cfg cur
      \<lparr>rn_params = wa_params wa, rn_start = wa_start wa, rn_tip = tip, rn_read = (\<exists>h. c = Val h), rn_end = s\<rparr>"

inductive runs_from ::
  "('w, 't) pool \<Rightarrow> ('w \<Rightarrow> tables) \<Rightarrow> ('w \<Rightarrow> bool) \<Rightarrow> 'tx evm_lib \<Rightarrow> evm_config \<Rightarrow>
     64 word option \<Rightarrow> 'tx run list \<Rightarrow> 64 word option \<Rightarrow> bool"
  for pool committed ok lib cfg cur where
  no_run: "runs_from pool committed ok lib cfg cur [] cur"
| next_run: "\<lbrakk>runs_from pool committed ok lib cfg cur rs c; run_from pool committed ok lib cfg c r\<rbrakk> \<Longrightarrow>
    runs_from pool committed ok lib cfg cur (rs @ [r]) (final_cursor r)"

section \<open>One run\<close>

context postgres
begin

lemma cursor_read:
  assumes "inv w" and "pg_cursor_get pool c w = (Val r, w')"
  shows "r = cursor_view (committed w) c"
  using cursors.get_ok[OF assms(1), of c r w'] assms(2) by (simp add: postgres_cursors_def)

end

definition resume_from :: "64 word option \<Rightarrow> 64 word \<Rightarrow> 64 word" where
  "resume_from cur tip = (case cur of Some h \<Rightarrow> min h tip | None \<Rightarrow> tip)"

lemma min_word: "(if h < tip then h else tip) = min h (tip :: 64 word)"
  by (auto simp: min_def)

lemma run_start:
  assumes "postgres pool committed working ok" and "run_from pool committed ok lib cfg cur r"
  shows "rn_start r = resume_from (if rn_read r then cur else None) (rn_tip r) \<and>
         (\<exists>addrs. pipe_inv (rn_params r) addrs (rn_start r) cur (rn_end r))"
  using assms(2)
proof cases
  case (run block_number w tip w1 c w2 ord addrs wa w3 s)
  let ?wt = "set_cursor_store (postgres_cursors pool) (new_watcher lib cfg block_number)"
  have get: "cs_get (postgres_cursors pool) (cfg_chain cfg) w1 = (c, w2)"
    using run(5) by (simp add: postgres_cursors_def)
  have "c = Val cur" if "c = Val h" for h
    using postgres.cursor_read[OF assms(1)] run that by blast
  moreover have "watch_from ?wt w = (Val (wa_start wa), w3)"
    using run(6) by (auto simp: evm_watch_def io_bind_eq_Val_iff)
  ultimately have "wa_start wa = resume_from (if \<exists>h. c = Val h then cur else None) tip"
    using get run(2)
    by (cases c) (auto simp: watch_from_def io_bind_def io_wrap_def io_try_def resume_from_def min_word
        set_cursor_store_def new_watcher_def split: option.splits)
  moreover have "pipe_inv (wa_params wa) addrs (wa_start wa) cur s"
    using run(7) by (rule pipe_reach_inv)
  ultimately show ?thesis unfolding run(1) by auto
qed

text \<open>A later run scans from above the cursor or below it, never skipping what lies between.\<close>

lemma word_between:
  assumes "(a :: 64 word) < n" and "n \<le> a + 1 + of_nat k"
  shows "\<exists>j \<le> k. n = a + 1 + of_nat j"
proof (intro exI conjI)
  have "unat (a + 1 + of_nat k) \<le> unat a + 1 + k"
  proof -
    have "a + 1 + of_nat k = of_nat (unat a + 1 + k)" by simp
    then show ?thesis by (simp only: unat_of_nat mod_less_eq_dividend)
  qed
  then show "unat n - unat a - 1 \<le> k" using assms(2) by (simp add: word_le_nat_alt)
  have "unat a < unat n" using assms(1) by (simp add: word_less_nat_alt)
  then have "of_nat (unat a + 1 + (unat n - unat a - 1)) = (of_nat (unat n) :: 64 word)" by simp
  then show "n = a + 1 + of_nat (unat n - unat a - 1)" by (simp add: algebra_simps)
qed

lemma run_progress:
  assumes "postgres pool committed working ok" and "run_from pool committed ok lib cfg (Some h) r"
    and "rn_read r"
  shows "\<exists>c. final_cursor r = Some c \<and> (\<forall>n. h < n \<and> n \<le> c \<longrightarrow> n \<in> fst ` set (scanned r))"
proof -
  from run_start[OF assms(1,2)] assms(3) obtain addrs where
    start: "rn_start r = min h (rn_tip r)"
    and inv: "poll_inv (rn_params r) (rn_start r) (Some h) (pl_poll (rn_end r))"
    by (auto simp: resume_from_def pipe_inv_def)
  show ?thesis
  proof (cases "final_cursor r = Some h")
    case True
    then show ?thesis by (intro exI[of _ h]) auto
  next
    case False
    with inv obtain c where c: "final_cursor r = Some c"
      by (auto simp: poll_inv_def final_cursor_def)
    from poll_inv_cursor[OF inv] c False obtain k where
      k: "k < length (scanned r)" "c = rn_start r + 1 + of_nat k"
      by (auto simp: final_cursor_def scanned_def)
    have "n \<in> fst ` set (scanned r)" if "h < n" "n \<le> c" for n
    proof -
      have "rn_start r < n" using that(1) by (simp add: start min_less_iff_disj)
      from word_between[OF this that(2)[unfolded k(2)]] obtain j where "j \<le> k" "n = rn_start r + 1 + of_nat j"
        by blast
      then have "n \<in> set (map (\<lambda>i. rn_start r + 1 + of_nat i) [0..<length (scanned r)])" using k(1) by auto
      also have "\<dots> = set (map fst (scanned r))" using inv by (simp add: poll_inv_def scanned_def)
      finally show ?thesis by simp
    qed
    with c show ?thesis by blast
  qed
qed

lemma unsaved_bound:
  assumes "pipe_inv pp addrs start cur (rn_end r)"
  shows "ps_sent (pl_poll (rn_end r)) = map snd (pl_saved (rn_end r)) @ unsaved r \<and> length (unsaved r) \<le> 1 \<and>
         (pl_monitor (rn_end r) = Selecting \<or> (\<exists>e. pl_monitor (rn_end r) = Publishing e) \<longrightarrow> unsaved r = [])"
proof -
  from assms obtain a where a: "in_hand (pl_monitor (rn_end r)) a"
    "ps_sent (pl_poll (rn_end r)) = map snd (pl_saved (rn_end r)) @ a" by (auto simp: pipe_inv_def)
  then have "unsaved r = a" by (simp add: unsaved_def)
  with a show ?thesis by (auto simp: in_hand_def split: monitor_pc.splits)
qed

lemma scanned_sent:
  assumes "poll_inv pp start cur s" and "(n, b) \<in> set (ps_scanned s)" and "e \<in> set (block_events pp n b)"
  shows "e \<in> set (ps_sent s)"
  using assms by (force simp: poll_inv_def all_events_def)

lemma run_accounts_for:
  assumes "postgres pool committed working ok" and "run_from pool committed ok lib cfg cur r"
  shows "length (unsaved r) \<le> 1 \<and>
         (pl_monitor (rn_end r) = Selecting \<or> (\<exists>e. pl_monitor (rn_end r) = Publishing e) \<longrightarrow> unsaved r = []) \<and>
         (\<forall>n b e. (n, b) \<in> set (scanned r) \<longrightarrow> e \<in> set (block_events (rn_params r) n b) \<longrightarrow>
            e \<in> snd ` set (pl_saved (rn_end r)) \<or> e \<in> set (unsaved r))"
proof -
  from run_start[OF assms] obtain addrs where
    inv: "pipe_inv (rn_params r) addrs (rn_start r) cur (rn_end r)" by blast
  then have poll: "poll_inv (rn_params r) (rn_start r) cur (pl_poll (rn_end r))" by (simp add: pipe_inv_def)
  have "e \<in> snd ` set (pl_saved (rn_end r)) \<or> e \<in> set (unsaved r)"
    if "(n, b) \<in> set (scanned r)" "e \<in> set (block_events (rn_params r) n b)" for n b e
    using scanned_sent[OF poll] that unsaved_bound[OF inv] by (auto simp: scanned_def)
  with unsaved_bound[OF inv] show ?thesis by blast
qed

section \<open>Any number of runs\<close>

lemma runs_progress:
  assumes "postgres pool committed working ok"
    and "runs_from pool committed ok lib cfg (Some h) rs cur" and "\<forall>r \<in> set rs. rn_read r"
  shows "\<exists>c. cur = Some c \<and> (\<forall>n. h < n \<and> n \<le> c \<longrightarrow> (\<exists>r \<in> set rs. n \<in> fst ` set (scanned r)))"
  using assms(2,3)
proof (induction rule: runs_from.induct)
  case (next_run rs c r)
  then obtain m where m: "c = Some m" "\<And>n. h < n \<Longrightarrow> n \<le> m \<Longrightarrow> \<exists>r \<in> set rs. n \<in> fst ` set (scanned r)"
    by auto
  from next_run(2,4) m(1) have "run_from pool committed ok lib cfg (Some m) r" "rn_read r" by simp_all
  from run_progress[OF assms(1) this] obtain c' where
    c': "final_cursor r = Some c'" "\<And>n. m < n \<Longrightarrow> n \<le> c' \<Longrightarrow> n \<in> fst ` set (scanned r)" by blast
  have "\<exists>r' \<in> set (rs @ [r]). n \<in> fst ` set (scanned r')" if "h < n" "n \<le> c'" for n
    using m(2)[OF that(1)] c'(2)[OF _ that(2)] by (cases "n \<le> m") auto
  with c'(1) show ?case by blast
qed auto

lemma runs_each:
  "runs_from pool committed ok lib cfg cur rs c \<Longrightarrow> r \<in> set rs \<Longrightarrow> \<exists>b. run_from pool committed ok lib cfg b r"
  by (induction rule: runs_from.induct) auto

text \<open>
  C6. However often the process stops and starts again, and wherever it stops: as long as the cursor
  can be read at every start, every block above the first cursor and up to the last has been gone
  through in some run with that run's watched addresses, and each event of it was saved then, or is
  the one event that the run had taken from the channel and not yet saved when it ended.
\<close>

theorem restarts_leave_no_gap:
  assumes "postgres pool committed working ok"
    and "runs_from pool committed ok lib cfg (Some h) rs (Some c)" and "\<forall>r \<in> set rs. rn_read r"
    and "h < n" and "n \<le> c"
  shows "\<exists>r \<in> set rs. \<exists>b. (n, b) \<in> set (scanned r) \<and>
           (\<forall>e \<in> set (block_events (rn_params r) n b).
              e \<in> snd ` set (pl_saved (rn_end r)) \<or> e \<in> set (unsaved r)) \<and>
           length (unsaved r) \<le> 1 \<and>
           (pl_monitor (rn_end r) = Selecting \<or> (\<exists>e. pl_monitor (rn_end r) = Publishing e) \<longrightarrow> unsaved r = [])"
proof -
  from runs_progress[OF assms(1-3)] assms(4,5) obtain r b where r: "r \<in> set rs" "(n, b) \<in> set (scanned r)"
    by fastforce
  from runs_each[OF assms(2) r(1)] obtain cur where "run_from pool committed ok lib cfg cur r" by blast
  from run_accounts_for[OF assms(1) this] r show ?thesis by blast
qed

text \<open>
  C23. A cursor that cannot be read at the start is as good as none: the watch starts after the tip,
  the blocks between the cursor and the tip are not gone through in that run, and as soon as the run
  has saved a cursor it is above the tip: nothing in the database tells that they were left out.
\<close>

theorem unread_cursor_skips_blocks:
  assumes "postgres pool committed working ok" and "run_from pool committed ok lib cfg (Some h) r"
    and "\<not> rn_read r" and "unat (rn_tip r) + length (scanned r) < 2 ^ 64"
  shows "(\<forall>n. h < n \<longrightarrow> n \<le> rn_tip r \<longrightarrow> n \<notin> fst ` set (scanned r)) \<and>
         (final_cursor r = Some h \<or> (\<exists>c > rn_tip r. final_cursor r = Some c))"
proof -
  from run_start[OF assms(1,2)] assms(3) obtain addrs where
    start: "rn_start r = rn_tip r"
    and inv: "poll_inv (rn_params r) (rn_start r) (Some h) (pl_poll (rn_end r))"
    by (auto simp: resume_from_def pipe_inv_def)
  have above: "rn_tip r < rn_tip r + 1 + of_nat k" if "k < length (scanned r)" for k
  proof -
    have "rn_tip r + 1 + of_nat k = of_nat (unat (rn_tip r) + 1 + k)" by simp
    moreover have "unat (of_nat (unat (rn_tip r) + 1 + k) :: 64 word) = unat (rn_tip r) + 1 + k"
      using assms(4) that by (simp only: unat_of_nat) simp
    ultimately show ?thesis by (simp only: word_less_nat_alt)
  qed
  have "fst ` set (scanned r) = set (map (\<lambda>i. rn_tip r + 1 + of_nat i) [0..<length (scanned r)])"
    using inv by (simp add: poll_inv_def scanned_def start flip: set_map)
  then have all: "rn_tip r < n" if "n \<in> fst ` set (scanned r)" for n
    using above that by auto
  moreover have "final_cursor r = Some h \<or> final_cursor r \<in> Some ` fst ` set (scanned r)"
    using inv by (auto simp: poll_inv_def final_cursor_def scanned_def)
  ultimately show ?thesis by force
qed

section \<open>Concrete runs\<close>

text \<open>
  The database of the sample with the cursor at 5 and the node's tip at 9. One run goes through block
  6 and ends while its event is published. In the other one the query for the cursor fails; it starts
  after 9 and goes through block 10, which is empty.
\<close>

definition sample_cfg :: evm_config where
  "sample_cfg = base_config (load_config Map.empty)"

definition sample_run :: "(dynamic_fee_tx \<times> bytes option) run" where
  "sample_run = \<lparr>rn_params = sample_poll, rn_start = 5, rn_tip = 9, rn_read = True,
     rn_end = sample_pipeline (Publishing sample_event) [(''w1'', sample_event)] []\<rparr>"

lemma sample_cursor:
  "cursor_view (en_tables sample_boot) (cfg_chain sample_cfg) = Some 5"
  "fst (pg_cursor_get sample_pool (cfg_chain sample_cfg) sample_boot) = Val (Some 5)"
  by code_simp+

lemma sample_run_from:
  assumes "engine_ok w" and "cursor_view (en_tables w) (cfg_chain sample_cfg) = Some 5"
    and "fst (pg_cursor_get sample_pool (cfg_chain sample_cfg) w) = c"
    and "fst (watch_from sample_base_watcher w) = Val start"
    and "pipe_steps sample_poll sample_addrs (pipe_init start (Some 5)) s"
  shows "run_from sample_pool en_tables engine_ok sample_evm_lib sample_cfg (Some 5)
     \<lparr>rn_params = sample_poll, rn_start = start, rn_tip = 9, rn_read = (\<exists>h. c = Val h), rn_end = s\<rparr>"
proof -
  have tip: "io_return 9 w = (Val 9, w)" by (simp add: io_return_def)
  have get: "pg_cursor_get sample_pool (cfg_chain sample_cfg) w =
      (c, snd (pg_cursor_get sample_pool (cfg_chain sample_cfg) w))"
    using assms(3) by (simp add: prod_eq_iff)
  note watch = sample_evm_watch[OF assms(4), unfolded sample_base_watcher_def, folded sample_cfg_def]
  show ?thesis
    using run_from.run[where ok = engine_ok and committed = en_tables, OF tip assms(1,2) get watch] assms(5)
    by simp
qed

lemma sample_run_read: "run_from sample_pool en_tables engine_ok sample_evm_lib sample_cfg (Some 5) sample_run"
  using sample_run_from[OF sample_boot_ok sample_cursor sample_from sample_saved] by (simp add: sample_run_def)

theorem restarts_leave_no_gap_witness:
  "\<exists>b. (6, b) \<in> set (scanned sample_run) \<and>
     (\<forall>e \<in> set (block_events sample_poll 6 b). e \<in> {sample_event})"
proof -
  have runs: "runs_from sample_pool en_tables engine_ok sample_evm_lib sample_cfg (Some 5) [sample_run] (Some 6)"
    using next_run[OF no_run sample_run_read]
    by (simp add: final_cursor_def sample_run_def sample_pipeline_def sample_polled_def)
  show ?thesis
    using restarts_leave_no_gap[OF sample_postgres runs, of 6]
    by (auto simp: sample_run_def sample_pipeline_def)
qed

definition sample_broken :: engine where
  "sample_broken = sample_boot\<lparr>en_faults := (\<lambda>n. Some (Foreign ''reset'', False))\<rparr>"

definition sample_tenth :: "(dynamic_fee_tx \<times> bytes option) pipeline" where
  "sample_tenth = pipe_init 9 (Some 5)\<lparr>pl_poll := \<lparr>ps_pc = Scanning 11 10, ps_next = 11, ps_cursor = Some 10,
     ps_sent = [], ps_scanned = [(10, \<lparr>blk_txs = [], blk_time = 3\<rparr>)]\<rparr>\<rparr>"

lemma sample_unread:
  "engine_ok sample_broken" "cursor_view (en_tables sample_broken) (cfg_chain sample_cfg) = Some 5"
  "fst (pg_cursor_get sample_pool (cfg_chain sample_cfg) sample_broken) =
     Err (Wrapf ''repository: get cursor %s: %w'' [AStr ChainBase] (Foreign ''reset''))"
  "fst (watch_from sample_base_watcher sample_broken) = Val 9"
  using sample_boot_ok sample_cursor(1)
  by (simp_all add: sample_broken_def engine_ok_def) (code_simp+)

lemma sample_tenth_reached: "pipe_steps sample_poll sample_addrs (pipe_init 9 (Some 5)) sample_tenth"
proof -
  let ?b = "\<lparr>blk_txs = [], blk_time = 3\<rparr> :: (dynamic_fee_tx \<times> bytes option) block"
  let ?s0 = "poll_init 9 (Some 5)"
  let ?s1 = "?s0\<lparr>ps_pc := Scanning 10 10\<rparr>"
  let ?s2 = "?s0\<lparr>ps_pc := Sending 10 10 ?b []\<rparr>"
  let ?p = "pipe_init 9 (Some 5) :: (dynamic_fee_tx \<times> bytes option) pipeline"
  have tick: "poll_step sample_poll ?s0 (Tick (Val 10)) ?s1"
    using poll_step.tick[of ?s0 sample_poll 10] by (simp add: poll_init_def)
  have fetch: "poll_step sample_poll ?s1 (Fetch 10 (Val ?b)) ?s2"
    using poll_step.fetch[of ?s1 10 10 sample_poll ?b]
    by (simp add: block_events_def match_transactions_def)
  have fin: "poll_step sample_poll ?s2 (BlockDone 10 True) (pl_poll sample_tenth)"
    using poll_step.block_done[of ?s2 10 10 ?b sample_poll True]
    by (simp add: poll_init_def sample_tenth_def sample_poll_def)
  have "pipe_steps sample_poll sample_addrs ?p (?p\<lparr>pl_poll := ?s1\<rparr>)"
    by (rule pipe_stepI[OF pipe_refl watcher_step[where p = ?s1 and l = "Tick (Val 10)"]])
      (use tick in \<open>simp_all add: pipe_init_def\<close>)
  then have "pipe_steps sample_poll sample_addrs ?p (?p\<lparr>pl_poll := ?s2\<rparr>)"
    by (rule pipe_stepI[OF _ watcher_step[where p = ?s2 and l = "Fetch 10 (Val ?b)"]])
      (use fetch in simp_all)
  then show ?thesis
    by (rule pipe_stepI[OF _ watcher_step[where p = "pl_poll sample_tenth" and l = "BlockDone 10 True"]])
      (use fin in \<open>simp_all add: sample_tenth_def\<close>)
qed

theorem unread_cursor_skips_blocks_witness:
  "6 \<notin> fst ` set (ps_scanned (pl_poll sample_tenth)) \<and> ps_cursor (pl_poll sample_tenth) = Some 10"
  using unread_cursor_skips_blocks[OF sample_postgres sample_run_from[OF sample_unread sample_tenth_reached]]
  by (auto simp: sample_tenth_def scanned_def final_cursor_def)

end
