(* ===== verification/Boot.thy ===== *)
theory Boot
  imports Program
begin

text \<open>
  The two \<open>main\<close> functions, \<^verbatim>\<open>cmd/api/main.go\<close> and \<^verbatim>\<open>cmd/cli/main.go\<close>, and the constructors
  they call. What the libraries' constructors give is a parameter (\<open>outside\<close>), as are their calls.
  \<open>log.Fatal\<close> ends the process there and then: no deferred call runs. So an error of \<open>main\<close>
  stands for the exit with that message, and \<open>at_return\<close> is what a \<open>defer\<close> in \<open>main\<close> comes to.
  In which order the API starts, and where it ends when something fails, is \<open>api_boot\<close>.
\<close>

section \<open>Libraries\<close>

text \<open>A dialled EVM node: the client's calls and \<open>BlockNumber\<close>.\<close>

record ('w, 'tx) eth_node =
  eh_client :: "('w, 'tx) evm_client"
  eh_block_number :: "('w, 64 word) io"

record rpc_settings =
  rp_host :: string
  rp_user :: string
  rp_pass :: string
  rp_http_post_mode :: bool
  rp_disable_tls :: bool

text \<open>
  \<open>os_go\<close> starts a goroutine that runs \<open>MonitorService.Watch\<close> for a chain and its addresses (what
  it does then is \<open>monitor_start\<close> and \<open>pipe_step\<close>); \<open>os_listen\<close> is \<open>http.ListenAndServe\<close>, which
  returns only with an error.
\<close>

record ('w, 't, 'tx, 's) outside =
  os_pool_new :: "string \<Rightarrow> ('w, ('w, 't) pool) io"
  os_pool_ping :: "('w, 't) pool \<Rightarrow> ('w, unit) io"
  os_pool_close :: "('w, 't) pool \<Rightarrow> ('w, unit) io"
  os_eth_dial :: "string \<Rightarrow> ('w, ('w, 'tx) eth_node) io"
  os_rpc_new :: "rpc_settings \<Rightarrow> ('w, 'w btc_node) io"
  os_sol_new :: "string \<Rightarrow> ('w, 's) sol_client"
  os_http_client :: "'w http_client"
  os_kafka_writer :: "writer_settings \<Rightarrow> 'w kafka_writer"
  os_go :: "('w, 'tx watch) registry_port \<Rightarrow> 'w publisher \<Rightarrow> 'w tx_repo \<Rightarrow> chain_id \<Rightarrow> (address \<times> string) list
              \<Rightarrow> ('w, unit) io"
  os_listen :: "string \<Rightarrow> (http_request \<Rightarrow> ('w, http_response) io) \<Rightarrow> ('w, go_error) io"

record ('w, 'k, 'tx, 's, 'b, 'g) libs =
  lb_evm :: "'tx evm_lib"
  lb_btc :: btc_lib
  lb_sort :: "utxo list \<Rightarrow> utxo list"
  lb_sol :: "'s sol_lib"
  lb_tron :: tron_lib
  lb_sign :: "'k sign_lib"
  lb_crypto :: "('w, 'b, 'g) crypto"
  lb_range :: "chain_id list \<Rightarrow> chain_id list"
  lb_now :: "'w clock"
  lb_texts :: texts

section \<open>Constructors\<close>

definition fatal :: "string \<Rightarrow> ('w, 'a) io \<Rightarrow> ('w, 'a) io" where
  "fatal fmt m = io_wrap (Wrapf fmt []) m"

definition at_return :: "('w, unit) io \<Rightarrow> ('w, 'a) io \<Rightarrow> ('w, 'a) io" where
  "at_return d m w = (case m w of (Err e, w') \<Rightarrow> (Err e, w') | (r, w') \<Rightarrow> (r, snd (d w')))"

definition evm_new ::
  "('w, 't, 'tx, 's) outside \<Rightarrow> 'tx evm_lib \<Rightarrow> 'k hdkeychain \<Rightarrow> evm_config \<Rightarrow> ('w, 'w chain_adapter) io" where
  "evm_new os lib hk cfg =
     io_bind (io_wrap (Wrapf ''evm: dial %s: %w'' [AStr (cfg_rpc_url cfg)]) (os_eth_dial os (cfg_rpc_url cfg))) (\<lambda>node.
     io_return (evm_adapter lib cfg hk (eh_client node)))"

definition evm_new_watcher ::
  "('w, 't, 'tx, 's) outside \<Rightarrow> 'tx evm_lib \<Rightarrow> evm_config \<Rightarrow> ('w, ('w, 'tx) watcher) io" where
  "evm_new_watcher os lib cfg =
     io_bind (io_wrap (Wrapf ''evm: watcher dial %s: %w'' [AStr (cfg_rpc_url cfg)]) (os_eth_dial os (cfg_rpc_url cfg))) (\<lambda>node.
     io_return (new_watcher lib cfg (eh_block_number node)))"

definition rpc_settings_of :: "bitcoin_section \<Rightarrow> rpc_settings" where
  "rpc_settings_of cfg = \<lparr>rp_host = bitcoin_host cfg, rp_user = bitcoin_user cfg, rp_pass = bitcoin_pass cfg,
     rp_http_post_mode = True, rp_disable_tls = True\<rparr>"

definition bitcoin_new ::
  "('w, 't, 'tx, 's) outside \<Rightarrow> btc_lib \<Rightarrow> (utxo list \<Rightarrow> utxo list) \<Rightarrow> 'k hdkeychain \<Rightarrow> bitcoin_section
     \<Rightarrow> ('w, 'w chain_adapter) io" where
  "bitcoin_new os lib srt hk cfg =
     io_bind (io_wrap (Wrapf ''bitcoin: connect %s: %w'' [AStr (bitcoin_host cfg)])
       (os_rpc_new os (rpc_settings_of cfg))) (\<lambda>client.
     io_return (bitcoin_adapter lib srt hk client))"

definition solana_new :: "('w, 't, 'tx, 's) outside \<Rightarrow> 's sol_lib \<Rightarrow> string \<Rightarrow> 'w chain_adapter" where
  "solana_new os lib rpcURL = solana_adapter lib (os_sol_new os rpcURL)"

definition tron_new ::
  "('w, 't, 'tx, 's) outside \<Rightarrow> tron_lib \<Rightarrow> 'k hdkeychain \<Rightarrow> tron_config \<Rightarrow> 'w chain_adapter" where
  "tron_new os lib hk cfg = tron_adapter lib cfg hk (os_http_client os)"

section \<open>The start both programs share\<close>

text \<open>The pool, and a ping that tells whether the database is there.\<close>

definition open_database ::
  "('w, 't, 'tx, 's) outside \<Rightarrow> config \<Rightarrow> (('w, 't) pool \<Rightarrow> ('w, 'a) io) \<Rightarrow> ('w, 'a) io" where
  "open_database os conf body =
     io_bind (fatal ''db: %v'' (os_pool_new os (conf_database_url conf))) (\<lambda>dbPool.
     at_return (os_pool_close os dbPool)
       (io_bind (fatal ''db: ping: %v'' (os_pool_ping os dbPool)) (\<lambda>_. body dbPool)))"

definition dial_adapters ::
  "('w, 't, 'tx, 's) outside \<Rightarrow> ('w, 'k, 'tx, 's, 'b, 'g) libs \<Rightarrow> config \<Rightarrow> ('w, 'w chain_adapter list) io" where
  "dial_adapters os lb conf =
     (let hk = sl_hd (lb_sign lb) in
     io_bind (fatal ''eth adapter: %v'' (evm_new os (lb_evm lb) hk (eth_config conf))) (\<lambda>ethAdapter.
     io_bind (fatal ''base adapter: %v'' (evm_new os (lb_evm lb) hk (base_config conf))) (\<lambda>baseAdapter.
     io_bind (fatal ''btc adapter: %v'' (bitcoin_new os (lb_btc lb) (lb_sort lb) hk (conf_bitcoin conf))) (\<lambda>btcAdapter.
     let solAdapter = solana_new os (lb_sol lb) (conf_solana_url conf);
         tronAdapter = tron_new os (lb_tron lb) hk \<lparr>tron_rpc_url = conf_tron_url conf\<rparr>
     in io_return [ethAdapter, baseAdapter, btcAdapter, solAdapter, tronAdapter]))))"

section \<open>The API\<close>

fun go_watch ::
  "('w, 't, 'tx, 's) outside \<Rightarrow> ('w, 'tx watch) registry_port \<Rightarrow> 'w publisher \<Rightarrow> 'w tx_repo
     \<Rightarrow> (chain_id \<times> (address \<times> string) list) list \<Rightarrow> ('w, unit) io" where
  "go_watch os rg pub txRepo [] = io_return ()"
| "go_watch os rg pub txRepo ((chain, addrs) # plan) =
     io_bind (os_go os rg pub txRepo chain addrs) (\<lambda>_. go_watch os rg pub txRepo plan)"

definition publisher_close :: "('w, 't, 'tx, 's) outside \<Rightarrow> config \<Rightarrow> ('w, unit) io" where
  "publisher_close os conf =
     (if kafka_enabled (conf_kafka conf)
      then kafka_close (kafka_new (os_kafka_writer os) (kafka_brokers (conf_kafka conf)) (kafka_topic (conf_kafka conf)))
      else io_return ())"

definition api_main ::
  "('w, 't, 'tx, 's) outside \<Rightarrow> ('w, 'k, 'tx, 's, 'b, 'g) libs \<Rightarrow> chi \<Rightarrow> (string \<rightharpoonup> string) \<Rightarrow> ('w, unit) io" where
  "api_main os lb mux env =
     (let conf = load_config env in
     open_database os conf (\<lambda>dbPool.
     io_bind (dial_adapters os lb conf) (\<lambda>adapters.
     let keys = postgres_key_store dbPool (lb_crypto lb) (lb_sign lb);
         repo = postgres_repo dbPool;
         cursors = postgres_cursors dbPool
     in
     io_bind (fatal ''eth watcher: %v'' (evm_new_watcher os (lb_evm lb) (eth_config conf))) (\<lambda>ethWatcher.
     io_bind (fatal ''base watcher: %v'' (evm_new_watcher os (lb_evm lb) (base_config conf))) (\<lambda>baseWatcher.
     let registry = register_watcher (register_watcher (new_registry adapters)
           (evm_watcher (set_cursor_store cursors ethWatcher))) (evm_watcher (set_cursor_store cursors baseWatcher))
     in
     at_return (publisher_close os conf)
       (io_bind (start_monitoring repo) (\<lambda>plan.
        io_bind (go_watch os (registry_as_port (lb_range lb) registry) (api_publisher conf (os_kafka_writer os))
          (postgres_transactions dbPool) plan) (\<lambda>_.
        io_bind (os_listen os '':8080'' (http_serve mux (api_app (lb_range lb) registry keys dbPool (lb_now lb) (lb_texts lb)))) (\<lambda>e.
        io_fail e)))))))))"

section \<open>The command line\<close>

definition cli_main ::
  "('w, 't, 'tx, 's) outside \<Rightarrow> ('w, 'k, 'tx, 's, 'b, 'g) libs \<Rightarrow> cobra \<Rightarrow> 'w terminal \<Rightarrow> (string \<rightharpoonup> string)
     \<Rightarrow> string list \<Rightarrow> ('w, string) io" where
  "cli_main os lb cobra te env args =
     (let conf = load_config env in
     open_database os conf (\<lambda>dbPool.
     io_bind (dial_adapters os lb conf) (\<lambda>adapters.
     let keys = postgres_key_store dbPool (lb_crypto lb) (lb_sign lb)
     in cli_run cobra te (cli_app (lb_range lb) adapters keys dbPool (lb_now lb) (lb_texts lb) :: ('w, unit) app) args)))"

section \<open>What is put together\<close>

text \<open>Whatever is dialled, the adapters are the program's list over it.\<close>

lemma dial_adapters_Val:
  assumes "dial_adapters os lb conf w = (Val adapters, w')"
  obtains eth base btc where
    "adapters = all_adapters (lb_evm lb) conf (sl_hd (lb_sign lb)) eth base (lb_btc lb) (lb_sort lb) btc (lb_sol lb)
       (os_sol_new os (conf_solana_url conf)) (lb_tron lb) (os_http_client os)"
  using assms
  by (auto simp: dial_adapters_def Let_def io_bind_eq_Val_iff fatal_def evm_new_def bitcoin_new_def
      solana_new_def tron_new_def all_adapters_def eth_config_def base_config_def)

section \<open>In which order the API starts\<close>

text \<open>
  The libraries, recording every call made while starting; the outcome of a call is given by its
  position (\<open>None\<close> is success).
\<close>

datatype boot_action =
    NewPool string
  | PingPool
  | ClosePool
  | DialEth string
  | NewRpc rpc_settings
  | QueryWallets
  | CloseKafka
  | Go chain_id "(address \<times> string) list"
  | Listen string

type_synonym boot_trace = "boot_action list"

definition act :: "(nat \<Rightarrow> go_error option) \<Rightarrow> boot_action \<Rightarrow> 'a \<Rightarrow> (boot_trace, 'a) io" where
  "act f a x tr = (case f (length tr) of None \<Rightarrow> Val x | Some e \<Rightarrow> Err e, tr @ [a])"

definition idle_pool :: "(nat \<Rightarrow> go_error option) \<Rightarrow> (boot_trace, unit) pool" where
  "idle_pool f = \<lparr>pg_begin = io_fail node_down, pg_tx_exec = (\<lambda>_ _. io_fail node_down), pg_commit = (\<lambda>_. io_fail node_down),
     pg_rollback = (\<lambda>_. io_fail node_down), pg_exec = (\<lambda>_. io_fail node_down), pg_wallet_by_id = (\<lambda>_. io_fail node_down),
     pg_wallets = act f QueryWallets \<lparr>rows_items = [], rows_err = None\<rparr>, pg_accounts_of = (\<lambda>_. io_fail node_down),
     pg_cursor_of = (\<lambda>_. io_fail node_down), pg_keystore_of = (\<lambda>_. io_fail node_down)\<rparr>"

definition idle_evm :: "('w, 'tx) evm_client" where
  "idle_evm = \<lparr>ec_balance_at = (\<lambda>_. io_fail node_down), ec_suggest_gas_tip_cap = io_fail node_down,
     ec_latest_base_fee = io_fail node_down, ec_pending_nonce_at = (\<lambda>_. io_fail node_down),
     ec_send_transaction = (\<lambda>_. io_fail node_down), ec_transaction_by_hash = (\<lambda>_. io_fail node_down),
     ec_transaction_receipt = (\<lambda>_. io_fail node_down)\<rparr>"

definition idle_btc :: "'w btc_node" where
  "idle_btc = \<lparr>bc_raw_request = (\<lambda>_ _. io_fail node_down), bc_send_raw_transaction = (\<lambda>_. io_fail node_down),
     bc_get_raw_transaction_verbose = (\<lambda>_. io_fail node_down)\<rparr>"

definition recording ::
  "(nat \<Rightarrow> go_error option) \<Rightarrow> (string \<Rightarrow> (boot_trace, 's) sol_client) \<Rightarrow> boot_trace http_client \<Rightarrow> go_error
     \<Rightarrow> (boot_trace, unit, 'tx, 's) outside" where
  "recording f sol http e =
     \<lparr>os_pool_new = (\<lambda>url. act f (NewPool url) (idle_pool f)), os_pool_ping = (\<lambda>_. act f PingPool ()),
      os_pool_close = (\<lambda>_. act f ClosePool ()),
      os_eth_dial = (\<lambda>url. act f (DialEth url) \<lparr>eh_client = idle_evm, eh_block_number = io_fail node_down\<rparr>),
      os_rpc_new = (\<lambda>s. act f (NewRpc s) idle_btc), os_sol_new = sol, os_http_client = http,
      os_kafka_writer = (\<lambda>_. \<lparr>kw_write = (\<lambda>_. io_fail node_down), kw_wait = (\<lambda>_. io_fail node_down),
        kw_close = act f CloseKafka ()\<rparr>),
      os_go = (\<lambda>_ _ _ chain addrs tr. (Val (), tr @ [Go chain addrs])),
      os_listen = (\<lambda>addr _ tr. (Val e, tr @ [Listen addr]))\<rparr>"

text \<open>A sequence of calls, each with the text that is put around its error; the first error ends it.\<close>

fun run_calls ::
  "(nat \<Rightarrow> go_error option) \<Rightarrow> (boot_action \<times> (go_error \<Rightarrow> go_error)) list \<Rightarrow> boot_trace \<Rightarrow> unit go \<times> boot_trace" where
  "run_calls f [] tr = (Val (), tr)"
| "run_calls f ((a, h) # cs) tr = (case f (length tr) of
     Some e \<Rightarrow> (Err (h e), tr @ [a]) | None \<Rightarrow> run_calls f cs (tr @ [a]))"

definition dial_call :: "string \<Rightarrow> string \<Rightarrow> string \<Rightarrow> boot_action \<times> (go_error \<Rightarrow> go_error)" where
  "dial_call outer inner url = (DialEth url, \<lambda>e. Wrapf outer [] (Wrapf inner [AStr url] e))"

definition boot_calls :: "config \<Rightarrow> (boot_action \<times> (go_error \<Rightarrow> go_error)) list" where
  "boot_calls conf =
     (let eth = evm_rpc_url (conf_ethereum conf); base = evm_rpc_url (conf_base conf)
      in [(NewPool (conf_database_url conf), Wrapf ''db: %v'' []),
          (PingPool, Wrapf ''db: ping: %v'' []),
          dial_call ''eth adapter: %v'' ''evm: dial %s: %w'' eth,
          dial_call ''base adapter: %v'' ''evm: dial %s: %w'' base,
          (NewRpc (rpc_settings_of (conf_bitcoin conf)), \<lambda>e. Wrapf ''btc adapter: %v'' []
             (Wrapf ''bitcoin: connect %s: %w'' [AStr (bitcoin_host (conf_bitcoin conf))] e)),
          dial_call ''eth watcher: %v'' ''evm: watcher dial %s: %w'' eth,
          dial_call ''base watcher: %v'' ''evm: watcher dial %s: %w'' base])"

lemma wrap_bind_return:
  "io_wrap h (io_bind m (\<lambda>a. io_return (g a))) = io_bind (io_wrap h m) (\<lambda>a. io_return (g a))"
  by (rule ext) (auto simp: io_bind_def io_wrap_def split: prod.splits go.splits)

lemma wrap_wrap: "io_wrap h (io_wrap h' m) = io_wrap (\<lambda>e. h (h' e)) m"
proof
  fix w show "io_wrap h (io_wrap h' m) w = io_wrap (\<lambda>e. h (h' e)) m w"
    by (cases "m w"; cases "fst (m w)") (auto simp: io_wrap_def)
qed

lemma act_step:
  "io_bind (io_wrap h (act f a x)) k tr =
     (case f (length tr) of Some e \<Rightarrow> (Err (h e), tr @ [a]) | None \<Rightarrow> k x (tr @ [a]))"
  by (simp add: act_def io_bind_def io_wrap_def split: option.split)

text \<open>\<open>m\<close> makes the calls \<open>cs\<close> and goes on as \<open>g\<close>.\<close>

definition boots ::
  "(nat \<Rightarrow> go_error option) \<Rightarrow> (boot_trace, unit) io \<Rightarrow> (boot_action \<times> (go_error \<Rightarrow> go_error)) list
     \<Rightarrow> (boot_trace, unit) io \<Rightarrow> bool" where
  "boots f m cs g \<longleftrightarrow> (\<forall>tr. m tr = (case run_calls f cs tr of (Val _, tr') \<Rightarrow> g tr' | r \<Rightarrow> r))"

lemma boots_call: "boots f (k x) cs g \<Longrightarrow> boots f (io_bind (io_wrap h (act f a x)) k) ((a, h) # cs) g"
  by (simp add: boots_def act_step split: option.split)

lemma run_calls_no_panic: "run_calls f cs tr \<noteq> (Panic, tr')"
  by (induction f cs tr rule: run_calls.induct) (simp_all split: option.split)

lemma boots_end: "boots f g [] g"
  by (simp add: boots_def)

lemma boots_at_return: "boots f m cs (\<lambda>tr. (Err e, g tr)) \<Longrightarrow> boots f (at_return d m) cs (\<lambda>tr. (Err e, g tr))"
  by (auto simp: boots_def at_return_def run_calls_no_panic split: prod.split go.split)

lemma recording_calls:
  "os_pool_new (recording f sol http e) url = act f (NewPool url) (idle_pool f)"
  "os_pool_ping (recording f sol http e) pool = act f PingPool ()"
  "os_pool_close (recording f sol http e) pool = act f ClosePool ()"
  "os_eth_dial (recording f sol http e) url = act f (DialEth url) \<lparr>eh_client = idle_evm, eh_block_number = io_fail node_down\<rparr>"
  "os_rpc_new (recording f sol http e) s = act f (NewRpc s) idle_btc"
  by (simp_all add: recording_def)

lemma recording_list:
  "pg_list (idle_pool f) tr =
     (case f (length tr) of Some e \<Rightarrow> (Err (Wrapf ''repository: list wallets: %w'' [] e), tr @ [QueryWallets])
      | None \<Rightarrow> (Val [], tr @ [QueryWallets]))"
  by (simp add: pg_list_def idle_pool_def rows_checked_def act_step split: option.split)

lemma recording_serve:
  "io_bind (start_monitoring (postgres_repo (idle_pool f))) (\<lambda>plan.
     io_bind (go_watch (recording f sol http e) rg pub txr plan) (\<lambda>_.
     io_bind (os_listen (recording f sol http e) addr app) (\<lambda>e. io_fail e))) =
     (\<lambda>tr. (Err e, tr @ [QueryWallets] @
        (if f (length tr) = None then [Go ChainEthereum [], Go ChainBase []] else []) @ [Listen addr]))"
  by (rule ext) (simp add: start_monitoring_def postgres_repo_def io_bind_def io_try_def recording_list
      watched_addresses_def recording_def split: option.split)

text \<open>
  C33. The API starts in a fixed order, here against a database with no wallets: the pool, a ping of
  the database, the nodes of Ethereum, Base and Bitcoin, the two nodes of the watchers. The first of
  these calls that fails ends the process with its error; nothing is then watched or served. If all
  succeed, the wallets are listed, and both chains are watched if that succeeds and none if it
  fails; the server listens on port 8080 in either case, and the process ends with the error of
  the listener. On no way out are the pool or the Kafka writer closed, although \<open>main\<close> defers both.
\<close>

theorem api_boot:
  "api_main (recording f sol http e) lb mux env [] =
     (case run_calls f (boot_calls (load_config env)) [] of
        (Val _, tr) \<Rightarrow>
          (Err e, tr @ [QueryWallets] @ (if f (length tr) = None then [Go ChainEthereum [], Go ChainBase []] else []) @
             [Listen '':8080''])
      | r \<Rightarrow> r)"
proof -
  note main = api_main_def Let_def open_database_def dial_adapters_def evm_new_def bitcoin_new_def evm_new_watcher_def
    fatal_def eth_config_def base_config_def boot_calls_def dial_call_def
  have "boots f (api_main (recording f sol http e) lb mux env) (boot_calls (load_config env))
      (\<lambda>tr. (Err e, tr @ [QueryWallets] @ (if f (length tr) = None then [Go ChainEthereum [], Go ChainBase []] else []) @
         [Listen '':8080'']))"
    unfolding main
    by (simp only: recording_calls wrap_bind_return wrap_wrap io_bind_assoc io_bind_return evm_config.simps)
      (intro boots_call boots_at_return, simp only: recording_serve boots_end)
  then show ?thesis by (simp only: boots_def)
qed

end
