(* ===== verification/Isolation.thy ===== *)
theory Isolation
  imports Program
begin

text \<open>
  What goes into the database from several sides at once: the two monitored chains and the
  requests that write beside them. What the watcher finds always fits the schema
  (\<open>watched_events_fit\<close>), and the monitors of two chains, interleaved in any order and with any of
  their calls failing, leave each chain's part of the tables as it would be alone
  (\<open>monitors_do_not_interfere\<close>).
\<close>

section \<open>What the watcher finds fits the schema\<close>

lemma find_upsert_iff: "r \<in> set (upsert p f x xs) \<Longrightarrow> r = x \<and> (\<forall>y \<in> set xs. \<not> p y) \<or> r \<in> set xs \<or>
    (\<exists>y \<in> set xs. p y \<and> r = f y)"
  by (induction xs) (auto split: if_splits)

lemma distinct_map_upsert:
  assumes "distinct (map k xs)" and "\<And>x. p x \<Longrightarrow> k (f x) = k x" and "k r \<in> k ` set xs \<Longrightarrow> \<exists>x \<in> set xs. p x"
  shows "distinct (map k (upsert p f r xs))"
proof (cases "\<exists>x \<in> set xs. p x")
  case True
  then have "map k (upsert p f r xs) = map k xs" using assms(2) by (induction xs) auto
  then show ?thesis using assms(1) by simp
next
  case False
  then have "upsert p f r xs = xs @ [r]" by (induction xs) auto
  then show ?thesis using assms(1,3) False by auto
qed

lemma keys_upsert: "(\<And>x. p x \<Longrightarrow> k (f x) = k x) \<Longrightarrow> k ` set xs \<subseteq> k ` set (upsert p f r xs)"
  by (induction xs) auto

text \<open>A row that is right and whose id is not taken can always be written.\<close>

lemma run_transaction:
  assumes "schema_ok T" and "set_string10 amount = Some n" and "\<bar>n\<bar> < 10 ^ 78"
    and "status \<in> {TxPending, TxConfirmed, TxFailed, TxUnknown}"
    and "case height of None \<Rightarrow> True | Some h \<Rightarrow> bigint h"
    and "se_next_id env \<notin> trow_id ` set (tb_transactions T)"
  shows "\<exists>T' r. run_stmt env (UpsertTransaction chain hash status from_a to_a amount name height) T = Some (T', trow_id r) \<and>
           find_tx chain hash T' = Some r \<and> tb_wallets T' = tb_wallets T"
proof -
  let ?T = "upsert_transaction env chain hash status from_a to_a n name height T"
  let ?key = "\<lambda>r :: tx_row. (trow_chain r, trow_hash r) = (chain, hash)"
  let ?f = "\<lambda>r :: tx_row. r\<lparr>trow_status := status, trow_height := height, trow_confirmed := confirmed_at env status\<rparr>"
  let ?row = "new_tx_row env chain hash status from_a to_a n name height"
  have tx: "tb_transactions ?T = upsert ?key ?f ?row (tb_transactions T)"
    by (simp add: upsert_transaction_def)
  have others: "tb_wallets ?T = tb_wallets T" "tb_accounts ?T = tb_accounts T" "tb_keystore ?T = tb_keystore T"
    "tb_cursors ?T = tb_cursors T" "tb_links ?T = tb_links T"
    by (simp_all add: upsert_transaction_def)
  have ok: "transactions_ok T" "links_ok T" using assms(1) by (simp_all add: schema_ok_def)
  have "distinct (map trow_id (tb_transactions ?T))"
    unfolding tx by (rule distinct_map_upsert) (use ok(1) assms(6) in \<open>auto simp: transactions_ok_def new_tx_row_def\<close>)
  moreover have "distinct (map (\<lambda>r. (trow_chain r, trow_hash r)) (tb_transactions ?T))"
    unfolding tx by (rule distinct_map_upsert) (use ok(1) in \<open>auto simp: transactions_ok_def new_tx_row_def\<close>)
  moreover have "\<forall>r \<in> set (tb_transactions ?T). trow_status r \<in> {TxPending, TxConfirmed, TxFailed, TxUnknown} \<and>
        \<bar>trow_amount r\<bar> < 10 ^ 78 \<and> (case trow_fee r of None \<Rightarrow> True | Some f \<Rightarrow> \<bar>f\<bar> < 10 ^ 78) \<and>
        (case trow_height r of None \<Rightarrow> True | Some h \<Rightarrow> bigint h)"
  proof
    fix r assume "r \<in> set (tb_transactions ?T)"
    from find_upsert_iff[OF this[unfolded tx]] consider "r = ?row" | "r \<in> set (tb_transactions T)"
      | y where "y \<in> set (tb_transactions T)" "r = ?f y" by blast
    then show "trow_status r \<in> {TxPending, TxConfirmed, TxFailed, TxUnknown} \<and>
        \<bar>trow_amount r\<bar> < 10 ^ 78 \<and> (case trow_fee r of None \<Rightarrow> True | Some f \<Rightarrow> \<bar>f\<bar> < 10 ^ 78) \<and>
        (case trow_height r of None \<Rightarrow> True | Some h \<Rightarrow> bigint h)"
      using ok(1) assms(3-5) by cases (auto simp: transactions_ok_def new_tx_row_def)
  qed
  ultimately have "transactions_ok ?T" unfolding transactions_ok_def by blast
  moreover have "trow_id ` set (tb_transactions T) \<subseteq> trow_id ` set (tb_transactions ?T)"
    unfolding tx by (rule keys_upsert) simp
  then have "links_ok ?T" using ok(2) by (auto simp: links_ok_def others)
  ultimately have schema: "schema_ok ?T"
    using assms(1) by (simp add: schema_defs others)
  obtain r where r: "find_tx chain hash ?T = Some r"
    by (auto simp: find_tx_def tx find_upsert_same new_tx_row_def)
  then show ?thesis
    using schema assms(2) others(1) by (intro exI[of _ ?T] exI[of _ r]) (simp add: run_stmt_Some Let_def)
qed

lemma run_link:
  assumes "schema_ok T" and "k \<in> trow_id ` set (tb_transactions T)" and "i \<in> wlr_id ` set (tb_wallets T)"
    and "role \<in> {RoleSender, RoleReceiver}"
  shows "\<exists>T'. run_stmt env (InsertLink k i chain addr role) T = Some (T', 0)"
proof -
  let ?T = "insert_link k i chain addr role T"
  let ?key = "\<lambda>l. (lnk_tx l, lnk_address l, lnk_role l) = (k, addr, role)"
  let ?l = "\<lparr>lnk_tx = k, lnk_wallet = i, lnk_chain = chain, lnk_address = addr, lnk_role = role\<rparr>"
  have links: "tb_links ?T = upsert ?key (\<lambda>l. l) ?l (tb_links T)" by (simp add: insert_link_def)
  have "links_ok T" using assms(1) by (simp add: schema_ok_def)
  then have "distinct (map (\<lambda>l. (lnk_tx l, lnk_address l, lnk_role l)) (tb_links ?T))"
    unfolding links by (intro distinct_map_upsert) (auto simp: links_ok_def)
  moreover have "\<forall>l \<in> set (tb_links ?T). lnk_tx l \<in> trow_id ` set (tb_transactions ?T) \<and>
      lnk_wallet l \<in> wlr_id ` set (tb_wallets ?T) \<and> lnk_role l \<in> {RoleSender, RoleReceiver}"
  proof
    fix l assume "l \<in> set (tb_links ?T)"
    then have "l = ?l \<or> l \<in> set (tb_links T)" using find_upsert_iff[of l] unfolding links by blast
    with \<open>links_ok T\<close> assms(2-4) show "lnk_tx l \<in> trow_id ` set (tb_transactions ?T) \<and>
        lnk_wallet l \<in> wlr_id ` set (tb_wallets ?T) \<and> lnk_role l \<in> {RoleSender, RoleReceiver}"
      by (auto simp: links_ok_def insert_link_def)
  qed
  ultimately have "links_ok ?T" unfolding links_ok_def by blast
  then have "schema_ok ?T" using assms(1) by (simp add: schema_defs insert_link_def)
  then show ?thesis by (simp add: run_stmt_Some)
qed

text \<open>
  C21. Whatever a block holds, an event the watcher finds in it can be written: for a wallet that is
  in the table and an unused id, both statements of \<open>SaveEvent\<close> satisfy every key, foreign key,
  check and column range, as the value of an EVM transaction is below \<open>2 ^ 256\<close>.
\<close>

theorem watched_events_fit:
  assumes "e \<in> set (match_transactions lib chain signer txs n t watched)"
    and "\<forall>tx \<in> set txs. 0 \<le> el_value lib tx \<and> el_value lib tx < 2 ^ 256"
    and "schema_ok T" and "i \<in> wlr_id ` set (tb_wallets T)"
    and "se_next_id env \<notin> trow_id ` set (tb_transactions T)"
  shows "\<exists>T1 k role T'. run_stmt env (event_stmt e) T = Some (T1, k) \<and> role_for (ev_type e) = Some role \<and>
           run_stmt env (InsertLink k i (ev_chain e) (ev_address e) role) T1 = Some (T', 0) \<and> schema_ok T'"
proof -
  from assms(1) obtain tx where tx: "tx \<in> set txs" "ev_amount e = \<lparr>amt_asset = native_eth, amt_base = Some (el_value lib tx)\<rparr>"
    "ev_status e = TxConfirmed" "ev_height e = n" "ev_type e \<in> {EventOutbound, EventInbound}"
    by (auto simp: match_transactions_mem outbound_event_def inbound_event_def mk_tx_event_def)
  have amount: "set_string10 (base_string (ev_amount e)) = Some (el_value lib tx)" by (simp add: tx(2) base_string_def)
  have small: "\<bar>el_value lib tx\<bar> < 10 ^ 78" using assms(2) tx(1) by fastforce
  have height: "case block_height_or_nil (ev_height e) of None \<Rightarrow> True | Some h \<Rightarrow> bigint h"
    using int64_range[of "uint n"] by (simp add: block_height_or_nil_def tx(4) bigint_def)
  have status: "ev_status e \<in> {TxPending, TxConfirmed, TxFailed, TxUnknown}" using tx(3) by simp
  from run_transaction[OF assms(3) amount small status height assms(5)]
  obtain T1 r where T1: "run_stmt env (event_stmt e) T = Some (T1, trow_id r)"
    "find_tx (ev_chain e) (ev_hash e) T1 = Some r" "tb_wallets T1 = tb_wallets T"
    unfolding event_stmt_def by blast
  obtain role where role: "role_for (ev_type e) = Some role" "role \<in> {RoleSender, RoleReceiver}"
    using tx(5) by (auto simp: role_for_def event_type_defs)
  have "schema_ok T1" using T1(1) by (rule run_stmt_schema)
  moreover have "trow_id r \<in> trow_id ` set (tb_transactions T1)"
    using T1(2) by (auto simp: find_tx_def find_Some_iff)
  ultimately obtain T' where "run_stmt env (InsertLink (trow_id r) i (ev_chain e) (ev_address e) role) T1 = Some (T', 0)"
    using run_link[of T1 "trow_id r" i role] assms(4) T1(3) role(2) by metis
  with T1(1) role(1) show ?thesis using run_stmt_schema by blast
qed

section \<open>One chain's part of the tables\<close>

text \<open>
  What a reader of one chain sees: the transactions by hash with their links, ids and times left
  out, and the cursor.
\<close>

record chain_tx =
  ctx_status :: tx_status
  ctx_from :: "string option"
  ctx_to :: "string option"
  ctx_amount :: int
  ctx_symbol :: string
  ctx_height :: "int option"
  ctx_links :: "(string \<times> string \<times> string) list"

record chain_view =
  cv_txs :: "string \<rightharpoonup> chain_tx"
  cv_cursor :: "64 word option"

definition link_data :: "link_row \<Rightarrow> string \<times> string \<times> string" where
  "link_data l = (lnk_wallet l, lnk_address l, lnk_role l)"

definition tx_data :: "tables \<Rightarrow> tx_row \<Rightarrow> chain_tx" where
  "tx_data T r = \<lparr>ctx_status = trow_status r, ctx_from = trow_from r, ctx_to = trow_to r,
     ctx_amount = trow_amount r, ctx_symbol = trow_symbol r, ctx_height = trow_height r,
     ctx_links = map link_data (filter (\<lambda>l. lnk_tx l = trow_id r) (tb_links T))\<rparr>"

definition view_of :: "chain_id \<Rightarrow> tables \<Rightarrow> chain_view" where
  "view_of c T = \<lparr>cv_txs = (\<lambda>h. map_option (tx_data T) (find_tx c h T)), cv_cursor = cursor_view T c\<rparr>"

text \<open>The specification: an event is filed under its hash; saving it adds its side once.\<close>

definition add_link :: "string \<times> string \<times> string \<Rightarrow> chain_tx \<Rightarrow> chain_tx" where
  "add_link l x = x\<lparr>ctx_links := upsert (\<lambda>k. snd k = snd l) (\<lambda>k. k) l (ctx_links x)\<rparr>"

definition file_tx :: "tx_event \<Rightarrow> chain_tx option \<Rightarrow> chain_tx" where
  "file_tx e x = (case x of
      Some y \<Rightarrow> y\<lparr>ctx_status := ev_status e, ctx_height := block_height_or_nil (ev_height e)\<rparr>
    | None \<Rightarrow> \<lparr>ctx_status = ev_status e, ctx_from = fst (from_to e), ctx_to = snd (from_to e),
        ctx_amount = (case amt_base (ev_amount e) of None \<Rightarrow> 0 | Some n \<Rightarrow> n),
        ctx_symbol = asset_symbol (amt_asset (ev_amount e)), ctx_height = block_height_or_nil (ev_height e),
        ctx_links = []\<rparr>)"

definition file_event :: "string \<Rightarrow> tx_event \<Rightarrow> chain_view \<Rightarrow> chain_view" where
  "file_event i e v =
     (let x = file_tx e (cv_txs v (ev_hash e));
          x' = (case role_for (ev_type e) of None \<Rightarrow> x | Some role \<Rightarrow> add_link (i, ev_address e, role) x)
      in v\<lparr>cv_txs := (cv_txs v)(ev_hash e \<mapsto> x')\<rparr>)"

lemma filter_upsert_in:
  assumes "\<And>x. p x \<longleftrightarrow> q x \<and> p' (d x)" and "q r"
  shows "map d (filter q (upsert p (\<lambda>x. x) r xs)) = upsert p' (\<lambda>x. x) (d r) (map d (filter q xs))"
  using assms by (induction xs) auto

lemma find_tx_mem: "find_tx c h T = Some r \<Longrightarrow> r \<in> set (tb_transactions T) \<and> trow_chain r = c \<and> trow_hash r = h"
  by (auto simp: find_tx_def find_Some_iff)

lemma find_tx_ids:
  assumes "schema_ok T" and "find_tx c h T = Some r" and "find_tx c' h' T = Some r'" and "trow_id r = trow_id r'"
  shows "c = c' \<and> h = h'"
proof -
  have "inj_on trow_id (set (tb_transactions T))"
    using assms(1) by (simp add: schema_ok_def transactions_ok_def distinct_map)
  with assms(2-4) have "r = r'" using find_tx_mem by (metis inj_onD)
  then show ?thesis using assms(2,3) find_tx_mem by metis
qed

lemma view_link:
  assumes "schema_ok T" and "run_stmt env (InsertLink k i chain addr role) T = Some (T', n)"
    and "find_tx c h T = Some r" and "trow_id r = k"
  shows "map_option (tx_data T') (find_tx c' h' T') =
     (if (c', h') = (c, h) then map_option (add_link (i, addr, role)) (map_option (tx_data T) (find_tx c h T))
      else map_option (tx_data T) (find_tx c' h' T))"
proof -
  have T': "T' = insert_link k i chain addr role T" using assms(2) by (simp add: run_stmt_Some)
  have same: "find_tx c' h' T' = find_tx c' h' T" by (simp add: T' insert_link_def find_tx_def)
  have mine: "tx_data T' r = add_link (i, addr, role) (tx_data T r)"
    using assms(4) by (simp add: T' tx_data_def insert_link_def add_link_def)
      (subst filter_upsert_in[where p' = "\<lambda>k. snd k = (addr, role)"], auto simp: link_data_def)
  have other: "tx_data T' r' = tx_data T r'" if "find_tx c' h' T = Some r'" "(c', h') \<noteq> (c, h)" for r'
  proof -
    have "trow_id r' \<noteq> k" using find_tx_ids[OF assms(1) that(1) assms(3)] that(2) assms(4) by auto
    then show ?thesis
      by (simp add: T' tx_data_def insert_link_def) (subst filter_upsert_other, auto)
  qed
  show ?thesis
  proof (cases "(c', h') = (c, h)")
    case True
    then show ?thesis using same mine assms(3) by simp
  next
    case False
    then show ?thesis using same other by (cases "find_tx c' h' T") auto
  qed
qed

lemma nil_amount: "set_string10 ''<nil>'' = None"
  by code_simp

lemma view_transaction:
  assumes "schema_ok T" and "run_stmt env (event_stmt e) T = Some (T', k)"
  shows "map_option (tx_data T') (find_tx c h T') =
     (if (c, h) = (ev_chain e, ev_hash e) then Some (file_tx e (map_option (tx_data T) (find_tx c h T)))
      else map_option (tx_data T) (find_tx c h T))"
proof -
  let ?key = "\<lambda>r :: tx_row. (trow_chain r, trow_hash r) = (ev_chain e, ev_hash e)"
  from assms(2) obtain n where n: "set_string10 (base_string (ev_amount e)) = Some n" and
    T': "T' = upsert_transaction env (ev_chain e) (ev_hash e) (ev_status e) (fst (from_to e)) (snd (from_to e)) n
       (asset_symbol (amt_asset (ev_amount e))) (block_height_or_nil (ev_height e)) T" and ok: "schema_ok T'"
    by (rule run_event_stmt)
  define f where "f = (\<lambda>x :: tx_row. x\<lparr>trow_status := ev_status e, trow_height := block_height_or_nil (ev_height e),
       trow_confirmed := confirmed_at env (ev_status e)\<rparr>)"
  define row where "row = new_tx_row env (ev_chain e) (ev_hash e) (ev_status e) (fst (from_to e))
       (snd (from_to e)) n (asset_symbol (amt_asset (ev_amount e))) (block_height_or_nil (ev_height e))"
  have tx: "tb_transactions T' = upsert ?key f row (tb_transactions T)"
    by (simp add: T' upsert_transaction_def f_def row_def)
  have links: "tb_links T' = tb_links T" by (simp add: T' upsert_transaction_def)
  then have data: "tx_data T' r = tx_data T r" for r by (simp add: tx_data_def)
  have amount: "n = (case amt_base (ev_amount e) of None \<Rightarrow> 0 | Some n \<Rightarrow> n)"
    using n nil_amount by (auto simp: base_string_def split: option.splits)
  show ?thesis
  proof (cases "(c, h) = (ev_chain e, ev_hash e)")
    case False
    then have "find_tx c h T' = find_tx c h T"
      unfolding find_tx_def tx by (intro find_upsert_other) (auto simp: f_def row_def new_tx_row_def)
    then show ?thesis using False data by (cases "find_tx c h T") auto
  next
    case True
    have "find_tx c h T' = Some (case find_tx c h T of None \<Rightarrow> row | Some x \<Rightarrow> f x)"
      unfolding find_tx_def tx using True
      by (simp only: prod.inject) (rule find_upsert_same, auto simp: f_def row_def new_tx_row_def)
    moreover have "tx_data T row = file_tx e None" if "find_tx c h T = None"
    proof -
      from that True have "find ?key (tb_transactions T) = None" by (simp add: find_tx_def)
      then have "tb_transactions T' = tb_transactions T @ [row]" unfolding tx by (rule upsert_new)
      then have "trow_id row \<notin> trow_id ` set (tb_transactions T)"
        using ok by (simp add: schema_ok_def transactions_ok_def)
      moreover have "\<forall>l \<in> set (tb_links T). lnk_tx l \<in> trow_id ` set (tb_transactions T)"
        using assms(1) by (simp add: schema_ok_def links_ok_def)
      ultimately have "filter (\<lambda>l. lnk_tx l = trow_id row) (tb_links T) = []"
        unfolding filter_empty_conv by metis
      then show ?thesis by (simp add: tx_data_def file_tx_def row_def new_tx_row_def amount)
    qed
    moreover have "tx_data T (f x) = file_tx e (Some (tx_data T x))" for x
      by (simp add: tx_data_def file_tx_def f_def)
    ultimately show ?thesis using True by (auto simp: data split: option.split)
  qed
qed

lemma cursor_view_saved: "tb_cursors T' = tb_cursors T \<Longrightarrow> cursor_view T' = cursor_view T"
  by (simp add: cursor_view_def[abs_def] fun_eq_iff)

lemma view_event_saved:
  assumes "schema_ok T" and "event_saved i e T T'"
  shows "view_of c T' = (if c = ev_chain e then file_event i e (view_of c T) else view_of c T)"
proof -
  from assms(2) obtain env T1 k where one: "run_stmt env (event_stmt e) T = Some (T1, k)"
    and two: "case role_for (ev_type e) of None \<Rightarrow> T' = T1
      | Some role \<Rightarrow> \<exists>env2 n. run_stmt env2 (InsertLink k i (ev_chain e) (ev_address e) role) T1 = Some (T', n)"
    by (auto simp: event_saved_def)
  from one obtain r where r: "find_tx (ev_chain e) (ev_hash e) T1 = Some r" "trow_id r = k"
    and T1: "tb_cursors T1 = tb_cursors T"
    by (rule run_event_stmt) (auto simp: upsert_transaction_def)
  note first = view_transaction[OF assms(1) one]
  let ?new = "\<lambda>x. case role_for (ev_type e) of None \<Rightarrow> x | Some role \<Rightarrow> add_link (i, ev_address e, role) x"
  have both: "tb_cursors T' = tb_cursors T1 \<and> map_option (tx_data T') (find_tx c h T') =
      (if (c, h) = (ev_chain e, ev_hash e)
       then map_option ?new (map_option (tx_data T1) (find_tx (ev_chain e) (ev_hash e) T1))
       else map_option (tx_data T1) (find_tx c h T1))" for h
  proof (cases "role_for (ev_type e)")
    case None
    then show ?thesis using two by (simp add: option.map_ident)
  next
    case (Some role)
    with two obtain env2 n where link: "run_stmt env2 (InsertLink k i (ev_chain e) (ev_address e) role) T1 = Some (T', n)"
      by auto
    then have "tb_cursors T' = tb_cursors T1" by (auto simp: run_stmt_Some insert_link_def)
    with view_link[OF run_stmt_schema[OF one] link r] Some show ?thesis by simp
  qed
  have cur: "cursor_view T' = cursor_view T" using both T1 by (intro cursor_view_saved) simp
  have txs: "map_option (tx_data T') (find_tx c h T') =
      (if (c, h) = (ev_chain e, ev_hash e) then Some (?new (file_tx e (map_option (tx_data T) (find_tx c h T))))
       else map_option (tx_data T) (find_tx c h T))" for h
    unfolding both[THEN conjunct2] first by (cases "(c, h) = (ev_chain e, ev_hash e)") auto
  have "(\<lambda>h. map_option (tx_data T') (find_tx c h T')) =
      (if c = ev_chain e then cv_txs (file_event i e (view_of c T)) else (\<lambda>h. map_option (tx_data T) (find_tx c h T)))"
  proof
    fix h show "map_option (tx_data T') (find_tx c h T') =
        (if c = ev_chain e then cv_txs (file_event i e (view_of c T)) else (\<lambda>h. map_option (tx_data T) (find_tx c h T))) h"
      unfolding txs by (cases "c = ev_chain e"; cases "h = ev_hash e") (simp_all add: file_event_def Let_def view_of_def cong: option.case_cong)
  qed
  then show ?thesis by (simp add: view_of_def cur file_event_def Let_def)
qed

lemma view_cursor:
  assumes "runs [UpsertCursor d (int64 (uint h))] T T'"
  shows "view_of c T' = (if c = d then (view_of c T)\<lparr>cv_cursor := Some h\<rparr> else view_of c T)"
proof -
  from assms obtain env n where "run_stmt env (UpsertCursor d (int64 (uint h))) T = Some (T', n)"
    by (auto elim!: runs_consE runs_nilE)
  then have "tb_transactions T' = tb_transactions T" "tb_links T' = tb_links T"
    by (auto simp: run_stmt_Some upsert_cursor_def)
  moreover from this(2) have "tx_data T' = tx_data T" by (simp add: tx_data_def fun_eq_iff)
  ultimately show ?thesis using runs_cursor[OF assms] by (simp add: view_of_def find_tx_def)
qed

section \<open>Two monitors on one database\<close>

text \<open>
  What the goroutines of the monitored chains ask of the database: \<open>SaveEvent\<close> from the monitor's
  loop and \<open>SetCursor\<close> from the watcher's. A schedule runs the calls of all chains in some order;
  a failing call does not keep the others from going on.
\<close>

datatype db_call = SaveEvent string tx_event | SetCursor chain_id "64 word"

fun call_chain :: "db_call \<Rightarrow> chain_id" where
  "call_chain (SaveEvent i e) = ev_chain e"
| "call_chain (SetCursor c h) = c"

fun call_view :: "db_call \<Rightarrow> chain_view \<Rightarrow> chain_view" where
  "call_view (SaveEvent i e) v = file_event i e v"
| "call_view (SetCursor c h) v = v\<lparr>cv_cursor := Some h\<rparr>"

fun run_call :: "('w, 't) pool \<Rightarrow> db_call \<Rightarrow> ('w, unit) io" where
  "run_call pool (SaveEvent i e) = save_event pool i e"
| "run_call pool (SetCursor c h) = pg_cursor_set pool c h"

fun db_calls :: "('w, 't) pool \<Rightarrow> db_call list \<Rightarrow> 'w \<Rightarrow> unit go list \<times> 'w" where
  "db_calls pool [] w = ([], w)"
| "db_calls pool (x # xs) w =
     (case run_call pool x w of (r, w') \<Rightarrow> (case db_calls pool xs w' of (rs, w'') \<Rightarrow> (r # rs, w'')))"

text \<open>The calls that had an effect, among those of one chain.\<close>

definition effective :: "chain_id \<Rightarrow> (db_call \<times> bool) list \<Rightarrow> db_call list" where
  "effective c xs = map fst (filter (\<lambda>(x, eff). eff \<and> call_chain x = c) xs)"

context postgres
begin

lemma run_call_view:
  assumes "inv w" and "run_call pool x w = (u, w')"
  shows "inv w' \<and> u \<noteq> Panic \<and> (\<exists>eff. (u = Val () \<longrightarrow> eff) \<and> (\<forall>c. view_of c (committed w') =
           (if eff \<and> call_chain x = c then call_view x (view_of c (committed w)) else view_of c (committed w))))"
proof (cases x)
  case (SaveEvent i e)
  with assms save_event_atomic[of w i e u w'] view_event_saved[OF schema[OF assms(1)], of i e "committed w'"]
  show ?thesis by (cases "event_saved i e (committed w) (committed w')") auto
next
  case (SetCursor d h)
  with assms(2) have run: "io_wrap (Wrapf ''repository: set cursor %s: %w'' [AStr d])
      (pg_exec pool (UpsertCursor d (int64 (uint h)))) w = (u, w')"
    by (simp add: pg_cursor_set_def)
  obtain q where q: "pg_exec pool (UpsertCursor d (int64 (uint h))) w = (q, w')" "u = go_wrap (Wrapf ''repository: set cursor %s: %w'' [AStr d]) q"
    using run by (auto simp: io_wrap_def split: prod.splits)
  from exec_ok[OF assms(1) q(1)] view_cursor[of d h "committed w" "committed w'"] SetCursor q(2)
  show ?thesis by (cases "runs [UpsertCursor d (int64 (uint h))] (committed w) (committed w')") auto
qed

lemma db_calls_view:
  assumes "inv w" and "db_calls pool xs w = (rs, w')"
  shows "inv w' \<and> (\<exists>effs. length effs = length xs \<and> (\<forall>j < length xs. rs ! j = Val () \<longrightarrow> effs ! j) \<and>
           (\<forall>c. view_of c (committed w') = fold call_view (effective c (zip xs effs)) (view_of c (committed w))))"
  using assms
proof (induction xs arbitrary: w rs)
  case Nil
  then show ?case by (simp add: effective_def)
next
  case (Cons x xs)
  obtain u w1 where u: "run_call pool x w = (u, w1)" by fastforce
  obtain us w2 where us: "db_calls pool xs w1 = (us, w2)" by fastforce
  with Cons.prems(2) u have rs: "rs = u # us" "w2 = w'" by simp_all
  from run_call_view[OF Cons.prems(1) u] obtain eff where eff: "inv w1" "u = Val () \<longrightarrow> eff"
    "\<forall>c. view_of c (committed w1) =
       (if eff \<and> call_chain x = c then call_view x (view_of c (committed w)) else view_of c (committed w))"
    by blast
  from Cons.IH[OF eff(1) us[unfolded rs(2)]] obtain effs where effs: "inv w'" "length effs = length xs"
    "\<forall>j < length xs. us ! j = Val () \<longrightarrow> effs ! j"
    "\<forall>c. view_of c (committed w') = fold call_view (effective c (zip xs effs)) (view_of c (committed w1))"
    by blast
  have "view_of c (committed w') = fold call_view (effective c (zip (x # xs) (eff # effs))) (view_of c (committed w))" for c
    using eff(3) effs(4) by (simp add: effective_def)
  moreover have "\<forall>j < length (x # xs). rs ! j = Val () \<longrightarrow> (eff # effs) ! j"
    using eff(2) effs(3) by (auto simp: rs(1) nth_Cons split: nat.split)
  ultimately show ?case using effs(1,2) by (intro conjI exI[of _ "eff # effs"]) simp_all
qed

end

text \<open>
  C16. The monitors of different chains do not interfere: whatever the order of their calls, and
  whichever of them fail, each chain's transactions, links and cursor are those of its own
  effective calls alone, every call that reported success among them, one after the other: an
  event is filed under its hash, a side is linked once, a known transaction keeps its amount and
  its sides and takes the new status and height.
\<close>

theorem monitors_do_not_interfere:
  assumes "postgres pool committed working ok" and "ok w" and "db_calls pool xs w = (rs, w')"
  shows "\<exists>effs. length effs = length xs \<and> (\<forall>j < length xs. rs ! j = Val () \<longrightarrow> effs ! j) \<and>
           (\<forall>c. view_of c (committed w') = fold call_view (effective c (zip xs effs)) (view_of c (committed w)))"
  using postgres.db_calls_view[OF assms] by blast

section \<open>Concrete instances\<close>

definition sample_eth_event :: tx_event where
  "sample_eth_event = sample_in\<lparr>ev_chain := ChainEthereum\<rparr>"

definition sample_transfer_tx :: dynamic_fee_tx where
  "sample_transfer_tx = \<lparr>df_chain_id = 8453, df_nonce = 7, df_gas_tip_cap = 15, df_gas_fee_cap = 215, df_gas = 21000,
     df_to = [98], df_value = Some 5\<rparr>"

theorem watched_events_fit_witness:
  "\<exists>e \<in> set (match_transactions sample_evm_lib ChainBase 8453 [(sample_transfer_tx, None)] 6 0 [[98] \<mapsto> ''b'']).
     \<exists>T1 k role T'. run_stmt \<lparr>se_now = 0, se_next_id = 1\<rparr> (event_stmt e) sample_tables = Some (T1, k) \<and>
       role_for (ev_type e) = Some role \<and>
       run_stmt \<lparr>se_now = 0, se_next_id = 1\<rparr> (InsertLink k ''w1'' (ev_chain e) (ev_address e) role) T1 = Some (T', 0) \<and>
       schema_ok T'"
proof -
  let ?txs = "[(sample_transfer_tx, None)] :: (dynamic_fee_tx \<times> bytes option) list"
  let ?e = "hd (match_transactions sample_evm_lib ChainBase 8453 ?txs 6 0 [[98] \<mapsto> ''b''])"
  have e: "?e \<in> set (match_transactions sample_evm_lib ChainBase 8453 ?txs 6 0 [[98] \<mapsto> ''b''])"
    by (rule hd_in_set) (simp add: match_transactions_def match_transaction_def sample_evm_lib_def sample_transfer_tx_def Let_def)
  have "\<forall>tx \<in> set ?txs. 0 \<le> el_value sample_evm_lib tx \<and> el_value sample_evm_lib tx < 2 ^ 256"
    by (simp add: sample_evm_lib_def)
  moreover have "schema_ok sample_tables" using sample_engine_ok by (simp add: engine_ok_def sample_engine_def)
  moreover have "''w1'' \<in> wlr_id ` set (tb_wallets sample_tables)"
    "se_next_id \<lparr>se_now = 0, se_next_id = 1\<rparr> \<notin> trow_id ` set (tb_transactions sample_tables)"
    by (simp_all add: sample_tables_def no_tables_def)
  ultimately show ?thesis using watched_events_fit[OF e] e by blast
qed

theorem monitors_do_not_interfere_witness:
  "\<exists>w'. db_calls sample_pool [SaveEvent ''w1'' sample_in, SetCursor ChainEthereum 5, SaveEvent ''w2'' sample_eth_event,
       SetCursor ChainBase 6] sample_engine = ([Val (), Val (), Val (), Val ()], w') \<and>
     view_of ChainBase (en_tables w') =
       call_view (SetCursor ChainBase 6) (call_view (SaveEvent ''w1'' sample_in) (view_of ChainBase sample_tables)) \<and>
     view_of ChainEthereum (en_tables w') =
       call_view (SaveEvent ''w2'' sample_eth_event) (call_view (SetCursor ChainEthereum 5) (view_of ChainEthereum sample_tables))"
proof -
  let ?xs = "[SaveEvent ''w1'' sample_in, SetCursor ChainEthereum 5, SaveEvent ''w2'' sample_eth_event, SetCursor ChainBase 6]"
  let ?rs = "[Val (), Val (), Val (), Val ()] :: unit go list"
  have "fst (db_calls sample_pool ?xs sample_engine) = ?rs" by code_simp
  then obtain w' where run: "db_calls sample_pool ?xs sample_engine = (?rs, w')" by (metis prod.collapse)
  from monitors_do_not_interfere[OF sample_postgres sample_engine_ok this] obtain effs where
    effs: "length effs = length ?xs" "\<forall>j < length ?xs. ?rs ! j = Val () \<longrightarrow> effs ! j"
    "\<forall>c. view_of c (en_tables w') = fold call_view (effective c (zip ?xs effs)) (view_of c (en_tables sample_engine))"
    by blast
  have "effs = [True, True, True, True]"
    using effs(1,2) by (auto simp: list_eq_iff_nth_eq less_Suc_eq all_conj_distrib)
  with effs(3) have "view_of c (en_tables w') = fold call_view (effective c (zip ?xs [True, True, True, True]))
      (view_of c sample_tables)" for c
    by (simp add: sample_engine_def)
  with run show ?thesis
    by (auto simp: effective_def sample_in_def sample_eth_event_def chain_defs)
qed

end
