(* ===== verification/Creation.thy ===== *)
theory Creation
  imports Program
begin

text \<open>
  Creating a wallet, as the database sees it: what each way of ending leaves behind
  (\<open>failed_create_leaves\<close>), and that no account on Solana ever gets into it, so that nothing
  can be done on that chain (\<open>no_solana_account\<close>).
\<close>

section \<open>The statements of \<open>Create\<close>\<close>

context postgres
begin

lemma pk_create_runs:
  assumes "crypto_trusted cy committed inv" and "inv w" and "pk_create pool cy i p w = (r, w')"
  shows "inv w' \<and> (\<exists>salt nonce ct. (committed w' = committed w \<and> (\<forall>s. r \<noteq> Val s)) \<or>
           runs [UpsertKeystore i salt nonce ct] (committed w) (committed w'))"
proof -
  have keeps: "random_keeps cy (\<lambda>v. inv v \<and> committed v = committed w)"
    using assms(1) by (simp add: crypto_trusted_def)
  from assms(3) show ?thesis unfolding pk_create_def
  proof (cases rule: io_bind_cases)
    case (val s w1)
    have w1: "inv w1 \<and> committed w1 = committed w"
      using io_keepsD[OF new_seed_keeps[OF keeps] _ val(1)] assms(2) by blast
    from val(2) show ?thesis
    proof (cases rule: io_bind_cases)
      case (val enc w2)
      have w2: "inv w2" "committed w2 = committed w"
        using io_keepsD[OF seal_keeps[OF keeps] w1 val(1)] by auto
      let ?s = "UpsertKeystore i (env_salt enc) (env_nonce enc) (env_ciphertext enc)"
      obtain q w3 where q: "pg_exec pool ?s w2 = (q, w3)" by fastforce
      then have "w' = w3 \<and> ((\<exists>x. r = Val x) \<longrightarrow> q = Val ())"
        using val(2) by (cases q) (auto simp: io_bind_def io_wrap_def)
      with exec_ok[OF w2(1) q] w2(2) show ?thesis by metis
    qed (use io_keepsD[OF seal_keeps[OF keeps] w1] in blast)+
  qed (use io_keepsD[OF new_seed_keeps[OF keeps]] assms(2) in blast)+
qed

end

lemma runs_appendD: "runs (ss @ ts) T T2 \<Longrightarrow> \<exists>T1. runs ss T T1 \<and> runs ts T1 T2"
proof (induction ss arbitrary: T)
  case Nil
  then show ?case by (auto intro: runs_nil)
next
  case (Cons s ss)
  then show ?case by (auto elim!: runs_consE intro: runs_cons) (metis runs_cons)
qed

text \<open>The statements: the wallet, its sealed seed, the wallet with its accounts.\<close>

definition create_stmts :: "wallet \<Rightarrow> bytes \<Rightarrow> bytes \<Rightarrow> bytes \<Rightarrow> stmt list list" where
  "create_stmts x salt nonce ct =
     [wallet_stmts (x\<lparr>w_accounts := []\<rparr>), [UpsertKeystore (w_id x) salt nonce ct], wallet_stmts x]"

text \<open>How far \<open>Create\<close> got, by its result. An error of a commit leaves open whether it took effect.\<close>

definition create_outcome :: "nat \<Rightarrow> wallet \<Rightarrow> wallet go \<Rightarrow> bool" where
  "create_outcome n x r \<longleftrightarrow> (case r of
      Val y \<Rightarrow> n = 3 \<and> y = x
    | Err e \<Rightarrow> (\<exists>q. e = Wrapf ''wallet: save: %w'' [] q \<and> n \<in> {0, 1}) \<or>
        (\<exists>q. e = Wrapf ''wallet: create keys: %w'' [] q \<and> n \<in> {1, 2}) \<or>
        (\<exists>q. e = Wrapf ''wallet: save accounts: %w'' [] q \<and> n \<in> {2, 3})
    | Panic \<Rightarrow> n \<in> {1, 2})"

lemma derive_accounts_no_error: "derive_accounts rg seed ids \<noteq> Err e"
  by (induction ids) (auto simp: go_bind_Err_iff split: go.splits)

lemma view_no_accounts:
  assumes "schema_ok T" and "wallet_view T (w_id x) = None" and "runs (wallet_stmts (x\<lparr>w_accounts := []\<rparr>)) T T'"
  shows "\<exists>v. wallet_view T' (w_id x) = Some v \<and> w_label v = w_label x \<and> w_accounts v = []"
proof -
  have none: "w_id x \<notin> wlr_id ` set (tb_wallets T)"
    using assms(2) by (auto simp: wallet_view_def find_None_iff)
  then have "filter (\<lambda>a. acr_wallet a = w_id x) (tb_accounts T) = []"
    using assms(1) unfolding schema_ok_def accounts_ok_def filter_empty_conv by metis
  moreover from assms(3) obtain env n where "run_stmt env (UpsertWallet (w_id x) (w_label x) (w_created x)) T = Some (T', n)"
    by (auto simp: wallet_stmts_def elim!: runs_consE runs_nilE)
  then have "T' = upsert_wallet (w_id x) (w_label x) (w_created x) T" by (simp add: run_stmt_Some)
  ultimately show ?thesis using none
    by (auto simp: wallet_view_def upsert_wallet_def find_upsert_same wallet_of_row_def find_Some_iff split: option.split)
qed

context postgres
begin

lemma create_body:
  fixes cy :: "('w, 'b, 'g) crypto"
  assumes "crypto_trusted cy committed inv" and "inv w"
    and "io_bind (io_wrap (Wrapf ''wallet: save: %w'' []) (wr_save (postgres_repo pool) (x\<lparr>w_accounts := []\<rparr>))) (\<lambda>_.
        io_bind (io_wrap (Wrapf ''wallet: create keys: %w'' []) (ks_create (postgres_key_store pool cy lib) (w_id x) p)) (\<lambda>seed.
        io_bind (io_lift (derive_accounts rg seed (rg_supported rg))) (\<lambda>accounts.
        io_bind (io_wrap (Wrapf ''wallet: save accounts: %w'' []) (wr_save (postgres_repo pool) (x\<lparr>w_accounts := accounts\<rparr>))) (\<lambda>_.
           io_return (x\<lparr>w_accounts := accounts\<rparr>))))) w = (r, w')"
  shows "\<exists>accs salt nonce ct n. create_outcome n (x\<lparr>w_accounts := accs\<rparr>) r \<and> inv w' \<and>
           (n = 3 \<longrightarrow> (\<exists>seed. derive_accounts rg seed (rg_supported rg) = Val accs)) \<and>
           runs (concat (take n (create_stmts (x\<lparr>w_accounts := accs\<rparr>) salt nonce ct))) (committed w) (committed w')"
    (is "\<exists>accs salt nonce ct n. ?done accs salt nonce ct n r w'")
proof -
  let ?first = "wallet_stmts (x\<lparr>w_accounts := []\<rparr>)"
  obtain q1 w1 where save: "pg_save pool (x\<lparr>w_accounts := []\<rparr>) w = (q1, w1)" by fastforce
  note one = pg_save_atomic[OF assms(2) save]
  obtain q2 w2 where key: "pk_create pool cy (w_id x) p w1 = (q2, w2)" by fastforce
  note two = pk_create_runs[OF assms(1) _ key]
  note body = assms(3)[unfolded io_bind_def io_wrap_def postgres_repo_def postgres_key_store_def io_lift_def, simplified,
      unfolded save, simplified]
  show ?thesis
  proof (cases q1)
    case (Err e)
    then have "w' = w1" "r = Err (Wrapf ''wallet: save: %w'' [] e)" using body by simp_all
    with one show ?thesis
      by (cases "committed w' = committed w")
        (rule exI[of _ "[]"], rule exI[of _ "[]"], rule exI[of _ "[]"], rule exI[of _ "[]"],
          rule exI[of _ "if committed w' = committed w then 0 else 1"],
          auto simp: create_outcome_def create_stmts_def intro: runs_nil)+
  next
    case (Val u)
    then have w1: "inv w1" "runs ?first (committed w) (committed w1)" using one by simp_all
    from two[OF w1(1)] obtain salt nonce ct where w2: "inv w2"
      "committed w2 = committed w1 \<and> (\<forall>s. q2 \<noteq> Val s) \<or>
         runs [UpsertKeystore (w_id x) salt nonce ct] (committed w1) (committed w2)" by blast
    have stopped: ?thesis if "w' = w2" and "create_outcome 1 (x\<lparr>w_accounts := []\<rparr>) r" "create_outcome 2 (x\<lparr>w_accounts := []\<rparr>) r"
    proof (cases "committed w2 = committed w1")
      case True
      then have "?done [] salt nonce ct 1 r w'" using that w1 w2(1) by (simp add: create_stmts_def)
      then show ?thesis by blast
    next
      case False
      with runs_append[OF w1(2)] w2(2) have "?done [] salt nonce ct 2 r w'"
        using that w2(1) by (simp add: create_stmts_def numeral_2_eq_2)
      then show ?thesis by blast
    qed
    show ?thesis
    proof (cases q2)
      case (Val seed)
      have both: "runs (?first @ [UpsertKeystore (w_id x) salt nonce ct]) (committed w) (committed w2)"
        using runs_append[OF w1(2)] w2(2) Val by blast
      show ?thesis
      proof (cases "derive_accounts rg seed (rg_supported rg)")
        case accs: (Val accs)
        let ?x = "x\<lparr>w_accounts := accs\<rparr>"
        obtain q3 w3 where last: "pg_save pool ?x w2 = (q3, w3)" by fastforce
        note three = pg_save_atomic[OF w2(1) last]
        have r: "w' = w3" "r = (case q3 of Val _ \<Rightarrow> Val ?x | Err e \<Rightarrow> Err (Wrapf ''wallet: save accounts: %w'' [] e) | Panic \<Rightarrow> Panic)"
          using body key accs last \<open>q1 = Val u\<close> Val by (cases q3; simp)+
        have "?done accs salt nonce ct 3 r w'" if "runs (wallet_stmts ?x) (committed w2) (committed w3)"
          using runs_append[OF both that] r three accs by (cases q3) (auto simp: create_outcome_def create_stmts_def)
        moreover have "?done accs salt nonce ct 2 r w'" if "committed w3 = committed w2" "q3 \<noteq> Val ()"
          using both r three that by (cases q3) (auto simp: create_outcome_def create_stmts_def numeral_2_eq_2)
        ultimately show ?thesis using three by blast
      next
        case (Err e)
        then show ?thesis using derive_accounts_no_error by metis
      next
        case Panic
        then have "w' = w2" "r = Panic" using body key \<open>q1 = Val u\<close> Val by simp_all
        then show ?thesis by (intro stopped) (simp_all add: create_outcome_def)
      qed
    next
      case (Err e)
      then have "w' = w2" "r = Err (Wrapf ''wallet: create keys: %w'' [] e)" using body key \<open>q1 = Val u\<close> by simp_all
      then show ?thesis by (intro stopped) (simp_all add: create_outcome_def)
    next
      case Panic
      then have "w' = w2" "r = Panic" using body key \<open>q1 = Val u\<close> by simp_all
      then show ?thesis by (intro stopped) (simp_all add: create_outcome_def)
    qed
  next
    case Panic
    then show ?thesis using one by simp
  qed
qed

lemma create_runs:
  fixes cy :: "('w, 'b, 'g) crypto"
  assumes "crypto_trusted cy committed inv" and "inv w"
    and clock: "\<forall>v. inv v \<longrightarrow> (\<exists>t v'. now v = (Val t, v') \<and> inv v' \<and> committed v' = committed v)"
    and "wallet_create rg (postgres_key_store pool cy lib) (postgres_repo pool) now label p w = (r, w')"
  shows "\<exists>x salt nonce ct n. w_label x = label \<and> (\<exists>t. fst (now w) = Val t \<and> w_id x = ''w'' @ show_int (int64 t)) \<and>
           create_outcome n x r \<and> inv w' \<and>
           (n = 3 \<longrightarrow> (\<exists>seed. derive_accounts rg seed (rg_supported rg) = Val (w_accounts x))) \<and>
           runs (concat (take n (create_stmts x salt nonce ct))) (committed w) (committed w')"
proof -
  from clock assms(2) obtain t1 w1 where t1: "now w = (Val t1, w1)" "inv w1" "committed w1 = committed w" by blast
  from clock t1(2) obtain t2 w2 where t2: "now w1 = (Val t2, w2)" "inv w2" "committed w2 = committed w1" by blast
  let ?x = "\<lparr>w_id = ''w'' @ show_int (int64 t1), w_label = label, w_created = t2, w_accounts = []\<rparr>"
  note body = assms(4)[unfolded wallet_create_def io_bind_def[of now] t1(1) t2(1) prod.case go.case Let_def]
  have "\<exists>accs salt nonce ct n. create_outcome n (?x\<lparr>w_accounts := accs\<rparr>) r \<and> inv w' \<and>
           (n = 3 \<longrightarrow> (\<exists>seed. derive_accounts rg seed (rg_supported rg) = Val accs)) \<and>
           runs (concat (take n (create_stmts (?x\<lparr>w_accounts := accs\<rparr>) salt nonce ct))) (committed w2) (committed w')"
    by (rule create_body[OF assms(1) t2(2), of ?x lib p rg r w']) (use body in simp)
  then obtain accs salt nonce ct n where "create_outcome n (?x\<lparr>w_accounts := accs\<rparr>) r" "inv w'"
    "n = 3 \<longrightarrow> (\<exists>seed. derive_accounts rg seed (rg_supported rg) = Val accs)"
    "runs (concat (take n (create_stmts (?x\<lparr>w_accounts := accs\<rparr>) salt nonce ct))) (committed w) (committed w')"
    unfolding t2(3) t1(3) by blast
  then show ?thesis
    by (intro exI[of _ "?x\<lparr>w_accounts := accs\<rparr>"] exI[of _ salt] exI[of _ nonce] exI[of _ ct] exI[of _ n]) (simp add: t1(1))
qed

text \<open>After the first statement and before the last, \<open>Get\<close> and \<open>List\<close> give the wallet without accounts.\<close>

lemma no_accounts_view:
  assumes "inv w" and "wallet_view (committed w) (w_id x) = None" and "n \<in> {1, 2}"
    and "runs (concat (take n (create_stmts x salt nonce ct))) (committed w) T'"
  shows "\<exists>v. wallet_view T' (w_id x) = Some v \<and> w_label v = w_label x \<and> w_accounts v = []"
proof -
  from assms(3) consider "n = 1" | "n = 2" by auto
  then obtain T where one: "runs (wallet_stmts (x\<lparr>w_accounts := []\<rparr>)) (committed w) T"
    and rest: "wallet_view T' = wallet_view T"
  proof cases
    case 1
    with assms(4) show ?thesis by (intro that) (simp_all add: create_stmts_def)
  next
    case 2
    then have "concat (take n (create_stmts x salt nonce ct)) =
        wallet_stmts (x\<lparr>w_accounts := []\<rparr>) @ [UpsertKeystore (w_id x) salt nonce ct]"
      by (simp add: create_stmts_def numeral_2_eq_2)
    with assms(4) obtain T where T: "runs (wallet_stmts (x\<lparr>w_accounts := []\<rparr>)) (committed w) T"
      "runs [UpsertKeystore (w_id x) salt nonce ct] T T'" by (metis runs_appendD)
    from runs_keystore[OF T(2)] have "tb_wallets T' = tb_wallets T" "tb_accounts T' = tb_accounts T" by blast+
    then have "wallet_view T' = wallet_view T" by (simp add: wallet_view_def fun_eq_iff)
    with T(1) show ?thesis by (rule that)
  qed
  from view_no_accounts[OF schema[OF assms(1)] assms(2) one] rest show ?thesis by simp
qed

lemma same_wallet_no_accounts: "same_wallet v y \<Longrightarrow> w_accounts v = [] \<Longrightarrow> w_accounts y = []"
proof (rule ccontr)
  assume same: "same_wallet v y" "w_accounts v = []" and "w_accounts y \<noteq> []"
  then have "wallet_account y (acc_chain (hd (w_accounts y))) \<noteq> None"
    by (auto simp: wallet_account_def find_account_None)
  with same show False by (simp add: same_wallet_def wallet_account_def)
qed

lemma read_no_accounts:
  assumes "inv v" and "wallet_view (committed v) i = Some z" and "w_accounts z = []"
  shows "pg_get pool i v = (Val y, v') \<Longrightarrow> w_label y = w_label z \<and> w_accounts y = []"
    and "pg_list pool v = (Val ys, v') \<Longrightarrow> \<exists>y \<in> set ys. w_id y = i \<and> w_label y = w_label z \<and> w_accounts y = []"
proof -
  have z: "w_label y = w_label z \<and> w_accounts y = []" if "same_wallet z y" for y
    using that same_wallet_no_accounts[OF that assms(3)] by (simp add: same_wallet_def)
  show "w_label y = w_label z \<and> w_accounts y = []" if "pg_get pool i v = (Val y, v')"
  proof -
    from pg_get_ok[OF assms(1) that] assms(2) have "same_wallet z y" by simp
    then show ?thesis by (rule z)
  qed
  assume "pg_list pool v = (Val ys, v')"
  note l = pg_list_ok[OF assms(1) this]
  have "i \<in> wlr_id ` set (tb_wallets (committed v))"
    using assms(2) by (auto simp: wallet_view_def find_Some_iff)
  also have "\<dots> = w_id ` set ys" using l by (metis list.set_map set_mset_mset)
  finally obtain y where y: "y \<in> set ys" "w_id y = i" by blast
  from l y(1) obtain z' where "wallet_view (committed v) (w_id y) = Some z'" "same_wallet z' y" by blast
  with y(2) assms(2) have "same_wallet z y" by simp
  with z y show "\<exists>y \<in> set ys. w_id y = i \<and> w_label y = w_label z \<and> w_accounts y = []" by blast
qed

end

section \<open>A wallet that could not be created\<close>

text \<open>
  C32. What \<open>Create\<close> leaves in the database is decided by where it fails, and nothing is undone. Its
  error tells the step: at the first \<open>Save\<close>, nothing or the wallet's row; at the keys, the row, with
  the sealed seed or without; at the second \<open>Save\<close>, row and seed, with the accounts or without (an
  error of a commit leaves open whether it took effect); all of it when it succeeds. So
  for an id not in use, a failure at the keys, and one at the second \<open>Save\<close> that stored nothing, leave a
  wallet with the label and no accounts, and in every later state with that database \<open>Get\<close> returns
  it and \<open>List\<close> lists it.
\<close>

theorem failed_create_leaves:
  assumes "postgres pool committed working ok" and "crypto_trusted cy committed ok" and "ok w"
    and "\<forall>v. ok v \<longrightarrow> (\<exists>t v'. now v = (Val t, v') \<and> ok v' \<and> committed v' = committed v)"
    and "wallet_create rg (postgres_key_store pool cy lib) (postgres_repo pool) now label p w = (r, w')"
  shows "ok w' \<and> (\<exists>x salt nonce ct n.
     w_label x = label \<and> (\<exists>t. fst (now w) = Val t \<and> w_id x = ''w'' @ show_int (int64 t)) \<and>
     runs (concat (take n (create_stmts x salt nonce ct))) (committed w) (committed w') \<and>
     (case r of
        Val y \<Rightarrow> n = 3 \<and> y = x
      | Err e \<Rightarrow> (\<exists>q. e = Wrapf ''wallet: save: %w'' [] q \<and> n \<in> {0, 1}) \<or>
          (\<exists>q. e = Wrapf ''wallet: create keys: %w'' [] q \<and> n \<in> {1, 2}) \<or>
          (\<exists>q. e = Wrapf ''wallet: save accounts: %w'' [] q \<and> n \<in> {2, 3})
      | Panic \<Rightarrow> n \<in> {1, 2}) \<and>
     (n \<in> {1, 2} \<and> wallet_view (committed w) (w_id x) = None \<longrightarrow>
        wallet_view (committed w') (w_id x) \<noteq> None \<and>
        (\<forall>v. ok v \<and> committed v = committed w' \<longrightarrow>
          (\<forall>y v'. pg_get pool (w_id x) v = (Val y, v') \<longrightarrow> w_label y = label \<and> w_accounts y = []) \<and>
          (\<forall>ys v'. pg_list pool v = (Val ys, v') \<longrightarrow>
             (\<exists>y \<in> set ys. w_id y = w_id x \<and> w_label y = label \<and> w_accounts y = [])))))"
proof -
  from postgres.create_runs[OF assms] obtain x salt nonce ct n where
    ok: "ok w'" and
    x: "w_label x = label" "\<exists>t. fst (now w) = Val t \<and> w_id x = ''w'' @ show_int (int64 t)" "create_outcome n x r"
    and stmts: "runs (concat (take n (create_stmts x salt nonce ct))) (committed w) (committed w')"
    by blast
  have left: "\<exists>z. wallet_view (committed w') (w_id x) = Some z \<and> w_label z = label \<and> w_accounts z = []"
    if "n \<in> {1, 2}" "wallet_view (committed w) (w_id x) = None"
    using postgres.no_accounts_view[OF assms(1,3) that(2,1) stmts] x(1) by simp
  have read: "(\<forall>y v'. pg_get pool (w_id x) v = (Val y, v') \<longrightarrow> w_label y = label \<and> w_accounts y = []) \<and>
      (\<forall>ys v'. pg_list pool v = (Val ys, v') \<longrightarrow> (\<exists>y \<in> set ys. w_id y = w_id x \<and> w_label y = label \<and> w_accounts y = []))"
    if "n \<in> {1, 2}" "wallet_view (committed w) (w_id x) = None" and v: "ok v" "committed v = committed w'" for v
  proof -
    from left[OF that(1,2)] obtain z where z: "wallet_view (committed v) (w_id x) = Some z" "w_label z = label" "w_accounts z = []"
      using v(2) by auto
    show ?thesis using postgres.read_no_accounts[OF assms(1) v(1) z(1,3)] z(2) by simp
  qed
  show ?thesis
    using x left read stmts unfolding create_outcome_def
    by (intro conjI[OF ok] exI[of _ x] exI[of _ salt] exI[of _ nonce] exI[of _ ct] exI[of _ n]) blast
qed

section \<open>No account on Solana\<close>

text \<open>The statements of \<open>Create\<close> bring in no chain but those of the accounts derived.\<close>

definition without_chain :: "chain_id \<Rightarrow> tables \<Rightarrow> bool" where
  "without_chain c T \<longleftrightarrow> (\<forall>a \<in> set (tb_accounts T). acr_chain a \<noteq> c)"

lemma wallet_stmt_without:
  assumes "run_stmt env s T = Some (T', k)" and "without_chain c T"
    and "(\<exists>i l t. s = UpsertWallet i l t) \<or> (\<exists>i salt nonce ct. s = UpsertKeystore i salt nonce ct) \<or>
         (\<exists>i a. s = account_stmt i a \<and> acc_chain a \<noteq> c)"
  shows "without_chain c T'"
proof -
  from assms(1,3) consider "tb_accounts T' = tb_accounts T"
    | i ch addr path where "T' = upsert_account i ch addr path T" "ch \<noteq> c"
    by (auto simp: run_stmt_Some upsert_wallet_def upsert_keystore_def account_stmt_def)
  then show ?thesis using assms(2) unfolding without_chain_def
    by cases (auto simp: upsert_account_def dest!: subsetD[OF set_upsert_subset])
qed

lemma stmts_without:
  assumes "runs ss T T'" and "without_chain c T"
    and "\<forall>s \<in> set ss. (\<exists>i l t. s = UpsertWallet i l t) \<or> (\<exists>i salt nonce ct. s = UpsertKeystore i salt nonce ct) \<or>
         (\<exists>i a. s = account_stmt i a \<and> acc_chain a \<noteq> c)"
  shows "without_chain c T'"
  using assms
proof (induction rule: runs.induct)
  case (runs_cons env s T T1 i ss T2)
  have "without_chain c T1" by (rule wallet_stmt_without[OF runs_cons.hyps(1) runs_cons.prems(1)]) (use runs_cons.prems(2) in simp)
  with runs_cons show ?case by simp
qed simp

lemma create_stmts_without:
  assumes "runs (concat (take n (create_stmts x salt nonce ct))) T T'" and "without_chain c T" and "n \<le> 3"
    and "n = 3 \<longrightarrow> (\<forall>a \<in> set (w_accounts x). acc_chain a \<noteq> c)"
  shows "without_chain c T'"
proof (rule stmts_without[OF assms(1,2)])
  have "n = 0 \<or> n = 1 \<or> n = 2 \<or> n = 3" using assms(3) by linarith
  then show "\<forall>s \<in> set (concat (take n (create_stmts x salt nonce ct))). (\<exists>i l t. s = UpsertWallet i l t) \<or>
      (\<exists>i salt nonce ct. s = UpsertKeystore i salt nonce ct) \<or> (\<exists>i a. s = account_stmt i a \<and> acc_chain a \<noteq> c)"
    using assms(4) by (elim disjE) (auto simp: create_stmts_def wallet_stmts_def numeral_2_eq_2)
qed

context postgres
begin

lemma get_without:
  assumes "inv v" and "without_chain c (committed v)" and "pg_get pool i v = (r, v')"
  shows "inv v' \<and> committed v' = committed v \<and> r \<noteq> Panic \<and> (\<forall>y. r = Val y \<longrightarrow> wallet_account y c = None)"
proof -
  have "account_at (committed v) i c = None"
    using assms(2) by (auto simp: account_at_def without_chain_def find_None_iff)
  with pg_get_ok[OF assms(1,3)] show ?thesis
    using wallet_view_account[of "committed v" i _ c] by (auto simp: same_wallet_def)
qed

end

text \<open>
  C31. No account on Solana ever gets into the database, although the Solana adapter is registered and
  supported: the path \<open>bip44Path\<close> writes has unhardened components, the ed25519 derivation accepts
  hardened ones only, and \<open>Create\<close> leaves out a chain whose derivation fails. Being without one is kept
  by every \<open>Create\<close>, whatever its result; and in a database without one the balance of any wallet
  on Solana and any transfer from it fail: with the error of \<open>Get\<close>, and when that
  succeeds, as there is no account for the chain.
\<close>

theorem no_solana_account:
  assumes "postgres pool committed working ok" and "crypto_trusted cy committed ok" and "ok w"
    and "\<forall>v. ok v \<longrightarrow> (\<exists>t v'. now v = (Val t, v') \<and> ok v' \<and> committed v' = committed v)"
    and "rg = (program_registry ord (all_adapters elib conf hk eth base blib srt btc slib sol tlib http) :: ('w, 'c) registry_port)"
    and "\<forall>a \<in> set (tb_accounts (committed w)). acr_chain a \<noteq> ChainSolana"
    and "wallet_create rg (postgres_key_store pool cy lib) (postgres_repo pool) now label p w = (r, w')"
    and "net_chain (req_network req) = ChainSolana"
  shows "ChainSolana \<in> set (rg_supported rg) \<and> ok w' \<and>
     (\<forall>x. r = Val x \<longrightarrow> wallet_account x ChainSolana = None) \<and>
     (\<forall>a \<in> set (tb_accounts (committed w')). acr_chain a \<noteq> ChainSolana) \<and>
     (\<forall>v i q. ok v \<and> committed v = committed w' \<longrightarrow>
        (\<exists>e e' v'. committed v' = committed v \<and>
           wallet_balance rg (postgres_repo pool) i ChainSolana v = (Err e, v') \<and>
           tx_transfer rg keys (postgres_repo pool) i q req v = (Err e', v') \<and>
           (pg_get pool i v = (Err e, v') \<and> e' = e \<or>
            (\<exists>y. pg_get pool i v = (Val y, v')) \<and>
              e = Errorf ''wallet: no account for chain %s'' [AStr ChainSolana] \<and>
              e' = Errorf ''transaction: no account for chain %s'' [AStr ChainSolana])))"
proof -
  have sol: "rg_adapter rg ChainSolana = Val (solana_adapter slib sol)"
    unfolding assms(5) by (rule program_solana)
  have supported: "ChainSolana \<in> set (rg_supported rg)"
    using registry_laws.supported_iff[OF program.registry_laws_axioms] sol unfolding assms(5) by blast
  have derived: "\<forall>a \<in> set accs. acc_chain a \<noteq> ChainSolana" if "derive_accounts rg seed (rg_supported rg) = Val accs" for seed accs
    using derives_no_solana[OF assms(5)] that by blast
  from postgres.create_runs[OF assms(1-4,7)] obtain x salt nonce ct n where
    ok: "ok w'" and
    x: "create_outcome n x r" "n = 3 \<longrightarrow> (\<exists>seed. derive_accounts rg seed (rg_supported rg) = Val (w_accounts x))"
    and stmts: "runs (concat (take n (create_stmts x salt nonce ct))) (committed w) (committed w')"
    by blast
  have "n \<le> 3" using x(1) by (auto simp: create_outcome_def split: go.splits)
  from create_stmts_without[OF stmts _ this, of ChainSolana] assms(6) x(2) derived
  have without: "without_chain ChainSolana (committed w')" by (auto simp: without_chain_def)
  have "wallet_account y ChainSolana = None" if "r = Val y" for y
  proof -
    have "\<forall>a \<in> set (w_accounts y). acc_chain a \<noteq> ChainSolana"
      using that x derived by (auto simp: create_outcome_def)
    then show ?thesis unfolding wallet_account_def find_account_None by (metis image_iff)
  qed
  moreover have "\<exists>e e' v'. committed v' = committed v \<and>
      wallet_balance rg (postgres_repo pool) i ChainSolana v = (Err e, v') \<and>
      tx_transfer rg keys (postgres_repo pool) i q req v = (Err e', v') \<and>
      (pg_get pool i v = (Err e, v') \<and> e' = e \<or>
       (\<exists>y. pg_get pool i v = (Val y, v')) \<and>
         e = Errorf ''wallet: no account for chain %s'' [AStr ChainSolana] \<and>
         e' = Errorf ''transaction: no account for chain %s'' [AStr ChainSolana])"
    if v: "ok v" "committed v = committed w'" for v i q
  proof -
    obtain g v' where get: "pg_get pool i v = (g, v')" by fastforce
    from postgres.get_without[OF assms(1) v(1) without[folded v(2)] get]
    show ?thesis
      by (cases g) (auto simp: wallet_balance_def tx_transfer_def io_bind_def postgres_repo_def get sol assms(8))
  qed
  ultimately show ?thesis using supported ok without unfolding without_chain_def by blast
qed

section \<open>Concrete instances\<close>

definition faulty_engine :: engine where
  "faulty_engine = sample_engine\<lparr>en_faults := (\<lambda>n. if n = 9 then Some (Foreign ''reset'', False) else None)\<rparr>"

lemma en_clock_keeps:
  "\<forall>v. engine_ok v \<longrightarrow> (\<exists>t v'. en_clock v = (Val t, v') \<and> engine_ok v' \<and> en_tables v' = en_tables v)"
  by (simp add: en_clock_def)

theorem failed_create_leaves_witness:
  "\<exists>e w' y v'. wallet_create sample_registry (postgres_key_store sample_pool sample_crypto sample_sign_lib)
       (postgres_repo sample_pool) en_clock ''main'' [5] faulty_engine = (Err (Wrapf ''wallet: create keys: %w'' [] e), w') \<and>
     pg_get sample_pool ''w3'' w' = (Val y, v') \<and> w_label y = ''main'' \<and> w_accounts y = []"
proof -
  let ?c = "wallet_create sample_registry (postgres_key_store sample_pool sample_crypto sample_sign_lib)
       (postgres_repo sample_pool) en_clock ''main'' [5]"
  let ?w0 = "en_step (en_step faulty_engine)"
  define w1 where "w1 = snd (pg_save sample_pool sample_empty_wallet ?w0)"
  define w2 where "w2 = snd (pk_create sample_pool sample_crypto ''w3'' [5] w1)"
  have clock: "en_clock faulty_engine = (Val 3, en_step faulty_engine)"
    "en_clock (en_step faulty_engine) = (Val 4, ?w0)"
    by (simp_all add: en_clock_def faulty_engine_def sample_engine_def en_step_def)
  have i: "''w'' @ show_int (int64 3) = ''w3''" by code_simp
  have "fst (pg_save sample_pool sample_empty_wallet ?w0) = Val ()" by code_simp
  then have save: "pg_save sample_pool sample_empty_wallet ?w0 = (Val (), w1)" by (simp add: w1_def prod_eq_iff)
  let ?e = "Wrapf ''keystore: save %s: %w'' [AStr ''w3''] (Foreign ''reset'')"
  have "fst (pk_create sample_pool sample_crypto ''w3'' [5] w1) = Err ?e" unfolding w1_def by code_simp
  then have "pk_create sample_pool sample_crypto ''w3'' [5] w1 = (Err ?e, w2)" by (simp add: w2_def prod_eq_iff)
  then have run: "?c faulty_engine = (Err (Wrapf ''wallet: create keys: %w'' [] ?e), w2)"
    unfolding wallet_create_def io_bind_def clock prod.case go.case i Let_def io_wrap_def
    using save by (simp add: sample_empty_wallet_def postgres_repo_def postgres_key_store_def)
  have "case fst (pg_get sample_pool ''w3'' w2) of Val _ \<Rightarrow> True | _ \<Rightarrow> False" unfolding w2_def w1_def by code_simp
  then obtain y v' where get: "pg_get sample_pool ''w3'' w2 = (Val y, v')"
    by (cases "pg_get sample_pool ''w3'' w2") (auto split: go.splits)
  have ok: "engine_ok faulty_engine" using sample_engine_ok by (simp add: faulty_engine_def engine_ok_def)
  have unused: "wallet_view (en_tables faulty_engine) ''w3'' = None" by code_simp
  note leaves = failed_create_leaves[OF sample_postgres sample_crypto_trusted ok en_clock_keeps run]
  from conjunct2[OF leaves] have "w_label y = ''main'' \<and> w_accounts y = []"
  proof (elim exE conjE)
    fix x salt nonce ct t and n :: nat
    assume id: "fst (en_clock faulty_engine) = Val t" "w_id x = ''w'' @ show_int (int64 t)"
      and step: "case Err (Wrapf ''wallet: create keys: %w'' [] ?e) of
          Val y \<Rightarrow> n = 3 \<and> y = x
        | Err e \<Rightarrow> (\<exists>q. e = Wrapf ''wallet: save: %w'' [] q \<and> n \<in> {0, 1}) \<or>
            (\<exists>q. e = Wrapf ''wallet: create keys: %w'' [] q \<and> n \<in> {1, 2}) \<or>
            (\<exists>q. e = Wrapf ''wallet: save accounts: %w'' [] q \<and> n \<in> {2, 3})
        | Panic \<Rightarrow> n \<in> {1, 2}"
      and left: "n \<in> {1, 2} \<and> wallet_view (en_tables faulty_engine) (w_id x) = None \<longrightarrow>
        wallet_view (en_tables w2) (w_id x) \<noteq> None \<and>
        (\<forall>v. engine_ok v \<and> en_tables v = en_tables w2 \<longrightarrow>
          (\<forall>y v'. pg_get sample_pool (w_id x) v = (Val y, v') \<longrightarrow> w_label y = ''main'' \<and> w_accounts y = []) \<and>
          (\<forall>ys v'. pg_list sample_pool v = (Val ys, v') \<longrightarrow>
             (\<exists>y \<in> set ys. w_id y = w_id x \<and> w_label y = ''main'' \<and> w_accounts y = [])))"
    have "n \<in> {1, 2}" using step by simp
    moreover have "w_id x = ''w3''" using id clock(1) i by simp
    ultimately show ?thesis using left unused conjunct1[OF leaves] get by auto
  qed
  with run get show ?thesis by blast
qed

theorem no_solana_account_witness:
  "\<exists>v' v''. wallet_balance sample_registry (postgres_repo sample_pool) ''w3'' ChainSolana sample_world3 =
       (Err (Errorf ''wallet: no account for chain %s'' [AStr ChainSolana]), v') \<and>
     tx_transfer sample_registry (postgres_key_store sample_pool sample_crypto sample_sign_lib) (postgres_repo sample_pool)
       ''w3'' [5] (sample_evm_request\<lparr>req_network := \<lparr>net_chain = ChainSolana, net_env = EnvLocal\<rparr>\<rparr>) sample_world3 =
       (Err (Errorf ''transaction: no account for chain %s'' [AStr ChainSolana]), v'')"
proof -
  let ?req = "sample_evm_request\<lparr>req_network := \<lparr>net_chain = ChainSolana, net_env = EnvLocal\<rparr>\<rparr>"
  have none: "\<forall>a \<in> set (tb_accounts (en_tables sample_engine)). acr_chain a \<noteq> ChainSolana" by code_simp
  have chain: "net_chain (req_network ?req) = ChainSolana" by simp
  obtain y v where get: "pg_get sample_pool ''w3'' sample_world3 = (Val y, v)" by (rule sample_get)
  note all = no_solana_account[OF sample_postgres sample_crypto_trusted sample_engine_ok en_clock_keeps
      sample_registry_def[unfolded sample_adapters_def] none sample_create chain,
      where keys = "postgres_key_store sample_pool sample_crypto sample_sign_lib"]
  have ok: "engine_ok sample_world3" by (rule conjunct1[OF conjunct2[OF all]])
  from conjunct2[OF conjunct2[OF conjunct2[OF conjunct2[OF all]]], rule_format, of sample_world3 "''w3''" "[5]",
      OF conjI[OF ok refl]] get
  show ?thesis by auto
qed

end
