(* ===== verification/Balances.thy ===== *)
theory Balances
  imports Program
begin

text \<open>
  A balance on its way from the node of a chain, through the adapter, the wallet service and the
  HTTP handler, to the JSON text a user reads (\<open>balance_end_to_end\<close>).
\<close>

section \<open>What the adapters make of the nodes' answers\<close>

lemma int64_sum: "int64 (int64 a + b) = int64 (a + b)"
proof -
  have "int64 a + b + 2 ^ 63 = (a + 2 ^ 63) mod 2 ^ 64 + b" by (simp add: int64_def)
  then have "int64 (int64 a + b) = (a + 2 ^ 63 + b) mod 2 ^ 64 - 2 ^ 63"
    unfolding int64_def[of "int64 a + b"] by (simp only: mod_add_left_eq)
  then show ?thesis by (simp add: int64_def[of "a + b"] ac_simps)
qed

lemma sum_satoshis_eq: "sum_satoshis (int64 n) us = int64 (n + (\<Sum>u \<leftarrow> us. u_satoshis u))"
  by (induction us arbitrary: n) (simp_all add: int64_sum add.assoc)

lemma evm_balance_says: "evm_balance lib cl addr as u = (Val amt, w') \<Longrightarrow>
    \<exists>n. ec_balance_at cl (el_hex_to_address lib addr) u = (Val n, w') \<and>
      amt = \<lparr>amt_asset = native_eth, amt_base = Some n\<rparr>"
  by (auto simp: evm_balance_def io_bind_eq_Val_iff io_simps)

lemma sol_balance_says: "sol_balance lib cl addr as u = (Val amt, w') \<Longrightarrow>
    \<exists>pk b. so_key_of_base58 lib addr = Val pk \<and> sc_balance cl pk u = (Val b, w') \<and>
      amt = \<lparr>amt_asset = native_sol, amt_base = Some (uint b)\<rparr>"
  by (auto simp: sol_balance_def io_bind_eq_Val_iff io_simps)

lemma btc_balance_says: "btc_balance lib cl addr as u = (Val amt, w') \<Longrightarrow>
    \<exists>us. fetch_utxos lib cl addr u = (Val us, w') \<and>
      amt = \<lparr>amt_asset = native_btc, amt_base = Some (int64 (\<Sum>x \<leftarrow> us. u_satoshis x))\<rparr>"
  using sum_satoshis_eq[of 0] by (auto simp: btc_balance_def io_bind_eq_Val_iff io_simps int64_id)

lemma tron_balance_says: "tron_balance lib cfg hc addr as u = (Val amt, w') \<Longrightarrow>
    \<exists>hexA resp. to_hex_addr lib addr = Val hexA \<and>
      post cfg hc ''/wallet/getaccount'' [(''address'', JText hexA), (''visible'', JBoolean False)]
        (decode_stream balance_type) u = (Val resp, w') \<and>
      amt = \<lparr>amt_asset = native_trx, amt_base = Some (the_int (field_value resp ''balance''))\<rparr>"
  by (auto simp: tron_balance_def io_bind_eq_Val_iff io_simps)

section \<open>From the node to the user\<close>

text \<open>
  What the node of a chain reports for an address: how many units of what. The wallet's coins on
  Bitcoin are the unspent outputs the node finds, those that cannot be spent yet included.
\<close>

definition node_reports ::
  "'tx evm_lib \<Rightarrow> ('w, 'tx) evm_client \<Rightarrow> ('w, 'tx) evm_client \<Rightarrow> btc_lib \<Rightarrow> 'w btc_node \<Rightarrow> 's sol_lib \<Rightarrow>
   ('w, 's) sol_client \<Rightarrow> tron_lib \<Rightarrow> config \<Rightarrow> 'w http_client \<Rightarrow>
   chain_id \<Rightarrow> address \<Rightarrow> 'w \<Rightarrow> string \<Rightarrow> int \<Rightarrow> 'w \<Rightarrow> bool" where
  "node_reports elib eth base blib btc slib sol tlib conf hc chain addr u units n u' \<longleftrightarrow>
      (chain, units) = (ChainEthereum, ''ETH'') \<and>
       ec_balance_at eth (el_hex_to_address elib addr) u = (Val n, u') \<or>
     (chain, units) = (ChainBase, ''ETH'') \<and>
       ec_balance_at base (el_hex_to_address elib addr) u = (Val n, u') \<or>
     (chain, units) = (ChainBitcoin, ''BTC'') \<and>
       (\<exists>us. fetch_utxos blib btc addr u = (Val us, u') \<and> n = int64 (\<Sum>x \<leftarrow> us. u_satoshis x)) \<or>
     (chain, units) = (ChainSolana, ''SOL'') \<and>
       (\<exists>pk b. so_key_of_base58 slib addr = Val pk \<and> sc_balance sol pk u = (Val b, u') \<and> n = uint b) \<or>
     (chain, units) = (ChainTron, ''TRX'') \<and>
       (\<exists>hexA reply. to_hex_addr tlib addr = Val hexA \<and>
          post \<lparr>tron_rpc_url = conf_tron_url conf\<rparr> hc ''/wallet/getaccount''
            [(''address'', JText hexA), (''visible'', JBoolean False)] (decode_stream balance_type) u =
            (Val reply, u') \<and> n = the_int (field_value reply ''balance''))"

lemma native_symbols:
  "asset_symbol native_eth = ''ETH''" "asset_symbol native_btc = ''BTC''"
  "asset_symbol native_sol = ''SOL''" "asset_symbol native_trx = ''TRX''"
  by (simp_all add: native_eth_def native_btc_def native_sol_def native_trx_def native_asset_def)

lemma adapter_balance:
  assumes "ad \<in> set (all_adapters elib conf hk eth base blib srt btc slib sol tlib hc)"
    and "ca_balance ad addr as u = (Val amt, u')"
  shows "\<exists>units n. node_reports elib eth base blib btc slib sol tlib conf hc (ca_chain ad) addr u units n u' \<and>
           amt_base amt = Some n \<and> asset_symbol (amt_asset amt) = units"
proof -
  from assms(1) consider
      cfg cl where "ad = evm_adapter elib cfg hk cl" "(cfg_chain cfg, cl) \<in> {(ChainEthereum, eth), (ChainBase, base)}"
    | "ad = bitcoin_adapter blib srt hk btc" | "ad = solana_adapter slib sol"
    | "ad = tron_adapter tlib \<lparr>tron_rpc_url = conf_tron_url conf\<rparr> hk hc"
    by (auto simp: all_adapters_def)
  then show ?thesis
  proof cases
    case (1 cfg cl)
    then show ?thesis using assms(2) evm_balance_says[of elib cl addr as u amt u']
      by (auto simp: evm_adapter_def node_reports_def native_symbols)
  next
    case 2
    then show ?thesis using assms(2) btc_balance_says[of blib btc addr as u amt u']
      by (auto simp: bitcoin_adapter_def node_reports_def native_symbols)
  next
    case 3
    then show ?thesis using assms(2) sol_balance_says[of slib sol addr as u amt u']
      by (auto simp: solana_adapter_def node_reports_def native_symbols)
  next
    case 4
    then show ?thesis using assms(2) tron_balance_says[of tlib _ hc addr as u amt u']
      by (fastforce simp: tron_adapter_def node_reports_def native_symbols)
  qed
qed

lemma chain_names_valid:
  "\<forall>c \<in> set [ChainBitcoin, ChainEthereum, ChainBase, ChainSolana, ChainTron, ''ETH'', ''BTC'', ''SOL'', ''TRX'']. to_valid c = c"
  by code_simp

lemma show_int_valid: "to_valid (show_int n) = show_int n"
proof -
  have nat: "\<forall>c \<in> set (show_nat k). code c < 0x80" for k
    using show_nat_chars[of _ k] by (fastforce simp: code_def of_char_digit_char)
  have "code CHR ''-'' < 0x80" by code_simp
  with nat have "\<forall>c \<in> set (show_int n). code c < 0x80" by (simp add: show_int_def)
  from ascii_valid[OF this] show ?thesis by (simp add: valid_utf8_def)
qed

lemma balance_body:
  assumes "amt_base amt = Some n"
  shows "first_value (rs_body (write_json tx st (PFields (balance_fields chain amt)))) =
    Some (JObject [(''amount'', JText (show_int n)), (''asset'', JText (to_valid (asset_symbol (amt_asset amt)))),
      (''chain'', JText (to_valid chain))], newline)"
proof -
  let ?v = "JObject [(''amount'', JText (show_int n)), (''asset'', JText (asset_symbol (amt_asset amt))), (''chain'', JText chain)]"
  have le: "text_le ''chain'' ''amount'' = False" "text_le ''chain'' ''asset'' = False"
    "text_le ''amount'' ''asset'' = True" by code_simp+
  have fields: "payload_json tx (PFields (balance_fields chain amt)) = Val ?v"
    using assms le by (simp add: balance_fields_def base_string_def map_json_def sort_keys_def)
  have keys: "to_valid ''amount'' = ''amount''" "to_valid ''asset'' = ''asset''" "to_valid ''chain'' = ''chain''"
    by code_simp+
  have enc: "encode_compact tx (PFields (balance_fields chain amt)) = Val (json_print ?v @ newline)"
    unfolding encode_compact_def fields by simp
  from compact_text_parses[OF enc] show ?thesis
    unfolding fields by (simp add: write_json_def enc keys show_int_valid)
qed

text \<open>
  C5. A balance answered with status 200 is the one the chain's node reported for the wallet's own
  address on that chain: on Ethereum and Base the number the node gave, on Solana the 64-bit
  number of lamports, on TRON the number in the reply, on Bitcoin the sum of the unspent outputs in
  64 bits, coins that cannot be spent yet included. The body is the JSON object with the chain,
  the native asset's symbol and the number in decimal, which reads back as the same number, and
  asking has changed nothing in the database up to the call of the node.
\<close>

theorem balance_end_to_end:
  assumes "postgres pool committed working ok" and "ok w"
    and "a = (api_app ord (new_registry (all_adapters elib conf hk eth base blib srt btc slib sol tlib hc)) keys pool now tx
           :: ('w, 'c) app)"
    and "http_wallet_balance a i chain w = (Val resp, w')" and "rs_status resp = 200"
  shows "\<exists>v acc n units u. wallet_view (committed w) i = Some v \<and> wallet_account v chain = Some acc \<and>
      committed u = committed w \<and>
      node_reports elib eth base blib btc slib sol tlib conf hc chain (acc_address acc) u units n w' \<and>
      first_value (rs_body resp) =
        Some (JObject [(''amount'', JText (show_int n)), (''asset'', JText units), (''chain'', JText chain)], newline) \<and>
      set_string10 (show_int n) = Some n"
proof -
  let ?adapters = "all_adapters elib conf hk eth base blib srt btc slib sol tlib hc"
  let ?rg = "program_registry ord ?adapters :: ('w, 'c) registry_port"
  from assms(3-5) obtain amt where call: "wallet_balance ?rg (postgres_repo pool) i chain w = (Val amt, w')"
    and resp: "resp = write_json tx 200 (PFields (balance_fields chain amt))"
    by (auto simp: http_wallet_balance_def answer_eval api_app_def program_registry_def
        split: prod.splits go.splits)
  from call obtain y u acc ad where y: "pg_get pool i w = (Val y, u)" "wallet_account y chain = Some acc"
    and ad: "rg_adapter ?rg chain = Val ad" "ca_balance ad (acc_address acc) (zero_asset\<lparr>asset_native := True\<rparr>) u = (Val amt, w')"
    by (auto simp: wallet_balance_def io_bind_eq_Val_iff io_simps postgres_repo_def io_fail_def io_lift_def
        split: option.splits)
  from postgres.pg_get_ok[OF assms(1,2) y(1)] obtain v where v: "committed u = committed w"
    "wallet_view (committed w) i = Some v" "wallet_account v chain = Some acc"
    using y(2) by (auto simp: same_wallet_def)
  from program_adapter[OF ad(1)] have reg: "ad \<in> set ?adapters" "ca_chain ad = chain" by simp_all
  from adapter_balance[OF reg(1) ad(2)] obtain n where
    n: "node_reports elib eth base blib btc slib sol tlib conf hc chain (acc_address acc) u (asset_symbol (amt_asset amt)) n w'"
      "amt_base amt = Some n"
    unfolding reg(2) by blast
  then have "to_valid chain = chain" "to_valid (asset_symbol (amt_asset amt)) = asset_symbol (amt_asset amt)"
    using chain_names_valid by (auto simp: node_reports_def)
  then show ?thesis
    using v n balance_body[OF n(2), of tx 200 chain] unfolding resp by fastforce
qed

section \<open>A concrete balance\<close>

theorem balance_end_to_end_witness:
  "\<exists>resp w'. http_wallet_balance
       (api_app (\<lambda>xs. xs) (new_registry sample_adapters) (postgres_key_store sample_pool sample_crypto sample_sign_lib)
          sample_pool en_clock sample_texts :: (engine, unit) app) ''w1'' ChainBase sample_boot = (Val resp, w') \<and>
     first_value (rs_body resp) =
       Some (JObject [(''amount'', JText ''9''), (''asset'', JText ''ETH''), (''chain'', JText ChainBase)], newline)"
proof -
  let ?a = "api_app (\<lambda>xs. xs) (new_registry sample_adapters) (postgres_key_store sample_pool sample_crypto sample_sign_lib)
    sample_pool en_clock sample_texts :: (engine, unit) app"
  let ?ad = "evm_adapter sample_evm_lib sample_evm_config sample_hd sample_evm_client"
  have "case fst (pg_get sample_pool ''w1'' sample_boot) of
      Val y \<Rightarrow> wallet_account y ChainBase = Some \<lparr>acc_chain = ChainBase, acc_address = ''b'', acc_path = ''m/0''\<rparr>
    | _ \<Rightarrow> False" by code_simp
  then obtain y u acc where get: "pg_get sample_pool ''w1'' sample_boot = (Val y, u)" "wallet_account y ChainBase = Some acc"
    by (cases "pg_get sample_pool ''w1'' sample_boot") (auto split: go.splits)
  have "?ad \<in> set sample_adapters" "ca_chain ?ad = ChainBase"
    using sample_base_config by (simp_all add: sample_adapters_def all_adapters_def base_config_def evm_adapter_def sample_evm_config_def)
  then have ad: "rg_adapter (program_registry (\<lambda>xs. xs) sample_adapters :: (engine, unit) registry_port) ChainBase = Val ?ad"
    using program_registered unfolding sample_adapters_def by metis
  have node: "ec_balance_at sample_evm_client x v = (Val 9, v)" for x and v :: engine
    by (simp add: sample_evm_client_def)
  have "\<exists>resp w'. http_wallet_balance ?a ''w1'' ChainBase sample_boot = (Val resp, w') \<and> rs_status resp = 200"
    using ad get node
    by (simp add: http_wallet_balance_def answer_eval wallet_balance_def api_app_def postgres_repo_def
        io_bind_def io_wrap_def program_registry_def evm_adapter_def evm_balance_def)
  then obtain resp w' where run: "http_wallet_balance ?a ''w1'' ChainBase sample_boot = (Val resp, w')" "rs_status resp = 200"
    by blast
  have names: "ChainBase \<notin> {ChainEthereum, ChainBitcoin, ChainSolana, ChainTron}" by (simp add: chain_defs)
  have nine: "show_int 9 = ''9''" by code_simp
  have "n = 9 \<and> units = ''ETH''"
    if "node_reports elib eth sample_evm_client blib btc slib sol tlib conf hc ChainBase addr (u :: engine) units n w'"
    for elib eth blib btc slib sol tlib conf hc addr u units n w'
    using that names node by (auto simp: node_reports_def)
  with balance_end_to_end[OF sample_postgres sample_boot_ok refl run[unfolded sample_adapters_def]] run(1) nine
  show ?thesis by metis
qed

end
