(* ===== verification/Spec2Isabelle.thy ===== *)
theory Spec2Isabelle
  imports Prelude GoText Domain Ports Sha512 HdWallet Float64 GoTime JsonText JsonSyntax JsonCodec JsonRaw GoFormat Events Answers Bitcoin BitcoinFacts Evm EvmWatcher
    Registry Monitor Database Repositories Keystore Tron Solana Services Http Cli Program Restarts Boot Isolation Creation Balances
begin

text \<open>
  \<^bold>\<open>Omnicatena in Isabelle/HOL.\<close> The program keeps wallets for five chains: it creates
  wallets, derives their accounts from one sealed seed, reports balances, builds, signs and
  broadcasts transfers, and watches the EVM chains for transactions of its accounts. It is laid
  out as ports and adapters: \<^verbatim>\<open>internal/app\<close> is written over the interfaces of
  \<^verbatim>\<open>internal/port\<close>, the adapters below \<^verbatim>\<open>internal/adapter\<close> implement them, and
  \<^verbatim>\<open>cmd/api\<close> and \<^verbatim>\<open>cmd/cli\<close> put them together behind an HTTP server and a command line.
  The development follows that layout: one theory per component, Go interfaces as records of
  methods, and the contract of a port as a locale that the adapters are shown to satisfy.

  \<^bold>\<open>How the parts interact.\<close> A transport decodes a request and calls a service. The wallet service
  saves a wallet, has the key store create and seal a seed, asks the adapter of every supported
  chain for an account and saves the wallet again. The transaction service reads the wallet, asks
  the chain's adapter for an unsigned transaction, has the key store unlock a signer, and gives the
  signed transaction back to the adapter to broadcast. Beside them, one goroutine per watched
  chain polls the node for blocks, matches their transactions against the watched addresses and
  hands events over an unbuffered channel to the monitor service, which saves and publishes them;
  the watcher's progress is a cursor in the database.
\<close>

section \<open>Conventions\<close>

text \<open>
  \<^item> A Go function returning \<open>(T, error)\<close> has type \<open>'a go\<close>: a value, an error or a run-time panic
    (\<^verbatim>\<open>Prelude\<close>). A panic passes every \<open>if err != nil\<close>, so that it does not happen is a
    statement that can be proved. An error keeps its format string, its arguments and its wrapped
    cause, so \<open>errors.Is\<close> is a function on it.
  \<^item> A call with an effect takes the world \<open>'w\<close> and returns it changed (\<open>('w, 'a) io\<close>). The world
    is a type variable of the whole development; what an operation may change is what its port
    promises. A failed call may have changed the world.
  \<^item> \<open>uint32\<close>, \<open>uint64\<close> are words; \<open>int64\<close> is an integer that every arithmetic operation
    wraps by \<open>int64\<close>; \<open>big.Int\<close> is an integer; a Go string is its list of bytes; a Go map is an
    association list, and where the code ranges over one, the unspecified order is a parameter.
    \<open>float64\<close> is the rational it denotes, rounded to 53 bits by every operation (\<^verbatim>\<open>Float64\<close>).
  \<^item> Code outside the repository is a parameter: btcd, go-ethereum, solana-go, the nodes, BIP-39,
    Argon2id, AES-GCM, the signature schemes, the HTTP client, chi's matching, cobra's parsing,
    the terminal, Kafka's writer, and the Postgres server. What is relied on is a
    named hypothesis (\<open>aead_ok\<close>, \<open>random_keeps\<close>, the laws of the locale \<open>postgres\<close>), and each has
    a concrete instance: \<open>serial_pool\<close> is a database engine in which every single call can fail,
    before or after its effect, and that satisfies the laws; the sample libraries are functions
    that compute. What Go's standard library does is defined: \<open>strconv\<close>, \<open>strings\<close>, \<open>hex\<close>,
    base64, SHA-512, HMAC, RFC 3339 times in a time zone, the verbs of \<open>fmt\<close> the errors use, and
    \<open>encoding/json\<close>: scanner and parser, printer with and without indentation,
    what a value decodes to by the type it is decoded into, and raw objects. Of what users are shown,
    the zone's offset, the text of an error a library made and Unicode's table of printable
    characters are parameters (\<open>texts\<close>).
  \<^item> No operation needs fuel. The recursions that are not structural have a measure: the decimal
    printer, the binary logarithm, the folding of field names, the scanner of JSON text and what
    reads UTF-8 and raw objects (the text left), the broker's retry loop (five attempts). The goroutines, which are meant to run forever, are inductive step
    relations, with one rule per interaction; that the inner loop of the watcher comes back to its
    ticker is \<open>scan_terminates\<close>.
\<close>

section \<open>Which theory models what\<close>

text \<open>
  \<^item> \<^verbatim>\<open>Prelude\<close>, \<^verbatim>\<open>GoText\<close>: results, effects, \<open>int64\<close>, maps; text and hexadecimal. The
    collections \<open>go_defs\<close> and \<open>io_simps\<close> evaluate the combinators.
  \<^item> \<^verbatim>\<open>Domain\<close>: \<^verbatim>\<open>internal/domain\<close>, structs as records, string enums as strings.
  \<^item> \<^verbatim>\<open>Ports\<close>: \<^verbatim>\<open>internal/port\<close>. The contracts are the locales \<open>registry_laws\<close>, \<open>wallet_store\<close>
    (what was saved is what is read and listed), \<open>sealed_keys\<close> (a passphrase opens the seed created
    under it, and creating one leaves the others) and \<open>cursor_laws\<close>.
  \<^item> \<^verbatim>\<open>Sha512\<close>, \<^verbatim>\<open>HdWallet\<close>: \<^verbatim>\<open>internal/hdwallet/hdwallet.go\<close>. Paths are parsed as they are
    written, hardened indices wrap at 32 bits, ed25519 derivation accepts hardened paths only.
  \<^item> \<^verbatim>\<open>JsonText\<close>, \<^verbatim>\<open>JsonSyntax\<close>, \<^verbatim>\<open>JsonCodec\<close>, \<^verbatim>\<open>JsonRaw\<close>, \<^verbatim>\<open>GoTime\<close>: \<open>encoding/json\<close> and the
    formatting of times as the program uses them. Text printed in either layout parses back, what is marshalled
    decodes to the same value, and a decoded value has the type it was decoded into.
  \<^item> \<^verbatim>\<open>GoFormat\<close>: what of \<open>fmt\<close>, \<open>strconv\<close> and \<open>time\<close> the users' texts go through.
    \<^verbatim>\<open>Answers\<close>: the JSON of wallets, transactions, fields and errors as both transports write it.
  \<^item> \<^verbatim>\<open>Bitcoin\<close>, \<^verbatim>\<open>BitcoinFacts\<close>: \<^verbatim>\<open>internal/adapter/chain/bitcoin/adapter.go\<close>. Coin selection
    is a smallest covering choice, a built transfer conserves value, signing covers every input and
    never runs out of scripts; the fee rate and formula, maturity, the narrowing of the amount, and
    what a lookup reports. The raw RPCs and the payload between \<open>BuildTransfer\<close> and \<open>Sign\<close> are JSON text.
  \<^item> \<^verbatim>\<open>Evm\<close>, \<^verbatim>\<open>EvmWatcher\<close>: \<^verbatim>\<open>internal/adapter/chain/evm\<close>. The fee estimate survives its way
    through decimal strings and bounds the transaction's cost; \<open>MatchTransactions\<close> yields one event for
    each watched side, with its contents, and no other; \<open>poll\<close> goes through every block once and in order, whatever the node answers.
  \<^item> \<^verbatim>\<open>Solana\<close>, \<^verbatim>\<open>Tron\<close>: the two adapters of these names, with the low 64 bits they take of an
    amount, and the life of a TRON transfer, with the JSON text it posts and reads.
  \<^item> \<^verbatim>\<open>Registry\<close>: \<^verbatim>\<open>internal/adapter/chain/registry.go\<close>, \<^verbatim>\<open>internal/config/config.go\<close>. The
    registry keeps \<open>registry_laws\<close>.
  \<^item> \<^verbatim>\<open>Events\<close>: \<^verbatim>\<open>internal/adapter/events\<close>. Publishing is bounded; different events are
    different messages.
  \<^item> \<^verbatim>\<open>Database\<close>, \<^verbatim>\<open>Repositories\<close>: \<^verbatim>\<open>db/schema.sql\<close> and the SQL statements of
    \<^verbatim>\<open>internal/adapter/repository\<close> as functions on tables that keep keys, foreign keys, checks and
    ranges; then the repositories over the connection pool. Saving is atomic and idempotent whatever
    fails; both wallet repositories keep \<open>wallet_store\<close>, the cursors \<open>cursor_laws\<close>.
  \<^item> \<^verbatim>\<open>Keystore\<close>: \<^verbatim>\<open>internal/adapter/keystore\<close>. Both stores keep \<open>sealed_keys\<close>; the signer chooses
    the scheme by chain.
  \<^item> \<^verbatim>\<open>Services\<close>: \<^verbatim>\<open>internal/app/wallet_service.go\<close> and \<^verbatim>\<open>transaction_service.go\<close>. What a created
    wallet is worth is proved in the locale \<open>wallet_service\<close>, which extends the three contracts, and
    holds for the program's registry, repository and key store by its interpretation.
  \<^item> \<^verbatim>\<open>Monitor\<close>: \<^verbatim>\<open>internal/app/monitor_service.go\<close> and \<^verbatim>\<open>cmd/api/monitoring.go\<close>. Watcher and
    monitor are one step relation, \<open>pipe_step\<close>, in which a send and its receive are one step. Events
    are saved before they are published, none is skipped, the cursor is at most one event ahead of
    what is saved, and the first failure ends the monitoring of the chain.
  \<^item> \<^verbatim>\<open>Http\<close>, \<^verbatim>\<open>Cli\<close>: \<^verbatim>\<open>internal/transport\<close>. Every request is answered, a malformed one without
    an effect; a transfer asked for on either side is the same call of the service, and a question
    asked on both gets the same JSON value, or the same error (\<open>http_cli_answers_agree\<close>).
  \<^item> \<^verbatim>\<open>Boot\<close>: the two \<open>main\<close> functions of \<^verbatim>\<open>cmd/api/main.go\<close> and \<^verbatim>\<open>cmd/cli/main.go\<close>, the
    constructors \<open>New\<close> of the adapters, and in which order the API dials, watches and listens.
  \<^item> \<^verbatim>\<open>Program\<close>: what they put together. Statements from one end
    to the other: a transfer is signed by the key behind the wallet's own address, an event of a
    watched chain is filed under the one wallet that owns the address.
  \<^item> \<^verbatim>\<open>Restarts\<close>: the runs of one chain's watch over the restarts of the process, joined by the cursor
    in the database. As long as the cursor can be read at each start, no block between the first
    cursor and the last is left out, and each run loses at most one event.
  \<^item> \<^verbatim>\<open>Isolation\<close>: one database under several callers. What the watcher finds fits the schema; the
    calls of different chains, in any order and with any failing, do not touch each other's part of
    the tables, and each part follows a specification that knows no ids and no rows
    (\<open>file_event\<close>).
  \<^item> \<^verbatim>\<open>Creation\<close>: what each way \<open>Create\<close> can end leaves in the database (a failed one leaves the
    steps it came to, up to a wallet without accounts that is found and listed), and that no account
    on Solana ever gets into it.
  \<^item> \<^verbatim>\<open>Balances\<close>: what a node reports for a wallet's address, through adapter, service and handler,
    is the decimal number in the JSON the user reads, for each of the five chains.

  A statement that a call, \<open>if\<close> it succeeds, does something is a safety statement: the calls go to
  nodes and databases that may always fail. Where the code decides alone whether it succeeds, that is
  stated (\<open>select_utxos_fails_iff\<close>, \<open>ed25519_all_hardened\<close>, \<open>parse_path_roundtrip\<close>,
  \<open>http_serve_answers\<close>, \<open>kafka_publish_bounded\<close>, \<open>watched_events_fit\<close>). Some theorems show behaviour that was hardly
  meant: \<open>no_solana_account\<close>, \<open>event_lost_behind_cursor\<close>, \<open>unread_cursor_skips_blocks\<close>, \<open>failure_ends_monitoring\<close>,
  \<open>failed_create_leaves\<close>, \<open>api_boot\<close> (nothing is closed),
  \<open>solana_transfer_amount\<close>, and the lemmas \<open>hardened_index_wraps\<close>, \<open>btc_amount_truncated\<close> and \<open>low_estimate_zero_fee\<close>.
\<close>

section \<open>Not modelled, and next\<close>

text \<open>
  \<^item> What the constructors of the libraries do (the pool, the clients, the Kafka writer, the
    listener) and how the runtime schedules goroutines: they are parameters of \<open>api_main\<close>.
  \<^item> The texts of JSON syntax errors (they are given to \<open>txt_foreign\<close> like a library's), and how \<open>net/http\<close> writes an answer to the wire.
  \<^item> Logging, and the help texts of the commands.
  \<^item> Cancellation, other than as the error of the call it interrupts and in the loops that select on it.
  \<^item> A \<open>nil\<close> slice is the empty list; where it is written as JSON it is \<open>null\<close>, which is what the
    slices of the PostgreSQL repository are. Indexes that are not unique change no result.
  \<^item> Calls that overlap in time: the laws of \<open>postgres\<close> are about a caller nobody else writes beside,
    so \<^verbatim>\<open>Isolation\<close> interleaves whole calls, and each locked section of the in-memory stores is one
    step.
  \<^item> The tests under \<^verbatim>\<open>test\<close>; the concrete instances beside the theorems play their part.

  Next: transactions of two callers interleaved statement by statement.
\<close>

end
